(* ===== verification/Cm_Prelude.thy ===== *)
theory Cm_Prelude
  imports Main "HOL-Library.Word"
begin

text \<open>
  Shared vocabulary of the development.

  \<^item> The control-flow monad: a C function of the framework may return, leave with
    \<^verbatim>\<open>siglongjmp\<close> to the test runner, leave with \<^verbatim>\<open>longjmp\<close> to
    \<^verbatim>\<open>expect_assert_failure\<close>, end the process with \<^verbatim>\<open>exit\<close> or
    \<^verbatim>\<open>abort\<close>, or have undefined behaviour (the double release of an object, for
    instance). The state a jump leaves behind is kept: C globals survive a longjmp.
  \<^item> The conversions of \<^verbatim>\<open>printf\<close> that the library uses, as functions to
    strings, and C strings as HOL strings without the terminator.
  \<^item> Source locations.
\<close>

section \<open>Collections\<close>

named_theorems cm_mono \<open>predicates that every step of a program keeps\<close>
named_theorems cm_run \<open>evaluation of monadic programs\<close>
named_theorems cm_report \<open>programs that only report\<close>

section \<open>Outcomes and programs\<close>

datatype 'a outcome =
    Ret 'a
  | Longjmp           \<comment> \<open>to \<^verbatim>\<open>global_run_test_env\<close>\<close>
  | Assert_longjmp    \<comment> \<open>to \<^verbatim>\<open>global_expect_assert_env\<close>\<close>
  | Exit int
  | Abort
  | Undefined

type_synonym ('s, 'a) prog = "'s \<Rightarrow> 'a outcome \<times> 's"

definition retM :: "'a \<Rightarrow> ('s, 'a) prog" where
  "retM x = (\<lambda>s. (Ret x, s))"

definition throwM :: "'a outcome \<Rightarrow> ('s, 'a) prog" where
  "throwM e = (\<lambda>s. (e, s))"

definition readM :: "('s \<Rightarrow> 'a) \<Rightarrow> ('s, 'a) prog" where
  "readM f = (\<lambda>s. (Ret (f s), s))"

definition modM :: "('s \<Rightarrow> 's) \<Rightarrow> ('s, unit) prog" where
  "modM f = (\<lambda>s. (Ret (), f s))"

definition bindM :: "('s, 'a) prog \<Rightarrow> ('a \<Rightarrow> ('s, 'b) prog) \<Rightarrow> ('s, 'b) prog" where
  "bindM m f = (\<lambda>s. case m s of
       (Ret x, s') \<Rightarrow> f x s'
     | (Longjmp, s') \<Rightarrow> (Longjmp, s')
     | (Assert_longjmp, s') \<Rightarrow> (Assert_longjmp, s')
     | (Exit n, s') \<Rightarrow> (Exit n, s')
     | (Abort, s') \<Rightarrow> (Abort, s')
     | (Undefined, s') \<Rightarrow> (Undefined, s'))"

definition seqM :: "('s, unit) prog \<Rightarrow> ('s, 'b) prog \<Rightarrow> ('s, 'b) prog" where
  "seqM m n = bindM m (\<lambda>_. n)"

definition whenM :: "bool \<Rightarrow> ('s, unit) prog \<Rightarrow> ('s, unit) prog" where
  "whenM b m = (if b then m else retM ())"

text \<open>A \<^verbatim>\<open>for\<close> loop over the elements of an array.\<close>

fun forM :: "'x list \<Rightarrow> ('x \<Rightarrow> ('s, unit) prog) \<Rightarrow> ('s, unit) prog" where
  "forM [] f = retM ()"
| "forM (x # xs) f = seqM (f x) (forM xs f)"

lemma retM_apply [simp, cm_run]: "retM x s = (Ret x, s)"
  by (simp add: retM_def)

lemma throwM_apply [simp, cm_run]: "throwM e s = (e, s)"
  by (simp add: throwM_def)

lemma readM_apply [simp, cm_run]: "readM f s = (Ret (f s), s)"
  by (simp add: readM_def)

lemma modM_apply [simp, cm_run]: "modM f s = (Ret (), f s)"
  by (simp add: modM_def)

lemma bindM_Ret [cm_run]: "m s = (Ret x, s') \<Longrightarrow> bindM m f s = f x s'"
  by (simp add: bindM_def)

lemma seqM_Ret: "m s = (Ret (), t) \<Longrightarrow> seqM m n s = n t"
  by (simp add: bindM_def seqM_def)

lemma bindM_apply:
  "bindM m f s = (case m s of
       (Ret x, s') \<Rightarrow> f x s'
     | (Longjmp, s') \<Rightarrow> (Longjmp, s')
     | (Assert_longjmp, s') \<Rightarrow> (Assert_longjmp, s')
     | (Exit n, s') \<Rightarrow> (Exit n, s')
     | (Abort, s') \<Rightarrow> (Abort, s')
     | (Undefined, s') \<Rightarrow> (Undefined, s'))"
  by (simp add: bindM_def)

lemma seqM_apply:
  "seqM m n s = bindM m (\<lambda>_. n) s"
  by (simp add: seqM_def)

lemma whenM_apply [simp, cm_run]: "whenM b m s = (if b then m s else (Ret (), s))"
  by (simp add: whenM_def)

lemmas run_simps = bindM_apply seqM_apply

lemma bindM_retM [simp]: "bindM (retM x) f = f x"
  by (rule ext) (simp add: bindM_apply)

lemma bindM_ret_right [simp]: "bindM m retM = m"
  by (rule ext) (auto simp: bindM_apply split: prod.splits outcome.splits)

lemma bindM_assoc: "bindM (bindM m f) g = bindM m (\<lambda>x. bindM (f x) g)"
  by (rule ext) (auto simp: bindM_apply split: prod.splits outcome.splits)

lemma bindM_readM [simp]: "bindM (readM f) g s = g (f s) s"
  by (simp add: bindM_apply)

lemma bindM_throwM:
  assumes "\<And>x. e \<noteq> Ret x"
  shows "fst (bindM (throwM e) g s) \<noteq> Ret y" and "snd (bindM (throwM e) g s) = s"
  using assms by (cases e; simp add: bindM_apply)+

lemma bindM_Ret_iff:
  "bindM m f s = (Ret y, t) \<longleftrightarrow> (\<exists>x s'. m s = (Ret x, s') \<and> f x s' = (Ret y, t))"
  by (auto simp: bindM_apply split: prod.splits outcome.splits)

lemma seqM_Ret_iff:
  "seqM m n s = (Ret y, t) \<longleftrightarrow> (\<exists>s'. m s = (Ret (), s') \<and> n s' = (Ret y, t))"
  by (simp add: seqM_apply bindM_Ret_iff)

section \<open>Properties that a program keeps\<close>

text \<open>
  \<open>keepsM P m\<close>: whatever the outcome, \<open>P\<close> holds after \<open>m\<close> if it held before. A jump
  or an exit is an outcome too, so an invariant that every operation keeps holds at the
  place a longjmp lands.
\<close>

definition keepsM :: "('s \<Rightarrow> bool) \<Rightarrow> ('s, 'a) prog \<Rightarrow> bool" where
  "keepsM P m \<longleftrightarrow> (\<forall>s. P s \<longrightarrow> P (snd (m s)))"

lemma keepsMI: "(\<And>s. P s \<Longrightarrow> P (snd (m s))) \<Longrightarrow> keepsM P m"
  by (simp add: keepsM_def)

lemma keepsMD: "keepsM P m \<Longrightarrow> P s \<Longrightarrow> P (snd (m s))"
  by (simp add: keepsM_def)

lemma keepsM_eq: "keepsM P m \<Longrightarrow> P s \<Longrightarrow> m s = (r, t) \<Longrightarrow> P t"
  by (auto dest: keepsMD)

lemma keepsM_retM [cm_mono]: "keepsM P (retM x)"
  by (simp add: keepsM_def)

lemma keepsM_throwM [cm_mono]: "keepsM P (throwM e)"
  by (simp add: keepsM_def)

lemma keepsM_readM [cm_mono]: "keepsM P (readM f)"
  by (simp add: keepsM_def)

lemma keepsM_modM: "(\<And>s. P s \<Longrightarrow> P (f s)) \<Longrightarrow> keepsM P (modM f)"
  by (simp add: keepsM_def)

lemma keepsM_bindM [cm_mono]:
  assumes "keepsM P m" and "\<And>x. keepsM P (f x)"
  shows "keepsM P (bindM m f)"
proof (rule keepsMI)
  fix s assume s: "P s"
  obtain r s' where m: "m s = (r, s')" by (cases "m s")
  then have s': "P s'" using keepsM_eq [OF assms(1) s] by blast
  show "P (snd (bindM m f s))"
    using m s' keepsMD [OF assms(2)] by (cases r) (simp_all add: bindM_apply)
qed

lemma keepsM_seqM [cm_mono]: "keepsM P m \<Longrightarrow> keepsM P n \<Longrightarrow> keepsM P (seqM m n)"
  by (simp add: seqM_def keepsM_bindM)

lemma keepsM_whenM [cm_mono]: "keepsM P m \<Longrightarrow> keepsM P (whenM b m)"
  by (simp add: whenM_def keepsM_retM)

lemma keepsM_if [cm_mono]: "keepsM P m \<Longrightarrow> keepsM P n \<Longrightarrow> keepsM P (if b then m else n)"
  by simp

lemma keepsM_option [cm_mono]:
  "keepsM P m \<Longrightarrow> (\<And>x. keepsM P (f x)) \<Longrightarrow> keepsM P (case v of None \<Rightarrow> m | Some x \<Rightarrow> f x)"
  by (cases v) auto

lemma keepsM_forM [cm_mono]: "(\<And>x. keepsM P (f x)) \<Longrightarrow> keepsM P (forM xs f)"
  by (induction xs) (auto intro: cm_mono)

text \<open>
  Triples with two postconditions: \<open>Q\<close> for a return, \<open>E\<close> for every other outcome.
\<close>

fun ends :: "('a \<Rightarrow> 's \<Rightarrow> bool) \<Rightarrow> ('s \<Rightarrow> bool) \<Rightarrow> 'a outcome \<times> 's \<Rightarrow> bool" where
  "ends Q E (Ret x, t) = Q x t"
| "ends Q E (Longjmp, t) = E t"
| "ends Q E (Assert_longjmp, t) = E t"
| "ends Q E (Exit n, t) = E t"
| "ends Q E (Abort, t) = E t"
| "ends Q E (Undefined, t) = E t"

definition tripleM :: "('s \<Rightarrow> bool) \<Rightarrow> ('s, 'a) prog \<Rightarrow> ('a \<Rightarrow> 's \<Rightarrow> bool) \<Rightarrow> ('s \<Rightarrow> bool) \<Rightarrow> bool" where
  "tripleM P m Q E \<longleftrightarrow> (\<forall>s. P s \<longrightarrow> ends Q E (m s))"

lemma tripleMI: "(\<And>s. P s \<Longrightarrow> ends Q E (m s)) \<Longrightarrow> tripleM P m Q E"
  by (simp add: tripleM_def)

lemma tripleMD: "tripleM P m Q E \<Longrightarrow> P s \<Longrightarrow> ends Q E (m s)"
  by (simp add: tripleM_def)

lemma ends_same: "ends (\<lambda>_. P) P p = P (snd p)"
  by (cases p, cases "fst p") simp_all

lemma ends_mono: "ends Q E p \<Longrightarrow> (\<And>x s. Q x s \<Longrightarrow> Q' x s) \<Longrightarrow> (\<And>s. E s \<Longrightarrow> E' s) \<Longrightarrow> ends Q' E' p"
  by (cases "(Q, E, p)" rule: ends.cases) simp_all

lemma tripleM_bind:
  assumes "tripleM P m Q E" and "\<And>x. tripleM (Q x) (f x) R E"
  shows "tripleM P (bindM m f) R E"
proof (rule tripleMI)
  fix s assume "P s"
  note m = tripleMD [OF assms(1) this]
  obtain r t where r: "m s = (r, t)" by (cases "m s")
  show "ends R E (bindM m f s)"
    using m r assms(2) by (cases r) (simp_all add: bindM_apply tripleM_def)
qed

lemma tripleM_seq:
  "tripleM P m (\<lambda>_. Q) E \<Longrightarrow> tripleM Q n R E \<Longrightarrow> tripleM P (seqM m n) R E"
  unfolding seqM_def by (rule tripleM_bind)

lemma tripleM_keeps: "tripleM P m (\<lambda>_. P) P \<longleftrightarrow> keepsM P m"
  by (simp add: tripleM_def keepsM_def ends_same)

lemma tripleM_conseq:
  assumes "tripleM P m Q E" "\<And>s. P' s \<Longrightarrow> P s" "\<And>x s. Q x s \<Longrightarrow> Q' x s" "\<And>s. E s \<Longrightarrow> E' s"
  shows "tripleM P' m Q' E'"
proof (rule tripleMI)
  fix s assume "P' s"
  then have "ends Q E (m s)" by (intro tripleMD [OF assms(1)] assms(2))
  then show "ends Q' E' (m s)" by (rule ends_mono) (auto intro: assms(3,4))
qed

lemma keepsM_triple: "keepsM P m \<Longrightarrow> (\<And>s. P s \<Longrightarrow> E s) \<Longrightarrow> tripleM P m (\<lambda>_. P) E"
  by (rule tripleM_conseq [where P = P and Q = "\<lambda>_. P" and E = P]) (simp_all add: tripleM_keeps)

text \<open>\<open>neverM m\<close>: the program never hands control back to its caller.\<close>

definition neverM :: "('s, 'a) prog \<Rightarrow> bool" where
  "neverM m \<longleftrightarrow> (\<forall>s x. fst (m s) \<noteq> Ret x)"

lemma neverMD: "neverM m \<Longrightarrow> fst (m s) = Ret x \<Longrightarrow> A"
  by (auto simp: neverM_def)

lemma neverM_bind_left:
  assumes "neverM m"
  shows "neverM (bindM m f)"
  unfolding neverM_def
proof (intro allI)
  fix s x
  obtain r s' where "m s = (r, s')" by (cases "m s")
  moreover from this have "r \<noteq> Ret y" for y
    using assms by (metis neverM_def fst_conv)
  ultimately show "fst (bindM m f s) \<noteq> Ret x"
    by (cases r) (auto simp: bindM_apply)
qed

lemma neverM_bind_right: "(\<And>x. neverM (f x)) \<Longrightarrow> neverM (bindM m f)"
  by (auto simp: neverM_def bindM_apply split: prod.splits outcome.splits)

lemma neverM_seq_right: "neverM n \<Longrightarrow> neverM (seqM m n)"
  by (simp add: seqM_def neverM_bind_right)

lemma neverM_seq_left: "neverM m \<Longrightarrow> neverM (seqM m n)"
  by (simp add: seqM_def neverM_bind_left)

section \<open>C strings and printf conversions\<close>

type_synonym byte = "8 word"
type_synonym addr = "64 word"
type_synonym uintmax = "64 word"

abbreviation nl :: string where
  "nl \<equiv> [CHR 0x0A]"

definition digit_char :: "nat \<Rightarrow> char" where
  "digit_char d = (if d < 10 then char_of (48 + d) else char_of (87 + d))"

text \<open>\<^verbatim>\<open>%u\<close>, \<^verbatim>\<open>%ju\<close>, \<^verbatim>\<open>%zu\<close>: the decimal digits.\<close>

fun fmt_u :: "nat \<Rightarrow> string" where
  "fmt_u n = (if n < 10 then [digit_char n] else fmt_u (n div 10) @ [digit_char (n mod 10)])"

declare fmt_u.simps [simp del]

text \<open>\<^verbatim>\<open>%d\<close>, \<^verbatim>\<open>%jd\<close>.\<close>

definition fmt_d :: "int \<Rightarrow> string" where
  "fmt_d i = (if i < 0 then CHR ''-'' # fmt_u (nat (- i)) else fmt_u (nat i))"

text \<open>\<^verbatim>\<open>%x\<close>.\<close>

fun fmt_x :: "nat \<Rightarrow> string" where
  "fmt_x n = (if n < 16 then [digit_char n] else fmt_x (n div 16) @ [digit_char (n mod 16)])"

declare fmt_x.simps [simp del]

text \<open>\<^verbatim>\<open>%#jx\<close>: the prefix is left out for zero.\<close>

definition fmt_hash_x :: "nat \<Rightarrow> string" where
  "fmt_hash_x n = (if n = 0 then ''0'' else ''0x'' @ fmt_x n)"

text \<open>A field width with the \<^verbatim>\<open>0\<close> flag.\<close>

definition pad0 :: "nat \<Rightarrow> string \<Rightarrow> string" where
  "pad0 w s = replicate (w - length s) (CHR ''0'') @ s"

text \<open>\<^verbatim>\<open>%s\<close> of a pointer that may be NULL, as glibc prints it.\<close>

definition fmt_s :: "string option \<Rightarrow> string" where
  "fmt_s p = (case p of None \<Rightarrow> ''(null)'' | Some s \<Rightarrow> s)"

section \<open>Source locations\<close>

record SourceLocation =
  loc_file :: "string option"
  loc_line :: int

definition initialize_source_location :: SourceLocation where
  "initialize_source_location = \<lparr>loc_file = None, loc_line = 0\<rparr>"

definition source_location_is_set :: "SourceLocation \<Rightarrow> bool" where
  "source_location_is_set loc \<longleftrightarrow> loc_file loc \<noteq> None \<and> loc_line loc \<noteq> 0"

definition set_source_location :: "string \<Rightarrow> int \<Rightarrow> SourceLocation" where
  "set_source_location f l = \<lparr>loc_file = Some f, loc_line = l\<rparr>"

text \<open>
  \<^verbatim>\<open>SOURCE_LOCATION_FORMAT\<close> is \<^verbatim>\<open>"%s:%u"\<close>: the signed line number is
  printed through an unsigned conversion of the same width.
\<close>

definition fmt_loc :: "string option \<Rightarrow> int \<Rightarrow> string" where
  "fmt_loc f l = fmt_s f @ '':'' @ fmt_u (unat (word_of_int l :: 32 word))"

lemma source_location_cleared [simp]: "\<not> source_location_is_set initialize_source_location"
  by (simp add: source_location_is_set_def initialize_source_location_def)

lemma fmt_u_small: "n < 10 \<Longrightarrow> fmt_u n = [digit_char n]"
  by (simp add: fmt_u.simps)

lemma fmt_u_nonempty: "fmt_u n \<noteq> []"
  by (subst fmt_u.simps) simp

lemma fmt_x_nonempty: "fmt_x n \<noteq> []"
  by (subst fmt_x.simps) simp

end
