(* ===== verification/List_Node.thy ===== *)
theory List_Node
  imports Cm_Prelude "HOL-Library.Monad_Syntax"
begin

text \<open>
  The doubly linked, circular list of \<^verbatim>\<open>src/cmocka.c\<close> (\<^verbatim>\<open>struct ListNode\<close> and
  the \<^verbatim>\<open>list_*\<close> functions) on an explicit heap of nodes. Addresses are natural
  numbers and 0 is NULL. An operation is a partial function of the heap: \<open>None\<close> is a
  dereference of memory that holds no node, or a failed \<^verbatim>\<open>assert_non_null\<close>; for
  the two loops it is also a run that never ends.

  The abstraction \<open>dll h head ps\<close> says that the nodes \<open>ps\<close> are, in this order, the
  list that hangs off \<open>head\<close>. Every operation is shown to be defined on well-formed lists
  and to act on \<open>ps\<close> as the corresponding list operation; the other components use the
  list this theory justifies.
\<close>

section \<open>The heap and the operations\<close>

record ListNode =
  node_value :: nat
  node_refcount :: int
  node_next :: nat
  node_prev :: nat

type_synonym node_heap = "nat \<rightharpoonup> ListNode"

definition set_next :: "node_heap \<Rightarrow> nat \<Rightarrow> nat \<Rightarrow> node_heap option" where
  "set_next h p q = do { n \<leftarrow> h p; Some (h(p \<mapsto> n\<lparr>node_next := q\<rparr>)) }"

definition set_prev :: "node_heap \<Rightarrow> nat \<Rightarrow> nat \<Rightarrow> node_heap option" where
  "set_prev h p q = do { n \<leftarrow> h p; Some (h(p \<mapsto> n\<lparr>node_prev := q\<rparr>)) }"

text \<open>\<^verbatim>\<open>list_initialize\<close>: the node is allocated by the caller.\<close>

definition list_initialize :: "node_heap \<Rightarrow> nat \<Rightarrow> node_heap option" where
  "list_initialize h node = do {
     _ \<leftarrow> h node;
     Some (h(node \<mapsto>
       \<lparr>node_value = 0, node_refcount = 1, node_next = node, node_prev = node\<rparr>)) }"

definition list_add :: "node_heap \<Rightarrow> nat \<Rightarrow> nat \<Rightarrow> node_heap option" where
  "list_add h head new_node =
     (if head = 0 \<or> new_node = 0 then None
      else do {
        h1 \<leftarrow> set_next h new_node head;
        hd1 \<leftarrow> h1 head;
        h2 \<leftarrow> set_prev h1 new_node (node_prev hd1);
        hd2 \<leftarrow> h2 head;
        h3 \<leftarrow> set_next h2 (node_prev hd2) new_node;
        set_prev h3 head new_node })"

text \<open>
  \<^verbatim>\<open>list_add_value\<close>: \<open>new_node\<close> is the address \<^verbatim>\<open>malloc\<close> returned; the
  two pointer fields of fresh memory are indeterminate, here \<open>junk\<close>.
\<close>

definition list_add_value ::
  "node_heap \<Rightarrow> nat \<Rightarrow> nat \<Rightarrow> int \<Rightarrow> nat \<Rightarrow> nat \<times> nat \<Rightarrow> node_heap option" where
  "list_add_value h head val refcount new_node junk =
     (if head = 0 \<or> val = 0 \<or> new_node = 0 then None
      else list_add (h(new_node \<mapsto>
             \<lparr>node_value = val, node_refcount = refcount,
              node_next = fst junk, node_prev = snd junk\<rparr>)) head new_node)"

text \<open>
  \<^verbatim>\<open>list_remove\<close> takes a clean-up callback for the value; its effect is on memory
  other than the nodes, an abstract client state \<open>'c\<close>. \<open>None\<close> is the NULL callback.
\<close>

definition list_remove ::
  "(nat \<Rightarrow> 'c \<Rightarrow> 'c) option \<Rightarrow> node_heap \<times> 'c \<Rightarrow> nat \<Rightarrow> (node_heap \<times> 'c) option" where
  "list_remove cleanup_value hc node =
     (if node = 0 then None
      else do {
        n \<leftarrow> fst hc node;
        h1 \<leftarrow> set_next (fst hc) (node_prev n) (node_next n);
        n1 \<leftarrow> h1 node;
        h2 \<leftarrow> set_prev h1 (node_next n1) (node_prev n1);
        n2 \<leftarrow> h2 node;
        Some (h2, case cleanup_value of None \<Rightarrow> snd hc | Some f \<Rightarrow> f (node_value n2) (snd hc)) })"

definition list_remove_free ::
  "(nat \<Rightarrow> 'c \<Rightarrow> 'c) option \<Rightarrow> node_heap \<times> 'c \<Rightarrow> nat \<Rightarrow> (node_heap \<times> 'c) option" where
  "list_remove_free cleanup_value hc node =
     (if node = 0 then None
      else do {
        hc' \<leftarrow> list_remove cleanup_value hc node;
        Some ((fst hc')(node := None), snd hc') })"

definition list_empty :: "node_heap \<Rightarrow> nat \<Rightarrow> bool option" where
  "list_empty h head = (if head = 0 then None else do { n \<leftarrow> h head; Some (node_next n = head) })"

partial_function (option) list_free ::
  "(nat \<Rightarrow> 'c \<Rightarrow> 'c) option \<Rightarrow> node_heap \<times> 'c \<Rightarrow> nat \<Rightarrow> (node_heap \<times> 'c) option" where
  "list_free cleanup_value hc head =
     do {
       e \<leftarrow> list_empty (fst hc) head;
       if e then Some hc
       else do {
         n \<leftarrow> fst hc head;
         hc' \<leftarrow> list_remove_free cleanup_value hc (node_next n);
         list_free cleanup_value hc' head } }"

text \<open>The loop of \<^verbatim>\<open>list_find\<close>; \<open>Some None\<close> is the result false.\<close>

partial_function (option) list_find_from ::
  "node_heap \<Rightarrow> nat \<Rightarrow> (nat \<Rightarrow> bool) \<Rightarrow> nat \<Rightarrow> nat option option" where
  "list_find_from h head equal_func current =
     (if current = head then Some None
      else do {
        n \<leftarrow> h current;
        if equal_func (node_value n) then Some (Some current)
        else list_find_from h head equal_func (node_next n) })"

definition list_find :: "node_heap \<Rightarrow> nat \<Rightarrow> (nat \<Rightarrow> bool) \<Rightarrow> nat option option" where
  "list_find h head equal_func =
     (if head = 0 then None
      else do { n \<leftarrow> h head; list_find_from h head equal_func (node_next n) })"

definition list_first :: "node_heap \<Rightarrow> nat \<Rightarrow> nat option option" where
  "list_first h head = do {
     e \<leftarrow> list_empty h head;
     if e then Some None else do { n \<leftarrow> h head; Some (Some (node_next n)) } }"

section \<open>Well-formed lists\<close>

definition link :: "node_heap \<Rightarrow> nat \<Rightarrow> nat \<Rightarrow> bool" where
  "link h a b \<longleftrightarrow> (\<exists>n m. h a = Some n \<and> h b = Some m \<and> node_next n = b \<and> node_prev m = a)"

fun seg :: "node_heap \<Rightarrow> nat \<Rightarrow> nat list \<Rightarrow> nat \<Rightarrow> bool" where
  "seg h a [] b = link h a b"
| "seg h a (p # ps) b = (link h a p \<and> seg h p ps b)"

definition dll :: "node_heap \<Rightarrow> nat \<Rightarrow> nat list \<Rightarrow> bool" where
  "dll h head ps \<longleftrightarrow> distinct (head # ps) \<and> 0 \<notin> set (head # ps) \<and> seg h head ps head"

text \<open>What the nodes carry, in list order.\<close>

definition payload :: "node_heap \<Rightarrow> nat list \<Rightarrow> (nat \<times> int) list" where
  "payload h ps = map (\<lambda>p. (node_value (the (h p)), node_refcount (the (h p)))) ps"

lemma seg_append: "seg h a (ps @ q # qs) b \<longleftrightarrow> seg h a ps q \<and> seg h q qs b"
  by (induction ps arbitrary: a) auto

lemma seg_snoc: "seg h a (ps @ [q]) b \<longleftrightarrow> seg h a ps q \<and> link h q b"
  by (simp add: seg_append)

lemma seg_alloc: "seg h a ps b \<Longrightarrow> set (a # b # ps) \<subseteq> dom h"
  by (induction ps arbitrary: a) (auto simp: link_def)

text \<open>A link is read off two nodes only.\<close>

lemma link_cong:
  "map_option node_next (h a) = map_option node_next (h' a) \<Longrightarrow>
   map_option node_prev (h b) = map_option node_prev (h' b) \<Longrightarrow>
   link h a b = link h' a b"
  by (cases "h a"; cases "h b"; cases "h' a"; cases "h' b") (auto simp: link_def)

lemma seg_cong:
  assumes "\<And>x. x \<in> set (a # ps) \<Longrightarrow> map_option node_next (h x) = map_option node_next (h' x)"
    and "\<And>x. x \<in> set (ps @ [b]) \<Longrightarrow> map_option node_prev (h x) = map_option node_prev (h' x)"
  shows "seg h a ps b = seg h' a ps b"
  using assms
proof (induction ps arbitrary: a)
  case Nil
  then show ?case by (auto intro!: link_cong)
next
  case (Cons p ps)
  have "link h a p = link h' a p" by (rule link_cong) (use Cons.prems in auto)
  moreover have "seg h p ps b = seg h' p ps b" by (rule Cons.IH) (use Cons.prems in auto)
  ultimately show ?case by simp
qed

lemma dll_nodes: "dll h head ps \<Longrightarrow> set (head # ps) \<subseteq> dom h"
  unfolding dll_def using seg_alloc [of h head ps head] by auto

text \<open>The last node, which \<^verbatim>\<open>head->prev\<close> points at.\<close>

definition tail_of :: "nat \<Rightarrow> nat list \<Rightarrow> nat" where
  "tail_of head ps = (if ps = [] then head else last ps)"

lemma tail_of_snoc [simp]: "tail_of head (ps @ [p]) = p"
  by (simp add: tail_of_def)

lemma tail_of_mem: "tail_of head ps \<in> set (head # ps)"
  by (simp add: tail_of_def)

lemma seg_last: "seg h a ps b \<Longrightarrow> link h (tail_of a ps) b"
  by (cases ps rule: rev_cases) (auto simp: seg_append tail_of_def)

lemma seg_first: "seg h a ps b \<Longrightarrow> link h a (hd (ps @ [b]))"
  by (cases ps) auto

lemma dll_head:
  assumes "dll h head ps"
  obtains n where "h head = Some n" and "node_next n = hd (ps @ [head])"
    and "node_prev n = tail_of head ps"
proof -
  from assms have s: "seg h head ps head" by (simp add: dll_def)
  from seg_first [OF s] seg_last [OF s] show ?thesis
    using that by (auto simp: link_def)
qed

section \<open>The operations as relinkings\<close>

text \<open>
  A relinking changes pointer fields only: \<open>fn\<close> and \<open>fp\<close> give a node's new next and
  previous pointers. The straight-line updates of \<^verbatim>\<open>list_add\<close> and
  \<^verbatim>\<open>list_remove\<close> are relinkings, whatever aliases there are between the nodes they
  touch (an empty list has its head as its own neighbour).
\<close>

definition relink :: "(nat \<Rightarrow> nat \<Rightarrow> nat) \<Rightarrow> (nat \<Rightarrow> nat \<Rightarrow> nat) \<Rightarrow> node_heap \<Rightarrow> node_heap" where
  "relink fn fp h = (\<lambda>x. map_option
     (\<lambda>n. n\<lparr>node_next := fn x (node_next n), node_prev := fp x (node_prev n)\<rparr>) (h x))"

lemma relink_None [simp]: "relink fn fp h x = None \<longleftrightarrow> h x = None"
  by (simp add: relink_def)

lemma dom_relink [simp]: "dom (relink fn fp h) = dom h"
  by (auto simp: relink_def)

lemma relink_next: "map_option node_next (relink fn fp h x) = map_option (\<lambda>n. fn x (node_next n)) (h x)"
  by (simp add: relink_def option.map_comp comp_def)

lemma relink_prev: "map_option node_prev (relink fn fp h x) = map_option (\<lambda>n. fp x (node_prev n)) (h x)"
  by (simp add: relink_def option.map_comp comp_def)

lemma link_relink:
  "link (relink fn fp h) a b \<longleftrightarrow>
     (\<exists>n m. h a = Some n \<and> h b = Some m \<and> fn a (node_next n) = b \<and> fp b (node_prev m) = a)"
  by (cases "h a"; cases "h b") (auto simp: link_def relink_def)

lemma payload_simps [simp]:
  "payload h [] = []"
  "payload h (p # ps) = (node_value (the (h p)), node_refcount (the (h p))) # payload h ps"
  by (simp_all add: payload_def)

lemma payload_relink:
  "set ps \<subseteq> dom h \<Longrightarrow> payload (relink fn fp h) ps = payload h ps"
  by (auto simp: payload_def relink_def)

lemma payload_cong:
  "(\<And>p. p \<in> set ps \<Longrightarrow> h p = h' p) \<Longrightarrow> payload h ps = payload h' ps"
  by (simp add: payload_def)

lemma set_next_relink:
  "h p \<noteq> None \<Longrightarrow> set_next h p q = Some (relink (\<lambda>x v. if x = p then q else v) (\<lambda>x v. v) h)"
  by (auto simp: set_next_def relink_def fun_eq_iff option.map_ident)

lemma set_prev_relink:
  "h p \<noteq> None \<Longrightarrow> set_prev h p q = Some (relink (\<lambda>x v. v) (\<lambda>x v. if x = p then q else v) h)"
  by (auto simp: set_prev_def relink_def fun_eq_iff option.map_ident)

lemma relink_relink:
  "relink fn' fp' (relink fn fp h) = relink (\<lambda>x v. fn' x (fn x v)) (\<lambda>x v. fp' x (fp x v)) h"
  by (auto simp: relink_def fun_eq_iff option.map_comp comp_def)

lemma relink_cong:
  "(\<And>x n. h x = Some n \<Longrightarrow> fn x (node_next n) = fn' x (node_next n)) \<Longrightarrow>
   (\<And>x n. h x = Some n \<Longrightarrow> fp x (node_prev n) = fp' x (node_prev n)) \<Longrightarrow>
   relink fn fp h = relink fn' fp' h"
  by (auto simp: relink_def fun_eq_iff intro!: option.map_cong)

lemma list_add_relink:
  assumes "head \<noteq> 0" "new \<noteq> 0" "head \<noteq> new" "h new \<noteq> None" "h head = Some n" "h (node_prev n) \<noteq> None"
    and "node_prev n \<noteq> new"
  shows "list_add h head new =
    Some (relink (\<lambda>x v. if x = new then head else if x = node_prev n then new else v)
                 (\<lambda>x v. if x = new then node_prev n else if x = head then new else v) h)"
  using assms
  by (auto simp: list_add_def set_next_relink set_prev_relink relink_relink relink_def
      option.map_comp comp_def intro!: ext option.map_cong)

lemma list_remove_relink:
  assumes "node \<noteq> 0" "h node = Some n" "h (node_prev n) \<noteq> None" "h (node_next n) \<noteq> None"
    and "node_prev n \<noteq> node" "node_next n \<noteq> node"
  shows "list_remove cl (h, c) node =
    Some (relink (\<lambda>x v. if x = node_prev n then node_next n else v)
                 (\<lambda>x v. if x = node_next n then node_prev n else v) h,
          case cl of None \<Rightarrow> c | Some f \<Rightarrow> f (node_value n) c)"
  using assms
  by (cases cl) (auto simp: list_remove_def set_next_relink set_prev_relink relink_relink relink_def
      option.map_comp comp_def intro!: ext option.map_cong)

section \<open>Refinement to lists\<close>

text \<open>A segment may be redirected to another end: its inner links have to be untouched.\<close>

lemma seg_retarget:
  assumes s: "seg h a ps b" and l: "link h' (tail_of a ps) b'"
    and nx: "\<And>x. x \<in> set (butlast (a # ps)) \<Longrightarrow> map_option node_next (h' x) = map_option node_next (h x)"
    and pv: "\<And>x. x \<in> set ps \<Longrightarrow> map_option node_prev (h' x) = map_option node_prev (h x)"
  shows "seg h' a ps b'"
proof (cases ps rule: rev_cases)
  case Nil
  then show ?thesis using l by (simp add: tail_of_def)
next
  case (snoc qs q)
  have "seg h' a qs q = seg h a qs q"
    by (rule seg_cong) (use snoc nx pv in \<open>auto simp: butlast_append\<close>)
  then show ?thesis using s l snoc by (simp add: seg_append tail_of_def)
qed

lemma tail_of_notin_butlast: "distinct (a # ps) \<Longrightarrow> tail_of a ps \<notin> set (butlast (a # ps))"
  by (cases ps rule: rev_cases) (auto simp: tail_of_def)

lemma dll_add:
  assumes wf: "dll h head ps" and new: "h new \<noteq> None" "new \<noteq> 0" "new \<notin> set (head # ps)"
  obtains h' where "list_add h head new = Some h'" and "dll h' head (ps @ [new])"
    and "payload h' ps = payload h ps" and "\<And>x. x \<notin> set (head # new # ps) \<Longrightarrow> h' x = h x"
    and "payload h' [new] = payload h [new]" and "dom h' = dom h"
proof -
  obtain n where n: "h head = Some n" "node_prev n = tail_of head ps"
    by (rule dll_head [OF wf])
  let ?t = "tail_of head ps"
  let ?h = "relink (\<lambda>x v. if x = new then head else if x = ?t then new else v)
                   (\<lambda>x v. if x = new then ?t else if x = head then new else v) h"
  have alloc: "set (head # ps) \<subseteq> dom h" by (rule dll_nodes [OF wf])
  have t: "?t \<in> set (head # ps)" by (rule tail_of_mem)
  have add: "list_add h head new = Some ?h"
    using list_add_relink [of head new h n, unfolded n(2)] wf new n(1) t alloc
    by (force simp: dll_def)
  have seg: "seg h head ps head" and dist: "distinct (head # ps)" "0 \<notin> set (head # ps)"
    using wf by (auto simp: dll_def)
  have "seg ?h head ps new"
  proof (rule seg_retarget [OF seg])
    show "link ?h (tail_of head ps) new" using t new alloc by (auto simp: link_relink)
    show "map_option node_next (?h x) = map_option node_next (h x)"
      if "x \<in> set (butlast (head # ps))" for x
      using that tail_of_notin_butlast [OF dist(1)] new in_set_butlastD [OF that]
      by (cases "h x") (auto simp: relink_def)
    show "map_option node_prev (?h x) = map_option node_prev (h x)" if "x \<in> set ps" for x
      using that new dist by (cases "h x") (auto simp: relink_def)
  qed
  moreover have "link ?h new head" using new n by (auto simp: link_relink)
  ultimately have dll': "dll ?h head (ps @ [new])"
    using dist new by (auto simp: dll_def seg_append)
  show ?thesis
  proof (rule that [OF add dll'])
    show "payload ?h ps = payload h ps" using alloc by (simp add: payload_relink)
    show "payload ?h [new] = payload h [new]" by (rule payload_relink) (use new in auto)
    show "?h x = h x" if "x \<notin> set (head # new # ps)" for x
      using that t by (cases "h x") (auto simp: relink_def)
    show "dom ?h = dom h" by simp
  qed
qed

lemma dll_remove:
  assumes wf: "dll h head (ps @ p # qs)"
  obtains h' where
    "\<And>(cl :: (nat \<Rightarrow> 'c \<Rightarrow> 'c) option) c. list_remove cl (h, c) p =
       Some (h', case cl of None \<Rightarrow> c | Some f \<Rightarrow> f (node_value (the (h p))) c)"
    and "dll h' head (ps @ qs)" and "payload h' (ps @ qs) = payload h (ps @ qs)"
    and "\<And>x. x \<notin> set (head # ps @ qs) \<Longrightarrow> h' x = h x"
proof -
  have dist: "distinct (head # ps @ p # qs)" "0 \<notin> set (head # ps @ p # qs)"
    and s1: "seg h head ps p" and s2: "seg h p qs head"
    using wf by (auto simp: dll_def seg_append)
  let ?a = "tail_of head ps" and ?b = "hd (qs @ [head])"
  have l1: "link h ?a p" by (rule seg_last [OF s1])
  have l2: "link h p ?b" by (rule seg_first [OF s2])
  obtain n where n: "h p = Some n" "node_prev n = ?a" "node_next n = ?b"
    using l1 l2 by (auto simp: link_def)
  have a: "?a \<in> set (head # ps)" by (rule tail_of_mem)
  have b: "?b \<in> set (head # qs)" by (cases qs) auto
  let ?h = "relink (\<lambda>x v. if x = ?a then ?b else v) (\<lambda>x v. if x = ?b then ?a else v) h"
  have rem: "list_remove cl (h, c) p =
       Some (?h, case cl of None \<Rightarrow> c | Some f \<Rightarrow> f (node_value (the (h p))) c)"
    for cl :: "(nat \<Rightarrow> 'c \<Rightarrow> 'c) option" and c
  proof -
    have "?a \<noteq> p" "?b \<noteq> p" "p \<noteq> 0" using a b dist by auto
    moreover have "h ?a \<noteq> None" "h ?b \<noteq> None" using l1 l2 by (auto simp: link_def)
    ultimately show ?thesis
      using list_remove_relink [of p h n cl c, unfolded n(2,3)] n(1) by (cases cl) simp_all
  qed
  have ab: "link ?h ?a ?b" unfolding link_relink using l1 l2 by (auto simp: link_def)
  have first: "seg ?h head ps ?b"
  proof (rule seg_retarget [OF s1 ab])
    have d: "distinct (head # ps)" using dist by auto
    show "map_option node_next (?h x) = map_option node_next (h x)"
      if "x \<in> set (butlast (head # ps))" for x
      using that tail_of_notin_butlast [OF d] by (cases "h x") (auto simp: relink_def)
    show "map_option node_prev (?h x) = map_option node_prev (h x)" if "x \<in> set ps" for x
      using that b dist by (cases "h x") (auto simp: relink_def)
  qed
  have "seg ?h head (ps @ qs) head"
  proof (cases qs)
    case Nil
    then show ?thesis using first by simp
  next
    case (Cons q qs')
    have "seg ?h q qs' head = seg h q qs' head"
      by (rule seg_cong) (use Cons dist a in \<open>auto simp: relink_next relink_prev intro!: option.map_cong\<close>)
    then show ?thesis using Cons first s2 by (simp add: seg_append)
  qed
  then have dll': "dll ?h head (ps @ qs)" using dist by (auto simp: dll_def)
  show ?thesis
  proof (rule that [OF rem dll'])
    have "set (ps @ qs) \<subseteq> dom h" using dll_nodes [OF wf] by auto
    then show "payload ?h (ps @ qs) = payload h (ps @ qs)" by (rule payload_relink)
    show "?h x = h x" if "x \<notin> set (head # ps @ qs)" for x
      using that a b by (cases "h x") (auto simp: relink_def)
  qed
qed

text \<open>\<open>cleaned\<close> is the effect of a clean-up callback on the client state.\<close>

definition cleaned :: "(nat \<Rightarrow> 'c \<Rightarrow> 'c) option \<Rightarrow> nat \<times> int \<Rightarrow> 'c \<Rightarrow> 'c" where
  "cleaned cl v c = (case cl of None \<Rightarrow> c | Some f \<Rightarrow> f (fst v) c)"

lemma dll_frame:
  assumes "dll h head ps" and "\<And>x. x \<in> set (head # ps) \<Longrightarrow> h' x = h x"
  shows "dll h' head ps"
  using assms seg_cong [of head ps h h' head] by (auto simp: dll_def)

lemma dll_remove_free:
  assumes wf: "dll h head (ps @ p # qs)"
  obtains h' where
    "\<And>(cl :: (nat \<Rightarrow> 'c \<Rightarrow> 'c) option) c. list_remove_free cl (h, c) p =
       Some (h', cleaned cl (hd (payload h [p])) c)"
    and "dll h' head (ps @ qs)" and "payload h' (ps @ qs) = payload h (ps @ qs)"
    and "\<And>x. x \<notin> set (head # ps @ p # qs) \<Longrightarrow> h' x = h x" and "h' p = None"
proof -
  obtain h1 where rem: "\<And>(cl :: (nat \<Rightarrow> 'c \<Rightarrow> 'c) option) c. list_remove cl (h, c) p =
       Some (h1, case cl of None \<Rightarrow> c | Some f \<Rightarrow> f (node_value (the (h p))) c)"
    and wf1: "dll h1 head (ps @ qs)" and pl: "payload h1 (ps @ qs) = payload h (ps @ qs)"
    and frame: "\<And>x. x \<notin> set (head # ps @ qs) \<Longrightarrow> h1 x = h x"
    using dll_remove [OF wf, where ?'c = 'c] by metis
  have p: "p \<noteq> 0" "p \<notin> set (head # ps @ qs)" using wf by (auto simp: dll_def)
  let ?h = "h1(p := None)"
  show ?thesis
  proof (rule that)
    show "list_remove_free cl (h, c) p = Some (?h, cleaned cl (hd (payload h [p])) c)"
      for cl :: "(nat \<Rightarrow> 'c \<Rightarrow> 'c) option" and c
      using p by (cases cl) (simp_all add: list_remove_free_def rem cleaned_def)
    show "dll ?h head (ps @ qs)" by (rule dll_frame [OF wf1]) (use p in auto)
    show "payload ?h (ps @ qs) = payload h (ps @ qs)"
      using p by (subst payload_cong [where h' = h1]) (auto simp: pl)
    show "?h x = h x" if "x \<notin> set (head # ps @ p # qs)" for x
      using that frame [of x] by auto
  qed simp
qed

lemma list_empty_dll:
  assumes "dll h head ps"
  shows "list_empty h head = Some (ps = [])"
proof -
  obtain n where "h head = Some n" "node_next n = hd (ps @ [head])" by (rule dll_head [OF assms])
  then show ?thesis using assms by (cases ps) (auto simp: list_empty_def dll_def)
qed

lemma list_first_dll:
  assumes "dll h head ps"
  shows "list_first h head = Some (case ps of [] \<Rightarrow> None | p # _ \<Rightarrow> Some p)"
proof -
  obtain n where "h head = Some n" "node_next n = hd (ps @ [head])" by (rule dll_head [OF assms])
  then show ?thesis by (cases ps) (simp_all add: list_first_def list_empty_dll [OF assms])
qed

text \<open>The search loop ends and returns the first matching node.\<close>

lemma list_find_from_seg:
  assumes "seg h a ps head" "head \<notin> set ps" "h a = Some n"
  shows "list_find_from h head P (node_next n) =
    Some (find (\<lambda>p. P (node_value (the (h p)))) ps)"
  using assms
proof (induction ps arbitrary: a n)
  case Nil
  then have "node_next n = head" by (auto simp: link_def)
  then show ?case by (simp add: list_find_from.simps)
next
  case (Cons p ps)
  from Cons.prems obtain m where m: "h p = Some m" "node_next n = p" by (auto simp: link_def)
  have "list_find_from h head P (node_next m) = Some (find (\<lambda>p. P (node_value (the (h p)))) ps)"
    by (rule Cons.IH) (use Cons.prems m in auto)
  then show ?case using m Cons.prems(2) by (subst list_find_from.simps) auto
qed

lemma list_find_dll:
  assumes wf: "dll h head ps"
  shows "list_find h head P = Some (find (\<lambda>p. P (node_value (the (h p)))) ps)"
proof -
  obtain n where n: "h head = Some n" by (rule dll_head [OF wf])
  moreover have "head \<noteq> 0" "seg h head ps head" "head \<notin> set ps" using wf by (auto simp: dll_def)
  ultimately show ?thesis by (simp add: list_find_def list_find_from_seg)
qed

text \<open>
  \<^verbatim>\<open>list_free\<close> returns on every well-formed list: each round releases the first
  node, the clean-up callbacks run in list order, and the head is left empty.
\<close>

lemma list_free_dll:
  fixes cl :: "(nat \<Rightarrow> 'c \<Rightarrow> 'c) option"
  assumes "dll h head ps"
  shows "\<exists>h'. list_free cl (h, c) head = Some (h', fold (cleaned cl) (payload h ps) c)
     \<and> dll h' head [] \<and> (\<forall>p \<in> set ps. h' p = None) \<and> (\<forall>x. x \<notin> set (head # ps) \<longrightarrow> h' x = h x)"
  using assms
proof (induction ps arbitrary: h c)
  case Nil
  then show ?case
    by (subst list_free.simps) (auto simp: list_empty_dll payload_def)
next
  case (Cons p ps)
  obtain n where n: "h head = Some n" "node_next n = p"
    by (rule dll_head [OF Cons.prems]) auto
  obtain h1 where rem: "\<And>(cl :: (nat \<Rightarrow> 'c \<Rightarrow> 'c) option) c.
      list_remove_free cl (h, c) p = Some (h1, cleaned cl (hd (payload h [p])) c)"
    and wf1: "dll h1 head ps" and pl: "payload h1 ps = payload h ps"
    and frame: "\<And>x. x \<notin> set (head # p # ps) \<Longrightarrow> h1 x = h x" and gone: "h1 p = None"
    using dll_remove_free [of h head "[]" p ps, where ?'c = 'c] Cons.prems by (metis append_Nil)
  let ?c = "cleaned cl (hd (payload h [p])) c"
  obtain h' where h': "list_free cl (h1, ?c) head = Some (h', fold (cleaned cl) (payload h1 ps) ?c)"
    "dll h' head []" "\<forall>p \<in> set ps. h' p = None" "\<forall>x. x \<notin> set (head # ps) \<longrightarrow> h' x = h1 x"
    using Cons.IH [OF wf1] by blast
  have p: "p \<notin> set (head # ps)" using Cons.prems by (auto simp: dll_def)
  have "list_free cl (h, c) head = Some (h', fold (cleaned cl) (payload h (p # ps)) c)"
    by (subst list_free.simps)
      (use h'(1) n rem Cons.prems in \<open>simp add: list_empty_dll pl\<close>)
  moreover have "\<forall>x. x \<notin> set (head # p # ps) \<longrightarrow> h' x = h x" using h'(4) frame by auto
  moreover have "\<forall>q \<in> set (p # ps). h' q = None" using h'(3,4) p gone by auto
  ultimately show ?case using h'(2) by blast
qed

lemma list_initialize_dll:
  assumes "h head \<noteq> None" "head \<noteq> 0"
  obtains h' where "list_initialize h head = Some h'" "dll h' head []"
  using assms by (auto simp: list_initialize_def dll_def link_def)

section \<open>The list as an interface\<close>

text \<open>
  What the rest of the library relies on: adding appends, the first node is the oldest
  one, and removing takes one node out of the middle. The lemmas of the locale follow from
  these laws alone.
\<close>

fun add_all :: "('h \<Rightarrow> nat \<Rightarrow> nat \<Rightarrow> 'h option) \<Rightarrow> 'h \<Rightarrow> nat \<Rightarrow> nat list \<Rightarrow> 'h option" where
  "add_all add h head [] = Some h"
| "add_all add h head (n # ns) = do { h' \<leftarrow> add h head n; add_all add h' head ns }"

fun remove_all :: "('h \<Rightarrow> nat \<Rightarrow> 'h option) \<Rightarrow> 'h \<Rightarrow> nat list \<Rightarrow> 'h option" where
  "remove_all rem h [] = Some h"
| "remove_all rem h (n # ns) = do { h' \<leftarrow> rem h n; remove_all rem h' ns }"

locale list_store =
  fixes is_list :: "'h \<Rightarrow> nat \<Rightarrow> nat list \<Rightarrow> bool"
    and usable :: "'h \<Rightarrow> nat \<Rightarrow> bool"
    and add :: "'h \<Rightarrow> nat \<Rightarrow> nat \<Rightarrow> 'h option"
    and first :: "'h \<Rightarrow> nat \<Rightarrow> nat option option"
    and rem :: "'h \<Rightarrow> nat \<Rightarrow> 'h option"
  assumes add_appends: "is_list h head ps \<Longrightarrow> usable h n \<Longrightarrow> n \<notin> set (head # ps) \<Longrightarrow>
      \<exists>h'. add h head n = Some h' \<and> is_list h' head (ps @ [n]) \<and> (\<forall>x. usable h x \<longrightarrow> usable h' x)"
    and first_oldest: "is_list h head ps \<Longrightarrow>
      first h head = Some (case ps of [] \<Rightarrow> None | p # _ \<Rightarrow> Some p)"
    and rem_deletes: "is_list h head (ps @ p # qs) \<Longrightarrow>
      \<exists>h'. rem h p = Some h' \<and> is_list h' head (ps @ qs)"
begin

lemma add_all_appends:
  assumes "is_list h head ps" "distinct (head # ps @ ns)" "\<forall>n \<in> set ns. usable h n"
  shows "\<exists>h'. add_all add h head ns = Some h' \<and> is_list h' head (ps @ ns)"
  using assms
proof (induction ns arbitrary: h ps)
  case Nil
  then show ?case by simp
next
  case (Cons n ns)
  obtain h1 where h1: "add h head n = Some h1" "is_list h1 head (ps @ [n])"
    "\<forall>x. usable h x \<longrightarrow> usable h1 x"
    using add_appends [OF Cons.prems(1), of n] Cons.prems by auto
  have "\<exists>h'. add_all add h1 head ns = Some h' \<and> is_list h' head ((ps @ [n]) @ ns)"
    by (rule Cons.IH) (use h1 Cons.prems in auto)
  then show ?case using h1 by simp
qed

lemma remove_all_empties:
  "is_list h head ps \<Longrightarrow> \<exists>h'. remove_all rem h ps = Some h' \<and> is_list h' head []"
proof (induction ps arbitrary: h)
  case Nil
  then show ?case by simp
next
  case (Cons p ps)
  then obtain h1 where "rem h p = Some h1" "is_list h1 head ps"
    using rem_deletes [of h head "[]" p ps] by auto
  then show ?case using Cons.IH by simp
qed

text \<open>First in, first out: after any sequence of additions the oldest is the first.\<close>

lemma fifo:
  assumes "is_list h head []" "distinct (head # n # ns)" "\<forall>m \<in> set (n # ns). usable h m"
  shows "\<exists>h'. add_all add h head (n # ns) = Some h' \<and> first h' head = Some (Some n)"
  using add_all_appends [of h head "[]" "n # ns"] assms first_oldest by force

end

text \<open>A node that malloc has returned is usable until it is linked into a list.\<close>

definition allocated :: "node_heap \<Rightarrow> nat \<Rightarrow> bool" where
  "allocated h n \<longleftrightarrow> n \<noteq> 0 \<and> h n \<noteq> None"

definition unlink :: "node_heap \<Rightarrow> nat \<Rightarrow> node_heap option" where
  "unlink h n = map_option fst (list_remove None (h, ()) n)"

interpretation node_list: list_store dll allocated list_add list_first unlink
proof unfold_locales
  fix h head ps n
  assume wf: "dll h head ps" and n: "allocated h n" "n \<notin> set (head # ps)"
  obtain h' where "list_add h head n = Some h'" "dll h' head (ps @ [n])" and d: "dom h' = dom h"
    by (rule dll_add [OF wf, of n]) (use n in \<open>auto simp: allocated_def\<close>)
  moreover have "\<forall>x. allocated h x \<longrightarrow> allocated h' x"
    using d by (auto simp: allocated_def)
  ultimately show "\<exists>h'. list_add h head n = Some h' \<and> dll h' head (ps @ [n]) \<and>
      (\<forall>x. allocated h x \<longrightarrow> allocated h' x)" by blast
next
  fix h head ps
  assume "dll h head ps"
  then show "list_first h head = Some (case ps of [] \<Rightarrow> None | p # _ \<Rightarrow> Some p)"
    by (rule list_first_dll)
next
  fix h head ps p qs
  assume "dll h head (ps @ p # qs)"
  then show "\<exists>h'. unlink h p = Some h' \<and> dll h' head (ps @ qs)"
    by (rule dll_remove [where ?'c = unit]) (auto simp: unlink_def)
qed

section \<open>The list as a sequence\<close>

text \<open>
  Calls on one list, and what they do to the sequence of nodes with their values and
  reference counts. A call is legal when the library may make it: a new node is
  not in the list already, and a node to be removed is.
\<close>

datatype list_call =
    Add_value nat nat int "nat \<times> nat" \<comment> \<open>node that malloc returned, value, count, garbage in the node\<close>
  | Remove_free nat
  | Free_all

type_synonym entries = "(nat \<times> nat \<times> int) list"

fun spec_call :: "list_call \<Rightarrow> entries \<Rightarrow> entries" where
  "spec_call (Add_value n v r j) es = es @ [(n, v, r)]"
| "spec_call (Remove_free n) es = filter (\<lambda>e. fst e \<noteq> n) es"
| "spec_call Free_all es = []"

fun legal_call :: "nat \<Rightarrow> list_call \<Rightarrow> entries \<Rightarrow> bool" where
  "legal_call head (Add_value n v r j) es = (n \<noteq> 0 \<and> v \<noteq> 0 \<and> n \<notin> set (head # map fst es))"
| "legal_call head (Remove_free n) es = (n \<in> set (map fst es))"
| "legal_call head Free_all es = True"

fun run_call :: "nat \<Rightarrow> list_call \<Rightarrow> node_heap \<Rightarrow> node_heap option" where
  "run_call head (Add_value n v r j) h = list_add_value h head v r n j"
| "run_call head (Remove_free n) h = map_option fst (list_remove_free None (h, ()) n)"
| "run_call head Free_all h = map_option fst (list_free None (h, ()) head)"

fun run_calls :: "nat \<Rightarrow> list_call list \<Rightarrow> node_heap \<Rightarrow> node_heap option" where
  "run_calls head [] h = Some h"
| "run_calls head (c # cs) h = do { h' \<leftarrow> run_call head c h; run_calls head cs h' }"

fun legal_calls :: "nat \<Rightarrow> list_call list \<Rightarrow> entries \<Rightarrow> bool" where
  "legal_calls head [] es = True"
| "legal_calls head (c # cs) es = (legal_call head c es \<and> legal_calls head cs (spec_call c es))"

definition represents :: "node_heap \<Rightarrow> nat \<Rightarrow> entries \<Rightarrow> bool" where
  "represents h head es \<longleftrightarrow> dll h head (map fst es) \<and> payload h (map fst es) = map snd es"

fun nodes_of :: "list_call \<Rightarrow> nat set" where
  "nodes_of (Add_value n v r j) = {n}"
| "nodes_of _ = {}"

lemma run_add:
  assumes "represents h head es" "legal_call head (Add_value n v r j) es"
  shows "\<exists>h'. run_call head (Add_value n v r j) h = Some h' \<and> represents h' head (es @ [(n, v, r)])
    \<and> (\<forall>x. x \<notin> set (head # n # map fst es) \<longrightarrow> h' x = h x)"
proof -
  let ?ps = "map fst es"
  let ?h = "h(n \<mapsto> \<lparr>node_value = v, node_refcount = r, node_next = fst j, node_prev = snd j\<rparr>)"
  have n: "n \<noteq> 0" "v \<noteq> 0" "n \<notin> set (head # ?ps)" and wf: "dll h head ?ps" "payload h ?ps = map snd es"
    using assms by (simp_all add: represents_def)
  have wf': "dll ?h head ?ps" using n(3) by (intro dll_frame [OF wf(1)]) auto
  have p: "payload ?h ?ps = map snd es" using n(3) wf(2) by (auto simp: payload_def)
  have hd: "head \<noteq> 0" using wf(1) by (auto simp: dll_def)
  obtain h' where h': "list_add ?h head n = Some h'" "dll h' head (?ps @ [n])" "payload h' ?ps = payload ?h ?ps"
    "\<And>x. x \<notin> set (head # n # ?ps) \<Longrightarrow> h' x = ?h x" "payload h' [n] = payload ?h [n]"
    by (rule dll_add [OF wf', of n]) (use n in auto)
  have "payload h' (?ps @ [n]) = map snd es @ [(v, r)]" using h'(3,5) p by (simp add: payload_def)
  then have "represents h' head (es @ [(n, v, r)])" using h'(2) by (simp add: represents_def)
  moreover have "run_call head (Add_value n v r j) h = Some h'" using h'(1) n hd by (simp add: list_add_value_def)
  ultimately show ?thesis using h'(4) by (intro exI [of _ h']) auto
qed

lemma run_remove:
  assumes "represents h head es" "legal_call head (Remove_free n) es"
  shows "\<exists>h'. run_call head (Remove_free n) h = Some h' \<and> represents h' head (filter (\<lambda>e. fst e \<noteq> n) es)
    \<and> h' n = None \<and> (\<forall>x. x \<notin> set (head # map fst es) \<longrightarrow> h' x = h x)"
proof -
  obtain e where "e \<in> set es" "fst e = n" using assms(2) by auto
  then obtain as bs where es: "es = as @ e # bs" by (auto simp: in_set_conv_decomp)
  have e: "fst e = n" by fact
  have wf: "dll h head (map fst as @ n # map fst bs)" and pl: "payload h (map fst es) = map snd es"
    using assms(1) e by (simp_all add: represents_def es)
  have "distinct (map fst as @ n # map fst bs)" using wf by (simp add: dll_def)
  then have "n \<notin> fst ` set as" "n \<notin> fst ` set bs" by auto
  then have "filter (\<lambda>e. fst e \<noteq> n) as = as" "filter (\<lambda>e. fst e \<noteq> n) bs = bs" by (auto simp: filter_id_conv)
  then have f: "filter (\<lambda>e. fst e \<noteq> n) es = as @ bs" unfolding es using e by simp
  obtain h' x where h': "list_remove_free None (h, ()) n = Some (h', x)"
    "dll h' head (map fst as @ map fst bs)" "payload h' (map fst as @ map fst bs) = payload h (map fst as @ map fst bs)"
    "\<And>x. x \<notin> set (head # map fst as @ n # map fst bs) \<Longrightarrow> h' x = h x" "h' n = None"
    by (rule dll_remove_free [where ?'c = unit, OF wf]) blast
  have "payload h (map fst as @ map fst bs) = map snd (as @ bs)"
    using pl by (simp add: es payload_def)
  then have "represents h' head (as @ bs)" using h'(2,3) by (simp add: represents_def)
  then show ?thesis using h'(1,4,5) unfolding f by (intro exI [of _ h']) (auto simp: es e)
qed

lemma run_free:
  assumes "represents h head es"
  shows "\<exists>h'. run_call head Free_all h = Some h' \<and> represents h' head [] \<and> (\<forall>n \<in> fst ` set es. h' n = None)
    \<and> (\<forall>x. x \<notin> set (head # map fst es) \<longrightarrow> h' x = h x)"
proof -
  have "dll h head (map fst es)" using assms by (simp add: represents_def)
  from list_free_dll [OF this, of "None :: (nat \<Rightarrow> unit \<Rightarrow> unit) option" "()"]
  obtain h' x where h': "list_free None (h, ()) head = Some (h', x)" "dll h' head []" "\<forall>p \<in> set (map fst es). h' p = None"
    "\<forall>x. x \<notin> set (head # map fst es) \<longrightarrow> h' x = h x" by blast
  then show ?thesis by (intro exI [of _ h']) (simp add: represents_def payload_def)
qed

lemma run_call_refines:
  assumes "represents h head es" "legal_call head c es"
  shows "\<exists>h'. run_call head c h = Some h' \<and> represents h' head (spec_call c es)
    \<and> (\<forall>n \<in> fst ` set es. n \<notin> fst ` set (spec_call c es) \<longrightarrow> h' n = None)
    \<and> (\<forall>x. x \<notin> set (head # map fst es) \<union> nodes_of c \<longrightarrow> h' x = h x)"
proof (cases c)
  case (Add_value n v r j)
  then show ?thesis using run_add [of h head es n v r j] assms by auto
next
  case (Remove_free n)
  then show ?thesis using run_remove [of h head es n] assms by fastforce
next
  case Free_all
  then show ?thesis using run_free [OF assms(1)] by auto
qed

text \<open>
  C26. The doubly linked lists implement sequences: from a heap in which a list represents a
  sequence of values with reference counts, every sequence of legal calls of
  \<^verbatim>\<open>list_add_value\<close>, \<^verbatim>\<open>list_remove_free\<close> and \<^verbatim>\<open>list_free\<close> runs to its end, the list
  represents the sequence that the calls describe, and no node outside the list and the
  nodes added to it has changed.
\<close>

theorem list_calls_refine:
  assumes "represents h head es" and "legal_calls head cs es"
  shows "\<exists>h'. run_calls head cs h = Some h' \<and> represents h' head (fold spec_call cs es)
    \<and> (\<forall>x. x \<notin> set (head # map fst es) \<union> \<Union> (nodes_of ` set cs) \<longrightarrow> h' x = h x)"
  using assms
proof (induction cs arbitrary: h es)
  case (Cons c cs)
  obtain h1 where h1: "run_call head c h = Some h1" "represents h1 head (spec_call c es)"
    "\<forall>x. x \<notin> set (head # map fst es) \<union> nodes_of c \<longrightarrow> h1 x = h x"
    using run_call_refines [OF Cons.prems(1), of c] Cons.prems(2) by auto
  obtain h2 where h2: "run_calls head cs h1 = Some h2" "represents h2 head (fold spec_call cs (spec_call c es))"
    "\<forall>x. x \<notin> set (head # map fst (spec_call c es)) \<union> \<Union> (nodes_of ` set cs) \<longrightarrow> h2 x = h1 x"
    using Cons.IH [OF h1(2)] Cons.prems(2) by auto
  have "fst ` set (spec_call c es) \<subseteq> fst ` set es \<union> nodes_of c" by (cases c) auto
  then have "h2 x = h x" if "x \<notin> set (head # map fst es) \<union> \<Union> (nodes_of ` set (c # cs))" for x
    using that h1(3) h2(3) by (auto simp: subset_iff) metis
  then show ?case using h1(1) h2(1,2) by auto
qed simp

theorem list_calls_refine_witness:
  "\<exists>h'. run_calls 1 [Add_value 5 50 1 (0, 0), Add_value 6 60 (- 1) (0, 0), Remove_free 5]
     [1 \<mapsto> \<lparr>node_value = 0, node_refcount = 1, node_next = 1, node_prev = 1\<rparr>] = Some h' \<and> represents h' 1 [(6, 60, - 1)]"
proof -
  let ?h = "[1 \<mapsto> \<lparr>node_value = 0, node_refcount = 1, node_next = 1, node_prev = 1\<rparr>] :: node_heap"
  have "represents ?h 1 []" by (simp add: represents_def dll_def link_def payload_def)
  from list_calls_refine [OF this, of "[Add_value 5 50 1 (0, 0), Add_value 6 60 (- 1) (0, 0), Remove_free 5]"]
  show ?thesis by auto
qed

end
