(* ===== verification/C_String.thy ===== *)
theory C_String
  imports Cm_Prelude "HOL-Library.Monad_Syntax" "HOL-Library.Sublist"
begin

text \<open>
  String handling of \<^verbatim>\<open>src/cmocka.c\<close>: in-place replacement in a character buffer
  (\<^verbatim>\<open>c_strreplace\<close>), wildcard matching (\<^verbatim>\<open>c_strmatch\<close>) and the escaping of
  XML attribute values (\<^verbatim>\<open>cmprepare_xml_attribute_string\<close>).

  A buffer is a list of characters of fixed length, the string in it ends at the first
  NUL. A buffer operation gives \<open>Out_of_bounds\<close> when it would access anything outside the buffer. A
  loop that may not end is a partial function into \<^typ>\<open>'a option\<close>: \<open>None\<close> stands for a
  loop that does not end and for nothing else, an access outside the buffer inside the loop is \<open>Some Out_of_bounds\<close>.
\<close>

datatype 'a access = Out_of_bounds | In_bounds 'a

text \<open>Calls in sequence: the second is made when the first has returned and stayed in bounds.\<close>

fun bindA :: "'a access option \<Rightarrow> ('a \<Rightarrow> 'b access option) \<Rightarrow> 'b access option" where
  "bindA None f = None"
| "bindA (Some Out_of_bounds) f = Some Out_of_bounds"
| "bindA (Some (In_bounds x)) f = f x"

section \<open>The C library on buffers\<close>

abbreviation NUL :: char where
  "NUL \<equiv> CHR 0x00"

definition cstr :: "char list \<Rightarrow> string" where
  "cstr buf = takeWhile (\<lambda>c. c \<noteq> NUL) buf"

definition strlen :: "char list \<Rightarrow> nat" where
  "strlen buf = length (cstr buf)"

text \<open>\<^verbatim>\<open>strstr\<close>: the offset of the first occurrence.\<close>

fun strstr :: "string \<Rightarrow> string \<Rightarrow> nat option" where
  "strstr hay pat =
     (if prefix pat hay then Some 0
      else case hay of [] \<Rightarrow> None | _ # t \<Rightarrow> map_option Suc (strstr t pat))"

declare strstr.simps [simp del]

definition memmove :: "char list \<Rightarrow> nat \<Rightarrow> nat \<Rightarrow> nat \<Rightarrow> char list access" where
  "memmove buf dst src n =
     (if dst + n \<le> length buf \<and> src + n \<le> length buf
      then In_bounds (take dst buf @ take n (drop src buf) @ drop (dst + n) buf) else Out_of_bounds)"

definition memcpy :: "char list \<Rightarrow> nat \<Rightarrow> string \<Rightarrow> char list access" where
  "memcpy buf dst data =
     (if dst + length data \<le> length buf
      then In_bounds (take dst buf @ data @ drop (dst + length data) buf) else Out_of_bounds)"

text \<open>\<^verbatim>\<open>snprintf(buf, n, "%s", s)\<close> into a buffer of at least \<open>n\<close> characters, \<open>n > 0\<close>.\<close>

definition snprintf_s :: "char list \<Rightarrow> nat \<Rightarrow> string \<Rightarrow> char list access" where
  "snprintf_s buf n s =
     (if n = 0 then In_bounds buf else memcpy buf 0 (take (n - 1) s @ [NUL]))"

section \<open>Replacement: c_strreplace\<close>

text \<open>
  The body of the \<^verbatim>\<open>do\<close> loop and its repetition. \<open>offset\<close> is \<^verbatim>\<open>p - src\<close>. The
  result is the return value, the buffer, and whether \<^verbatim>\<open>*str_replaced = true\<close> was
  reached.
\<close>

partial_function (option) strreplace_loop ::
  "nat \<Rightarrow> string \<Rightarrow> string \<Rightarrow> char list \<Rightarrow> nat \<Rightarrow> bool \<Rightarrow> (bool \<times> char list \<times> bool) access option" where
  "strreplace_loop src_len pattern repl src offset replaced =
     (if src_len \<le> strlen src + max (length pattern) (length repl) + 1
      then Some (In_bounds (False, src, replaced))
      else case (if length repl \<noteq> length pattern
                 then memmove src (offset + length repl) (offset + length pattern)
                        (strlen src - offset - length pattern + 1)
                 else In_bounds src) of
        Out_of_bounds \<Rightarrow> Some Out_of_bounds
      | In_bounds src1 \<Rightarrow>
       (case memcpy src1 offset repl of
          Out_of_bounds \<Rightarrow> Some Out_of_bounds
        | In_bounds src2 \<Rightarrow>
         (case strstr (cstr (drop (offset + length repl) src2)) pattern of
            None \<Rightarrow> Some (In_bounds (True, src2, True))
          | Some k \<Rightarrow> strreplace_loop src_len pattern repl src2 (offset + length repl + k) True)))"

record strreplace_result =
  sr_ok :: bool
  sr_src :: "char list option"
  sr_flag :: "bool option"
  sr_einval :: bool

text \<open>
  The parameters that may be NULL are options; \<open>str_replaced\<close> is the variable the caller
  passed the address of, if any. \<open>sr_einval\<close>: \<^verbatim>\<open>errno\<close> was set to
  \<^verbatim>\<open>EINVAL\<close>.
\<close>

definition c_strreplace ::
  "char list option \<Rightarrow> nat \<Rightarrow> string option \<Rightarrow> string option \<Rightarrow> bool option \<Rightarrow>
   strreplace_result access option" where
  "c_strreplace src src_len pattern repl str_replaced =
     (if src = None \<or> src_len = 0 \<or> pattern = None \<or> repl = None
      then Some (In_bounds \<lparr>sr_ok = False, sr_src = src, sr_flag = str_replaced, sr_einval = True\<rparr>)
      else case strstr (cstr (the src)) (the pattern) of
        None \<Rightarrow> Some (In_bounds \<lparr>sr_ok = True, sr_src = src, sr_flag = str_replaced, sr_einval = False\<rparr>)
      | Some p \<Rightarrow>
          bindA (strreplace_loop src_len (the pattern) (the repl) (the src) p False) (\<lambda>(ok, buf, replaced).
            Some (In_bounds \<lparr>sr_ok = ok, sr_src = Some buf,
                    sr_flag = (if replaced then map_option (\<lambda>_. True) str_replaced else str_replaced),
                    sr_einval = False\<rparr>)))"

section \<open>Wildcards: c_strmatch\<close>

text \<open>
  The \<^verbatim>\<open>for (;;)\<close> loop and the inner loop after a star, which calls the function
  again at each position that is not the end of the string.
\<close>

function (sequential) strmatch :: "string \<Rightarrow> string \<Rightarrow> bool"
  and strmatch_star :: "string \<Rightarrow> string \<Rightarrow> bool" where
  "strmatch str [] = (str = [])"
| "strmatch str (p # pattern) =
     (if p = CHR ''*'' then (if pattern = [] then True else strmatch_star str pattern)
      else case str of
        [] \<Rightarrow> False
      | c # str' \<Rightarrow> if p \<noteq> CHR ''?'' \<and> c \<noteq> p then False else strmatch str' pattern)"
| "strmatch_star [] pattern = False"
| "strmatch_star (c # str) pattern =
     (if strmatch (c # str) pattern then True else strmatch_star str pattern)"
  by pat_completeness auto
termination
  by (relation "measures [\<lambda>x. case x of Inl (s, p) \<Rightarrow> length p | Inr (s, p) \<Rightarrow> length p,
                          \<lambda>x. case x of Inl (s, p) \<Rightarrow> 0 | Inr (s, p) \<Rightarrow> Suc (length s)]") auto

definition c_strmatch :: "string option \<Rightarrow> string option \<Rightarrow> bool" where
  "c_strmatch str pattern =
     (case str of None \<Rightarrow> False
      | Some s \<Rightarrow> (case pattern of None \<Rightarrow> False | Some p \<Rightarrow> strmatch s p))"

section \<open>XML attributes\<close>

text \<open>One call of the five; its buffer is not NULL, so there is one afterwards.\<close>

definition replace_step :: "nat \<Rightarrow> string \<Rightarrow> string \<Rightarrow> char list \<Rightarrow> char list access option" where
  "replace_step buf_len pattern repl buf =
     bindA (c_strreplace (Some buf) buf_len (Some pattern) (Some repl) None) (\<lambda>r.
       Some (In_bounds (case sr_src r of None \<Rightarrow> buf | Some b \<Rightarrow> b)))"

text \<open>The return values of the five calls are ignored.\<close>

definition cmprepare_xml_attribute_string :: "char list \<Rightarrow> nat \<Rightarrow> string \<Rightarrow> char list access option" where
  "cmprepare_xml_attribute_string buf buf_len src =
     bindA (Some (snprintf_s buf buf_len src)) (\<lambda>b0.
     bindA (replace_step buf_len ''&'' ''&amp;'' b0) (\<lambda>b1.
     bindA (replace_step buf_len [CHR 0x22] ''&quot;'' b1) (\<lambda>b2.
     bindA (replace_step buf_len [CHR 0x27] ''&apos;'' b2) (\<lambda>b3.
     bindA (replace_step buf_len ''<'' ''&lt;'' b3) (\<lambda>b4.
     replace_step buf_len ''>'' ''&gt;'' b4)))))"

section \<open>What the matcher computes\<close>

text \<open>
  The reference meaning of a pattern: a star stands for any sequence of characters, also
  the empty one, a question mark for exactly one character, any other character for itself.
\<close>

inductive glob :: "string \<Rightarrow> string \<Rightarrow> bool" where
  glob_Nil: "glob [] []"
| glob_star: "glob pat str \<Longrightarrow> glob (CHR ''*'' # pat) (pre @ str)"
| glob_one: "glob pat str \<Longrightarrow> glob (CHR ''?'' # pat) (c # str)"
| glob_lit: "glob pat str \<Longrightarrow> c \<noteq> CHR ''*'' \<Longrightarrow> c \<noteq> CHR ''?'' \<Longrightarrow> glob (c # pat) (c # str)"

inductive_cases glob_NilE: "glob [] str"
inductive_cases glob_ConsE: "glob (p # pat) str"

lemma glob_Nil_iff [simp]: "glob [] str \<longleftrightarrow> str = []"
  by (auto elim: glob_NilE intro: glob_Nil)

lemma glob_star_iff: "glob (CHR ''*'' # pat) str \<longleftrightarrow> (\<exists>pre suf. str = pre @ suf \<and> glob pat suf)"
  by (auto elim!: glob_ConsE intro: glob_star)

lemma glob_Cons_iff:
  "p \<noteq> CHR ''*'' \<Longrightarrow> glob (p # pat) str \<longleftrightarrow>
     (\<exists>c str'. str = c # str' \<and> (p = CHR ''?'' \<or> c = p) \<and> glob pat str')"
  by (auto elim: glob_ConsE intro: glob_one glob_lit)

lemma glob_empty_string: "glob pat [] \<Longrightarrow> set pat \<subseteq> {CHR ''*''}"
proof (induction pat)
  case Nil
  then show ?case by simp
next
  case (Cons p pat)
  then show ?case by (cases "p = CHR ''*''") (auto simp: glob_star_iff glob_Cons_iff)
qed

lemma strmatch_sound_both:
  "strmatch str pat \<Longrightarrow> glob pat str"
  "strmatch_star str pat \<Longrightarrow> glob (CHR ''*'' # pat) str"
proof (induction str pat and str pat rule: strmatch_strmatch_star.induct)
  case (1 str)
  then show ?case by simp
next
  case (2 str p pat)
  show ?case
  proof (cases "p = CHR ''*''")
    case True
    then show ?thesis using 2 by (cases "pat = []") (auto simp: glob_star_iff)
  next
    case False
    then show ?thesis using 2 by (auto simp: glob_Cons_iff split: list.splits if_splits)
  qed
next
  case (3 pat)
  then show ?case by simp
next
  case (4 c str pat)
  show ?case
  proof (cases "strmatch (c # str) pat")
    case True
    with 4 have "glob pat (c # str)" by simp
    then show ?thesis unfolding glob_star_iff by (metis append_Nil)
  next
    case False
    with 4 have "glob (CHR ''*'' # pat) str" by simp
    then show ?thesis unfolding glob_star_iff by (metis append_Cons)
  qed
qed

text \<open>
  After a star the function is tried at every position but the end of the string, so only
  a rest of the pattern that matches the empty string can be missed: a pattern that ends
  in two stars.
\<close>

lemma strmatch_star_iff:
  "strmatch_star str pat \<longleftrightarrow> (\<exists>pre suf. str = pre @ suf \<and> suf \<noteq> [] \<and> strmatch suf pat)"
proof (induction str)
  case Nil
  then show ?case by simp
next
  case (Cons c str)
  have "strmatch_star (c # str) pat \<longleftrightarrow> strmatch (c # str) pat \<or> strmatch_star str pat" by simp
  also have "\<dots> \<longleftrightarrow> (\<exists>pre suf. c # str = pre @ suf \<and> suf \<noteq> [] \<and> strmatch suf pat)"
    unfolding Cons by (auto simp: Cons_eq_append_conv)
  finally show ?case .
qed

lemma stars_suffix:
  assumes "set pat \<subseteq> {CHR ''*''}" "pat \<noteq> []"
  shows "suffix ''**'' (CHR ''*'' # pat)"
proof -
  obtain n where "pat = replicate (Suc n) (CHR ''*'')"
    using assms by (metis Suc_pred length_greater_0_conv replicate_length_same singletonD subsetD)
  then have "CHR ''*'' # pat = replicate n (CHR ''*'') @ ''**''"
    by (simp add: replicate_append_same [symmetric] del: replicate_append_same)
  then show ?thesis by (auto simp: suffix_def)
qed

lemma strmatch_complete:
  "glob pat str \<Longrightarrow> \<not> suffix ''**'' pat \<Longrightarrow> strmatch str pat"
proof (induction pat arbitrary: str)
  case Nil
  then show ?case by simp
next
  case (Cons p pat)
  have nsuf: "\<not> suffix ''**'' pat" using Cons.prems(2) by (auto simp: suffix_Cons)
  show ?case
  proof (cases "p = CHR ''*''")
    case star: True
    show ?thesis
    proof (cases "pat = []")
      case True
      then show ?thesis using star by simp
    next
      case False
      obtain pre suf where str: "str = pre @ suf" "glob pat suf"
        using Cons.prems(1) star by (auto simp: glob_star_iff)
      have "suf \<noteq> []"
        using stars_suffix [of pat] glob_empty_string [of pat] False Cons.prems(2) star str by auto
      moreover have "strmatch suf pat" by (rule Cons.IH [OF str(2) nsuf])
      ultimately show ?thesis using star False str by (auto simp: strmatch_star_iff)
    qed
  next
    case False
    then show ?thesis using Cons.prems(1) Cons.IH nsuf by (auto simp: glob_Cons_iff)
  qed
qed

text \<open>A name followed by two stars does not match itself, although the pattern denotes it.\<close>

definition plain :: "string \<Rightarrow> bool" where
  "plain s \<longleftrightarrow> CHR ''*'' \<notin> set s \<and> CHR ''?'' \<notin> set s"

lemma strmatch_two_stars: "plain s \<Longrightarrow> \<not> strmatch s (s @ ''**'')"
  by (induction s) (auto simp: plain_def)

lemma glob_two_stars: "plain s \<Longrightarrow> glob (s @ ''**'') s"
  by (induction s) (auto simp: plain_def glob_star_iff intro: glob_lit)

section \<open>What the replacement computes\<close>

text \<open>The reference: non-overlapping occurrences, from left to right.\<close>

function replace_all :: "string \<Rightarrow> string \<Rightarrow> string \<Rightarrow> string" where
  "replace_all pat rep s =
     (if pat = [] then s
      else case strstr s pat of
        None \<Rightarrow> s
      | Some k \<Rightarrow> take k s @ rep @ replace_all pat rep (drop (k + length pat) s))"
  by pat_completeness auto

lemma strstr_Nil [simp]: "strstr [] pat = (if pat = [] then Some 0 else None)"
  by (subst strstr.simps) simp

lemma strstr_Cons [simp]:
  "strstr (c # s) pat = (if prefix pat (c # s) then Some 0 else map_option Suc (strstr s pat))"
  by (subst strstr.simps) simp

lemma strstr_split: "strstr s pat = Some k \<Longrightarrow> s = take k s @ pat @ drop (k + length pat) s"
proof (induction s arbitrary: k)
  case Nil
  then show ?case by (simp split: if_splits)
next
  case (Cons c s)
  show ?case
  proof (cases "prefix pat (c # s)")
    case True
    then show ?thesis using Cons.prems by (auto simp: prefix_def)
  next
    case False
    then show ?thesis using Cons by auto
  qed
qed

lemma strstr_bound: "strstr s pat = Some k \<Longrightarrow> k + length pat \<le> length s"
proof (induction s arbitrary: k)
  case (Cons c s)
  then show ?case by (cases "prefix pat (c # s)") (auto dest: prefix_length_le)
qed (simp split: if_splits)

lemma strstr_rest: "strstr s pat = Some k \<Longrightarrow> pat \<noteq> [] \<Longrightarrow> length s - (k + length pat) < length s"
  using strstr_bound [of s pat k] by (cases pat) auto

termination replace_all
  by (relation "measure (\<lambda>(pat, rep, s). length s)") (auto intro: strstr_rest)

function nmatches :: "string \<Rightarrow> string \<Rightarrow> nat" where
  "nmatches pat s =
     (if pat = [] then 0
      else case strstr s pat of
        None \<Rightarrow> 0
      | Some k \<Rightarrow> Suc (nmatches pat (drop (k + length pat) s)))"
  by pat_completeness auto
termination nmatches
  by (relation "measure (\<lambda>(pat, s). length s)") (auto intro: strstr_rest)

declare replace_all.simps [simp del] nmatches.simps [simp del]

text \<open>A buffer that holds the string \<open>s\<close>, and one round of the loop on it.\<close>

definition holds :: "char list \<Rightarrow> string \<Rightarrow> bool" where
  "holds buf s \<longleftrightarrow> NUL \<notin> set s \<and> (\<exists>junk. buf = s @ NUL # junk)"

lemma takeWhile_holds: "NUL \<notin> set s \<Longrightarrow> takeWhile (\<lambda>c. c \<noteq> NUL) (s @ NUL # junk) = s"
  by (induction s) auto

lemma holds_cstr: "holds buf s \<Longrightarrow> cstr buf = s"
  by (auto simp: holds_def cstr_def takeWhile_holds)

lemma holds_strlen: "holds buf s \<Longrightarrow> strlen buf = length s"
  by (simp add: strlen_def holds_cstr)

lemma holdsI_NUL: "NUL \<in> set buf \<Longrightarrow> holds buf (cstr buf)"
  by (induction buf) (auto simp: holds_def cstr_def intro: exI [of _ "[]"])

lemma strreplace_round:
  assumes h: "holds buf (pre @ pat @ post)" and rep: "NUL \<notin> set rep"
    and room: "length (pre @ pat @ post) + max (length pat) (length rep) + 1 < length buf"
  obtains b1 b2 where
    "(if length rep \<noteq> length pat
      then memmove buf (length pre + length rep) (length pre + length pat)
             (strlen buf - length pre - length pat + 1)
      else In_bounds buf) = In_bounds b1"
    and "memcpy b1 (length pre) rep = In_bounds b2"
    and "holds b2 (pre @ rep @ post)" and "length b2 = length buf"
    and "cstr (drop (length pre + length rep) b2) = post"
proof -
  obtain junk where buf: "buf = pre @ pat @ post @ NUL # junk" and nul: "NUL \<notin> set (pre @ pat @ post)"
    using h by (auto simp: holds_def)
  define j where "j = drop (length pre + length rep + length post + 1) buf"
  let ?b1 = "take (length pre + length rep) buf @ post @ NUL # j"
  let ?b2 = "pre @ rep @ post @ NUL # j"
  have len: "strlen buf - length pre - length pat + 1 = length post + 1"
    using holds_strlen [OF h] by simp
  have jlen: "length pre + length rep + length post + 1 + length j = length buf"
    using room unfolding j_def by simp
  have t: "take (length pre) (take (length pre + length rep) buf) = pre"
    by (simp add: buf)
  have l: "length (take (length pre + length rep) buf) = length pre + length rep"
    using jlen by simp
  have b1: "(if length rep \<noteq> length pat
      then memmove buf (length pre + length rep) (length pre + length pat) (length post + 1)
      else In_bounds buf) = In_bounds ?b1"
  proof (cases "length rep = length pat")
    case True
    have "buf = take (length pre + length rep) buf @ drop (length pre + length pat) buf"
      using True by simp
    also have "drop (length pre + length pat) buf = post @ NUL # junk" by (simp add: buf)
    finally show ?thesis using True by (simp add: j_def buf)
  next
    case False
    have "drop (length pre + length pat) buf = post @ NUL # junk" by (simp add: buf)
    then have "take (length post + 1) (drop (length pre + length pat) buf) = post @ [NUL]" by simp
    moreover have "length pre + length pat + (length post + 1) \<le> length buf" by (simp add: buf)
    ultimately show ?thesis
      using False jlen by (simp add: memmove_def j_def del: take_drop)
  qed
  have b2: "memcpy ?b1 (length pre) rep = In_bounds ?b2"
    using jlen l t by (simp add: memcpy_def)
  show ?thesis
  proof (rule that [OF _ b2])
    show "holds ?b2 (pre @ rep @ post)" using nul rep by (auto simp: holds_def)
    show "length ?b2 = length buf" using jlen by simp
    show "cstr (drop (length pre + length rep) ?b2) = post"
      using nul by (simp add: cstr_def takeWhile_holds)
  qed (use b1 in \<open>simp only: len\<close>)
qed

text \<open>
  The loop on any non-empty pattern: it returns, it never leaves the buffer, the buffer
  still holds a string, and a true result means that every occurrence was replaced. With
  enough room the result is true.
\<close>

definition strreplace_post ::
  "nat \<Rightarrow> string \<Rightarrow> string \<Rightarrow> string \<Rightarrow> string \<Rightarrow> char list \<Rightarrow> (bool \<times> char list \<times> bool) access option \<Rightarrow> bool" where
  "strreplace_post src_len pat rep pre post buf res \<longleftrightarrow>
     (case res of None \<Rightarrow> False | Some Out_of_bounds \<Rightarrow> False
      | Some (In_bounds (ok, buf', r)) \<Rightarrow>
          length buf' = length buf \<and> holds buf' (cstr buf')
          \<and> (ok \<longrightarrow> r \<and> cstr buf' = pre @ rep @ replace_all pat rep post)
          \<and> (length (pre @ pat @ post) + nmatches pat post * (length rep - length pat)
                + max (length pat) (length rep) + 1 < src_len \<longrightarrow> ok))"

lemma strreplace_loop_correct:
  assumes "pat \<noteq> []" "NUL \<notin> set rep" "holds buf (pre @ pat @ post)" "src_len \<le> length buf"
  shows "strreplace_post src_len pat rep pre post buf
           (strreplace_loop src_len pat rep buf (length pre) b)"
  using assms
proof (induction "length post" arbitrary: pre post buf b rule: less_induct)
  case less
  let ?P = "pre @ pat @ post"
  have len: "strlen buf = length ?P" by (rule holds_strlen [OF less.prems(3)])
  show ?case
  proof (cases "src_len \<le> length ?P + max (length pat) (length rep) + 1")
    case True
    then have "strreplace_loop src_len pat rep buf (length pre) b = Some (In_bounds (False, buf, b))"
      using len by (subst strreplace_loop.simps) simp
    then show ?thesis
      using True less.prems(3) holds_cstr [OF less.prems(3)] by (auto simp: strreplace_post_def)
  next
    case False
    then have room: "length ?P + max (length pat) (length rep) + 1 < length buf"
      using less.prems(4) by linarith
    obtain b1 b2 where b1: "(if length rep \<noteq> length pat
        then memmove buf (length pre + length rep) (length pre + length pat)
               (strlen buf - length pre - length pat + 1)
        else In_bounds buf) = In_bounds b1" and b2: "memcpy b1 (length pre) rep = In_bounds b2"
      and hb2: "holds b2 (pre @ rep @ post)" "length b2 = length buf"
      and rest: "cstr (drop (length pre + length rep) b2) = post"
      by (rule strreplace_round [OF less.prems(3,2) room])
    have step: "strreplace_loop src_len pat rep buf (length pre) b =
        (case strstr post pat of
          None \<Rightarrow> Some (In_bounds (True, b2, True))
        | Some k \<Rightarrow> strreplace_loop src_len pat rep b2 (length pre + length rep + k) True)"
      using False len b1 b2 rest by (subst strreplace_loop.simps) (simp add: len)
    show ?thesis
    proof (cases "strstr post pat")
      case None
      then have "replace_all pat rep post = post" using less.prems(1) by (simp add: replace_all.simps)
      then show ?thesis
        using step None hb2 holds_cstr [OF hb2(1)] by (simp add: strreplace_post_def)
    next
      case (Some k)
      let ?pre = "pre @ rep @ take k post" and ?post = "drop (k + length pat) post"
      have post: "post = take k post @ pat @ ?post" by (rule strstr_split [OF Some])
      have k: "k + length pat \<le> length post" by (rule strstr_bound [OF Some])
      have "holds b2 (?pre @ pat @ ?post)" using hb2(1) post by simp
      moreover have "length ?post < length post" using k less.prems(1) by (cases pat) auto
      moreover have off: "length pre + length rep + k = length ?pre" using k by simp
      ultimately have IH: "strreplace_post src_len pat rep ?pre ?post b2
          (strreplace_loop src_len pat rep b2 (length ?pre) True)"
        using less.hyps [of ?post b2 ?pre True] less.prems(1,2,4) hb2(2) by metis
      have all: "replace_all pat rep post = take k post @ rep @ replace_all pat rep ?post"
        and n: "nmatches pat post = Suc (nmatches pat ?post)"
        using Some less.prems(1) by (simp_all add: replace_all.simps nmatches.simps)
      have lens: "length (?pre @ pat @ ?post) \<le> length ?P + (length rep - length pat)"
        using k by simp
      have run: "strreplace_loop src_len pat rep buf (length pre) b =
          strreplace_loop src_len pat rep b2 (length ?pre) True"
        using step Some off by simp
      show ?thesis
        using IH hb2(2) lens unfolding run strreplace_post_def all n
        by (auto split: option.splits access.splits simp del: length_append)
    qed
  qed
qed

lemma holds_NUL: "holds buf s \<Longrightarrow> NUL \<in> set buf"
  by (auto simp: holds_def)

definition replace_room :: "nat \<Rightarrow> string \<Rightarrow> string \<Rightarrow> string \<Rightarrow> bool" where
  "replace_room src_len pat rep s \<longleftrightarrow>
     length s + nmatches pat s * (length rep - length pat) + max (length pat) (length rep) + 1 < src_len"

lemma c_strreplace_buffer:
  assumes pat: "pat \<noteq> []" and rep: "NUL \<notin> set rep"
    and buf: "NUL \<in> set buf" "0 < src_len" "src_len \<le> length buf"
  obtains r b where "c_strreplace (Some buf) src_len (Some pat) (Some rep) fl = Some (In_bounds r)"
    and "sr_src r = Some b" and "length b = length buf" and "NUL \<in> set b"
    and "sr_ok r \<Longrightarrow> cstr b = replace_all pat rep (cstr buf)"
    and "replace_room src_len pat rep (cstr buf) \<Longrightarrow> sr_ok r"
proof (cases "strstr (cstr buf) pat")
  case None
  then have "replace_all pat rep (cstr buf) = cstr buf" using pat by (simp add: replace_all.simps)
  then show ?thesis
    using that [OF _ _ refl buf(1)] None buf by (simp add: c_strreplace_def)
next
  case (Some k)
  let ?s = "cstr buf"
  let ?pre = "take k ?s" and ?post = "drop (k + length pat) ?s"
  have s: "?s = ?pre @ pat @ ?post" by (rule strstr_split [OF Some])
  have k: "length ?pre = k" using strstr_bound [OF Some] by simp
  have "holds buf (?pre @ pat @ ?post)" using holdsI_NUL [OF buf(1)] s by simp
  from strreplace_loop_correct [OF pat rep this buf(3), of False]
  obtain ok b r where run: "strreplace_loop src_len pat rep buf k False = Some (In_bounds (ok, b, r))"
    and b: "length b = length buf" "holds b (cstr b)"
    and ok: "ok \<longrightarrow> cstr b = ?pre @ rep @ replace_all pat rep ?post"
    and room: "length (?pre @ pat @ ?post) + nmatches pat ?post * (length rep - length pat)
        + max (length pat) (length rep) + 1 < src_len \<longrightarrow> ok"
    unfolding k strreplace_post_def by (auto split: option.splits access.splits)
  have all: "replace_all pat rep ?s = ?pre @ rep @ replace_all pat rep ?post"
    and n: "nmatches pat ?s = Suc (nmatches pat ?post)"
    using Some pat by (simp_all add: replace_all.simps nmatches.simps)
  have roomok: "replace_room src_len pat rep ?s \<Longrightarrow> ok"
    using room s n by (simp add: replace_room_def)
  show ?thesis
    by (rule that [of _ b]) (use run Some buf b ok all roomok holds_NUL in \<open>auto simp: c_strreplace_def\<close>)
qed

text \<open>With an empty pattern and an empty replacement the loop never advances.\<close>

lemma strreplace_loop_diverges:
  assumes "holds buf s" "length s + 1 < src_len" "src_len \<le> length buf"
  shows "strreplace_loop src_len [] [] buf 0 b = None"
proof (rule ccontr)
  assume "strreplace_loop src_len [] [] buf 0 b \<noteq> None"
  then obtain y where y: "strreplace_loop src_len [] [] buf 0 b = Some y" by auto
  let ?P = "\<lambda>L (pat :: string) (rep :: string) bf (off :: nat) (c :: bool) (z :: (bool \<times> char list \<times> bool) access).
    \<not> (L = src_len \<and> pat = [] \<and> rep = [] \<and> bf = buf \<and> off = 0)"
  have "?P src_len [] [] buf 0 b y"
  proof (rule strreplace_loop.raw_induct [where P = ?P, OF _ y])
    fix f L pat rep bf off c z
    assume IH: "\<And>L pat rep bf off c z. f L pat rep bf off c = Some z \<Longrightarrow> ?P L pat rep bf off c z"
      and eq: "(if L \<le> strlen bf + max (length pat) (length rep) + 1 then Some (In_bounds (False, bf, c))
        else case (if length rep \<noteq> length pat
                   then memmove bf (off + length rep) (off + length pat)
                          (strlen bf - off - length pat + 1)
                   else In_bounds bf) of
          Out_of_bounds \<Rightarrow> Some Out_of_bounds
        | In_bounds src1 \<Rightarrow>
         (case memcpy src1 off rep of
            Out_of_bounds \<Rightarrow> Some Out_of_bounds
          | In_bounds src2 \<Rightarrow>
           (case strstr (cstr (drop (off + length rep) src2)) pat of
              None \<Rightarrow> Some (In_bounds (True, src2, True))
            | Some k \<Rightarrow> f L pat rep src2 (off + length rep + k) True))) = Some z"
    show "?P L pat rep bf off c z"
    proof
      assume *: "L = src_len \<and> pat = [] \<and> rep = [] \<and> bf = buf \<and> off = 0"
      have "strstr t [] = Some 0" for t by (cases t) auto
      then have "f src_len [] [] buf 0 True = Some z"
        using eq * assms(2) holds_strlen [OF assms(1)] by (simp add: memcpy_def)
      from IH [OF this] show False by simp
    qed
  qed
  then show False by simp
qed

section \<open>Escaping one character at a time\<close>

definition subst1 :: "char \<Rightarrow> string \<Rightarrow> string \<Rightarrow> string" where
  "subst1 x rep s = concat (map (\<lambda>c. if c = x then rep else [c]) s)"

lemma subst1_simps [simp]:
  "subst1 x rep [] = []"
  "subst1 x rep (c # s) = (if c = x then rep else [c]) @ subst1 x rep s"
  "subst1 x rep (s @ t) = subst1 x rep s @ subst1 x rep t"
  by (simp_all add: subst1_def)

lemma replace_all_Nil: "replace_all pat rep [] = []"
  by (simp add: replace_all.simps)

lemma replace_all_char:
  "replace_all [x] rep (c # s) = (if c = x then rep @ replace_all [x] rep s else c # replace_all [x] rep s)"
  by (cases "strstr s [x]") (simp_all add: replace_all.simps [of "[x]" rep "c # s"]
      replace_all.simps [of "[x]" rep s])

lemma replace_all_subst1: "replace_all [x] rep s = subst1 x rep s"
  by (induction s) (simp_all add: replace_all_Nil replace_all_char)

lemma nmatches_char: "nmatches [x] (c # s) = (if c = x then Suc (nmatches [x] s) else nmatches [x] s)"
  by (cases "strstr s [x]") (simp_all add: nmatches.simps [of "[x]" "c # s"] nmatches.simps [of "[x]" s])

lemma nmatches_length:
  assumes "rep \<noteq> []"
  shows "length s + nmatches [x] s * (length rep - 1) = length (subst1 x rep s)"
proof (induction s)
  case Nil
  then show ?case by (simp add: nmatches.simps)
next
  case (Cons c s)
  then show ?case using assms by (cases rep) (auto simp: nmatches_char)
qed

lemma replace_step_ok:
  assumes "rep \<noteq> []" "NUL \<notin> set rep" "NUL \<in> set buf" "0 < n" "n \<le> length buf"
    and room: "length (subst1 x rep (cstr buf)) + length rep + 1 < n"
  obtains b where "replace_step n [x] rep buf = Some (In_bounds b)" "cstr b = subst1 x rep (cstr buf)"
    and "length b = length buf" "NUL \<in> set b"
proof -
  have "max 1 (length rep) = length rep" using assms(1) by (cases rep) auto
  then have "replace_room n [x] rep (cstr buf)"
    using room nmatches_length [OF assms(1), of "cstr buf" x] by (simp add: replace_room_def)
  moreover obtain r b where "c_strreplace (Some buf) n (Some [x]) (Some rep) None = Some (In_bounds r)"
    "sr_src r = Some b" "length b = length buf" "NUL \<in> set b"
    "sr_ok r \<Longrightarrow> cstr b = replace_all [x] rep (cstr buf)"
    "replace_room n [x] rep (cstr buf) \<Longrightarrow> sr_ok r"
    by (rule c_strreplace_buffer [of "[x]" rep buf n None]) (use assms in auto)
  ultimately show ?thesis
    using that by (simp add: replace_step_def replace_all_subst1)
qed

section \<open>The escaped attribute\<close>

definition xml_char :: "char \<Rightarrow> string" where
  "xml_char c =
     (if c = CHR ''&'' then ''&amp;'' else if c = CHR 0x22 then ''&quot;''
      else if c = CHR 0x27 then ''&apos;'' else if c = CHR ''<'' then ''&lt;''
      else if c = CHR ''>'' then ''&gt;'' else [c])"

definition xml_escape :: "string \<Rightarrow> string" where
  "xml_escape s = concat (map xml_char s)"

lemma xml_escape_simps [simp]:
  "xml_escape [] = []" "xml_escape (c # s) = xml_char c @ xml_escape s"
  by (simp_all add: xml_escape_def)

text \<open>The stages of the escaping as the code orders them; the ampersand has to go first.\<close>

definition xml_stage1 :: "string \<Rightarrow> string" where
  "xml_stage1 s = subst1 (CHR ''&'') ''&amp;'' s"
definition xml_stage2 :: "string \<Rightarrow> string" where
  "xml_stage2 s = subst1 (CHR 0x22) ''&quot;'' (xml_stage1 s)"
definition xml_stage3 :: "string \<Rightarrow> string" where
  "xml_stage3 s = subst1 (CHR 0x27) ''&apos;'' (xml_stage2 s)"
definition xml_stage4 :: "string \<Rightarrow> string" where
  "xml_stage4 s = subst1 (CHR ''<'') ''&lt;'' (xml_stage3 s)"
definition xml_stage5 :: "string \<Rightarrow> string" where
  "xml_stage5 s = subst1 (CHR ''>'') ''&gt;'' (xml_stage4 s)"

lemmas xml_stages = xml_stage1_def xml_stage2_def xml_stage3_def xml_stage4_def xml_stage5_def

lemma xml_stage5_escape: "xml_stage5 s = xml_escape s"
  by (induction s) (simp_all add: xml_stages xml_char_def)

lemma length_subst1: "rep \<noteq> [] \<Longrightarrow> length s \<le> length (subst1 x rep s)"
  using nmatches_length [of rep s x] by simp

lemma xml_stage_lengths:
  "length (xml_stage1 s) \<le> length (xml_escape s)" "length (xml_stage2 s) \<le> length (xml_escape s)"
  "length (xml_stage3 s) \<le> length (xml_escape s)" "length (xml_stage4 s) \<le> length (xml_escape s)"
  "length (xml_stage5 s) \<le> length (xml_escape s)"
proof -
  have "length (xml_stage1 s) \<le> length (xml_stage2 s)" "length (xml_stage2 s) \<le> length (xml_stage3 s)"
    "length (xml_stage3 s) \<le> length (xml_stage4 s)" "length (xml_stage4 s) \<le> length (xml_stage5 s)"
    by (simp_all add: xml_stage2_def xml_stage3_def xml_stage4_def xml_stage5_def length_subst1)
  then show "length (xml_stage1 s) \<le> length (xml_escape s)" "length (xml_stage2 s) \<le> length (xml_escape s)"
    "length (xml_stage3 s) \<le> length (xml_escape s)" "length (xml_stage4 s) \<le> length (xml_escape s)"
    "length (xml_stage5 s) \<le> length (xml_escape s)"
    by (simp_all add: xml_stage5_escape)
qed

lemma length_xml_escape: "length s \<le> length (xml_escape s)"
  by (induction s) (auto simp: xml_char_def)

lemma snprintf_s_holds:
  assumes "NUL \<notin> set s" "0 < n" "n \<le> length buf"
  obtains b where "snprintf_s buf n s = In_bounds b" "cstr b = take (n - 1) s"
    and "length b = length buf" "NUL \<in> set b"
proof -
  let ?b = "(take (n - 1) s @ [NUL]) @ drop (length (take (n - 1) s @ [NUL])) buf"
  have "holds ?b (take (n - 1) s)" using assms(1) by (auto simp: holds_def dest: in_set_takeD)
  from holds_cstr [OF this] have c: "cstr ?b = take (n - 1) s" .
  have l: "min (length s) (n - 1) + 1 \<le> length buf" using assms by linarith
  then have "snprintf_s buf n s = In_bounds ?b" using assms(2) by (simp add: snprintf_s_def memcpy_def)
  then show ?thesis using that c l by simp
qed

text \<open>A stage that does not fit leaves the buffer alone, and the caller does not notice.\<close>

lemma replace_step_full:
  assumes "0 < n" "n \<le> strlen buf + max 1 (length rep) + 1"
  shows "replace_step n [x] rep buf = Some (In_bounds buf)"
proof (cases "strstr (cstr buf) [x]")
  case None
  then show ?thesis using assms by (simp add: replace_step_def c_strreplace_def)
next
  case (Some k)
  have "strreplace_loop n [x] rep buf k False = Some (In_bounds (False, buf, False))"
    using assms by (subst strreplace_loop.simps) simp
  then show ?thesis using Some assms by (simp add: replace_step_def c_strreplace_def)
qed

section \<open>Reading an attribute back\<close>

text \<open>An XML reader's view of the five predefined entities.\<close>

fun xml_unescape :: "string \<Rightarrow> string" where
  "xml_unescape [] = []"
| "xml_unescape (c # s) =
     (if c \<noteq> CHR ''&'' then c # xml_unescape s
      else if prefix ''amp;'' s then CHR ''&'' # xml_unescape (drop 4 s)
      else if prefix ''quot;'' s then CHR 0x22 # xml_unescape (drop 5 s)
      else if prefix ''apos;'' s then CHR 0x27 # xml_unescape (drop 5 s)
      else if prefix ''lt;'' s then CHR ''<'' # xml_unescape (drop 3 s)
      else if prefix ''gt;'' s then CHR ''>'' # xml_unescape (drop 3 s)
      else c # xml_unescape s)"

lemma xml_unescape_escape: "xml_unescape (xml_escape s) = s"
  by (induction s) (simp_all add: xml_char_def)

lemma xml_escape_no_markup:
  "set (xml_escape s) \<inter> {CHR ''<'', CHR ''>'', CHR 0x22, CHR 0x27} = {}"
  by (induction s) (auto simp: xml_char_def)

section \<open>Properties\<close>

text \<open>
  C13. The pattern matcher of the test and skip filters never accepts a name that the
  pattern does not denote, and for every pattern that does not end in two stars it accepts
  exactly the names the pattern denotes. A NULL name or pattern never matches.
\<close>

theorem c_strmatch_glob:
  "(c_strmatch (Some str) (Some pat) \<longrightarrow> glob pat str)
   \<and> (\<not> suffix ''**'' pat \<longrightarrow> c_strmatch (Some str) (Some pat) = glob pat str)
   \<and> \<not> c_strmatch None p \<and> \<not> c_strmatch s None"
  using strmatch_sound_both(1) [of str pat] strmatch_complete [of pat str]
  by (auto simp: c_strmatch_def split: option.splits)

theorem c_strmatch_glob_witness:
  "c_strmatch (Some ''wurstbrot'') (Some ''w*t'') \<and> glob ''w*t'' ''wurstbrot''
   \<and> \<not> c_strmatch (Some ''wurst'') (Some ''wur?'') \<and> \<not> glob ''wur?'' ''wurst''"
proof -
  have a: "\<not> suffix ''**'' ''w*t''" "\<not> suffix ''**'' ''wur?''" by (simp_all add: suffix_Cons)
  have b: "c_strmatch (Some ''wurstbrot'') (Some ''w*t'')" "\<not> c_strmatch (Some ''wurst'') (Some ''wur?'')"
    by (simp_all add: c_strmatch_def)
  show ?thesis
    using c_strmatch_glob [of "''wurstbrot''" "''w*t''" None None]
      c_strmatch_glob [of "''wurst''" "''wur?''" None None] a b by simp
qed

text \<open>
  A literal test name followed by two stars denotes that name, but the matcher rejects
  it: after the first star it never tries the end of the string.
\<close>

lemma c_strmatch_double_star:
  assumes "plain s"
  shows "glob (s @ ''**'') s \<and> \<not> c_strmatch (Some s) (Some (s @ ''**''))"
  using strmatch_two_stars [OF assms] glob_two_stars [OF assms] by (simp add: c_strmatch_def)

lemma c_strmatch_double_star_example:
  "glob ''test_a**'' ''test_a'' \<and> \<not> c_strmatch (Some ''test_a'') (Some ''test_a**'')"
proof -
  have "plain ''test_a''" by (simp add: plain_def)
  from c_strmatch_double_star [OF this] show ?thesis by simp
qed

text \<open>
  C12. In-place replacement on a buffer that holds a string, for every non-empty pattern:
  the call returns, it never touches memory outside the buffer, the buffer keeps its length
  and still holds a string, success means that exactly the left-to-right non-overlapping
  occurrences were replaced, and with room for the longest intermediate string the call
  succeeds.
\<close>

theorem c_strreplace_correct:
  assumes "pat \<noteq> []" and "NUL \<notin> set rep" and "NUL \<in> set buf"
    and "0 < src_len" and "src_len \<le> length buf"
  shows "\<exists>r b. c_strreplace (Some buf) src_len (Some pat) (Some rep) fl = Some (In_bounds r)
     \<and> sr_src r = Some b \<and> length b = length buf \<and> NUL \<in> set b
     \<and> (sr_ok r \<longrightarrow> cstr b = replace_all pat rep (cstr buf))
     \<and> (replace_room src_len pat rep (cstr buf) \<longrightarrow> sr_ok r)"
  by (rule c_strreplace_buffer [OF assms, of fl]) blast

theorem c_strreplace_correct_witness:
  "\<exists>r b. c_strreplace (Some (''a.b'' @ replicate 9 NUL)) 12 (Some ''.'') (Some ''--'') (Some False) = Some (In_bounds r)
     \<and> sr_src r = Some b \<and> length b = 12 \<and> cstr b = ''a--b''"
proof -
  let ?buf = "''a.b'' @ replicate 9 NUL"
  have c: "cstr (CHR ''a'' # CHR ''.'' # CHR ''b'' # replicate 9 NUL) = ''a.b''"
    by (simp add: cstr_def)
  have n: "replace_all ''.'' ''--'' ''a.b'' = ''a--b''" "nmatches ''.'' ''a.b'' = 1"
    by (simp_all add: replace_all_subst1 nmatches_char nmatches.simps [of "''.''" "[]"])
  then have "replace_room 12 ''.'' ''--'' ''a.b''" by (simp add: replace_room_def)
  then show ?thesis
    using c_strreplace_correct [of "''.''" "''--''" ?buf 12 "Some False"] c n by auto
qed

text \<open>
  C40. With an empty pattern and an empty replacement the call does not return: no guard
  rejects the empty pattern and the loop makes no progress. (The result \<open>None\<close> is the loop
  that does not end; an access outside the buffer would be \<open>Some Out_of_bounds\<close>.)
\<close>

theorem c_strreplace_empty_diverges:
  assumes "NUL \<in> set buf" and "strlen buf + 1 < src_len" and "src_len \<le> length buf"
  shows "c_strreplace (Some buf) src_len (Some []) (Some []) fl = None"
proof -
  have "strstr (cstr buf) [] = Some 0" by (cases "cstr buf") auto
  moreover have "strreplace_loop src_len [] [] buf 0 False = None"
    using strreplace_loop_diverges [OF holdsI_NUL [OF assms(1)]] assms(2,3)
    by (simp add: strlen_def)
  ultimately show ?thesis using assms(2) by (simp add: c_strreplace_def)
qed

theorem c_strreplace_empty_diverges_witness:
  "c_strreplace (Some (''ab'' @ replicate 6 NUL)) 8 (Some []) (Some []) None = None"
  by (rule c_strreplace_empty_diverges) (simp_all add: strlen_def cstr_def)

text \<open>
  C14. A name survives the escaping when the buffer has room for its escaped form and seven
  characters more: the calls return without leaving the buffer, the attribute value holds none of
  the characters that would end the attribute or open a tag, and an XML reader gets the
  name back. The condition cannot be dropped: \<open>xml_long_name_unescaped\<close> below shows that a longer name keeps
  its markup.
\<close>

theorem xml_attribute_roundtrip:
  assumes "NUL \<notin> set src" and "length (xml_escape src) + 7 < buf_len" and "buf_len \<le> length buf"
  shows "\<exists>b. cmprepare_xml_attribute_string buf buf_len src = Some (In_bounds b)
     \<and> cstr b = xml_escape src \<and> xml_unescape (cstr b) = src
     \<and> set (cstr b) \<inter> {CHR ''<'', CHR ''>'', CHR 0x22, CHR 0x27} = {}"
proof -
  have n: "0 < buf_len" "length src \<le> buf_len - 1" using assms(2) length_xml_escape [of src] by auto
  obtain b0 where b0: "snprintf_s buf buf_len src = In_bounds b0" "cstr b0 = src"
    "length b0 = length buf" "NUL \<in> set b0"
    by (rule snprintf_s_holds [OF assms(1) n(1) assms(3)]) (use n in simp)
  note room = assms(2) xml_stage_lengths [of src]
  obtain b1 where b1: "replace_step buf_len ''&'' ''&amp;'' b0 = Some (In_bounds b1)"
    "cstr b1 = xml_stage1 src" "length b1 = length buf" "NUL \<in> set b1"
    by (rule replace_step_ok [of "''&amp;''" b0 buf_len "CHR ''&''"])
      (use b0 n assms(3) room in \<open>auto simp: xml_stage1_def\<close>)
  obtain b2 where b2: "replace_step buf_len [CHR 0x22] ''&quot;'' b1 = Some (In_bounds b2)"
    "cstr b2 = xml_stage2 src" "length b2 = length buf" "NUL \<in> set b2"
    by (rule replace_step_ok [of "''&quot;''" b1 buf_len "CHR 0x22"])
      (use b1 n assms(3) room in \<open>auto simp: xml_stage2_def\<close>)
  obtain b3 where b3: "replace_step buf_len [CHR 0x27] ''&apos;'' b2 = Some (In_bounds b3)"
    "cstr b3 = xml_stage3 src" "length b3 = length buf" "NUL \<in> set b3"
    by (rule replace_step_ok [of "''&apos;''" b2 buf_len "CHR 0x27"])
      (use b2 n assms(3) room in \<open>auto simp: xml_stage3_def\<close>)
  obtain b4 where b4: "replace_step buf_len ''<'' ''&lt;'' b3 = Some (In_bounds b4)"
    "cstr b4 = xml_stage4 src" "length b4 = length buf" "NUL \<in> set b4"
    by (rule replace_step_ok [of "''&lt;''" b3 buf_len "CHR ''<''"])
      (use b3 n assms(3) room in \<open>auto simp: xml_stage4_def\<close>)
  obtain b5 where b5: "replace_step buf_len ''>'' ''&gt;'' b4 = Some (In_bounds b5)"
    "cstr b5 = xml_stage5 src"
    by (rule replace_step_ok [of "''&gt;''" b4 buf_len "CHR ''>''"])
      (use b4 n assms(3) room in \<open>auto simp: xml_stage5_def\<close>)
  then show ?thesis
    using b0 b1 b2 b3 b4 xml_unescape_escape [of src] xml_escape_no_markup [of src]
    by (simp add: cmprepare_xml_attribute_string_def xml_stage5_escape)
qed

theorem xml_attribute_roundtrip_witness:
  "\<exists>b. cmprepare_xml_attribute_string (replicate 32 NUL) 32 ''a<b&c'' = Some (In_bounds b)
     \<and> cstr b = ''a&lt;b&amp;c'' \<and> xml_unescape (cstr b) = ''a<b&c''"
  using xml_attribute_roundtrip [of "''a<b&c''" 32 "replicate 32 NUL"]
  by (simp add: xml_char_def) blast

text \<open>
  A name within five characters of the buffer's size is copied, truncated to the
  buffer, and not escaped at all, because every replacement is refused and the refusals are
  ignored: markup in such a name reaches the report.
\<close>

lemma xml_long_name_unescaped:
  assumes "NUL \<notin> set src" and "0 < buf_len" and "buf_len \<le> length src + 5" and "buf_len \<le> length buf"
  shows "\<exists>b. cmprepare_xml_attribute_string buf buf_len src = Some (In_bounds b) \<and> cstr b = take (buf_len - 1) src"
proof -
  obtain b where b: "snprintf_s buf buf_len src = In_bounds b" "cstr b = take (buf_len - 1) src"
    by (rule snprintf_s_holds [OF assms(1,2,4)])
  have "buf_len \<le> strlen b + 5" using b(2) assms(3) by (simp add: strlen_def)
  then have "replace_step buf_len [x] rep b = Some (In_bounds b)" if "4 \<le> length rep" for x rep
    using that assms(2) by (intro replace_step_full) auto
  then show ?thesis using b by (simp add: cmprepare_xml_attribute_string_def)
qed

lemma xml_long_name_unescaped_example:
  "\<exists>b. cmprepare_xml_attribute_string (replicate 8 NUL) 8 ''a<b'' = Some (In_bounds b) \<and> cstr b = ''a<b''"
  using xml_long_name_unescaped [of "''a<b''" 8 "replicate 8 NUL"] by simp

end
