(* ===== verification/Symbol_Map.thy ===== *)
theory Symbol_Map
  imports Cm_Prelude "HOL-Library.Multiset"
begin

text \<open>
  The symbol maps of \<^verbatim>\<open>src/cmocka.c\<close>: the values queued for a function
  (\<^verbatim>\<open>global_function_result_map_head\<close>, one name deep) or for a parameter of a function
  (\<^verbatim>\<open>global_function_parameter_map_head\<close>, two names deep).

  A map is a list of nodes in the order of the linked list that \<open>List_Node\<close> justifies. A
  node of an inner level carries a \<^verbatim>\<open>SymbolMapValue\<close>, a name and a list of nodes; a node
  of the last level carries a reference count and a pointer to a heap object, here its
  number. Objects are allocated and released in \<open>Cm_State\<close>; the operations below return
  the objects they release. The abstract view of a map is the queue stored under each path
  of names (\<open>queue_at\<close>).
\<close>

section \<open>Data\<close>

datatype sym_node =
    Map_node (symbol_name: string) "sym_node list"
  | Value_node int nat

definition WILL_RETURN_ALWAYS :: int where "WILL_RETURN_ALWAYS = - 1"
definition WILL_RETURN_ONCE :: int where "WILL_RETURN_ONCE = - 2"

text \<open>\<^verbatim>\<open>strcmp\<close> of the node's symbol name; a value node carries no name.\<close>

fun symbol_names_match :: "string \<Rightarrow> sym_node \<Rightarrow> bool" where
  "symbol_names_match name (Map_node n _) = (n = name)"
| "symbol_names_match name (Value_node _ _) = False"

text \<open>In-place change of the first node found: \<open>f\<close> gives what replaces it.\<close>

fun on_first :: "('a \<Rightarrow> bool) \<Rightarrow> ('a \<Rightarrow> 'a list) \<Rightarrow> 'a list \<Rightarrow> 'a list" where
  "on_first P f [] = []"
| "on_first P f (x # xs) = (if P x then f x @ xs else x # on_first P f xs)"

section \<open>Operations\<close>

text \<open>
  \<^verbatim>\<open>add_symbol_value\<close>; the names are not empty (\<^verbatim>\<open>assert_true\<close> of their number,
  which every caller passes as 1 or 2).
\<close>

fun add_symbol_value :: "sym_node list \<Rightarrow> string list \<Rightarrow> nat \<Rightarrow> int \<Rightarrow> sym_node list" where
  "add_symbol_value ns [] v refcount = ns"
| "add_symbol_value ns (name # names) v refcount =
     (let ns1 = (if find (symbol_names_match name) ns = None then ns @ [Map_node name []] else ns)
      in on_first (symbol_names_match name)
           (\<lambda>target. case target of
               Map_node n child_list \<Rightarrow>
                 [Map_node n
                   (if names = [] then child_list @ [Value_node refcount v]
                    else add_symbol_value child_list names v refcount)]
             | Value_node r x \<Rightarrow> [target]) ns1)"

text \<open>
  The result of \<^verbatim>\<open>get_symbol_value\<close>: the integer it returns, the output parameter, the
  new map and the name in the message \<^verbatim>\<open>No entries for symbol\<close>, if it was printed.
\<close>

record gsv_result =
  gsv_ret :: int
  gsv_out :: "nat option"
  gsv_map :: "sym_node list"
  gsv_missing :: "string option"

datatype gsv_error =
    Gsv_assert      \<comment> \<open>\<^verbatim>\<open>assert_true(return_value)\<close> on an empty list\<close>
  | Gsv_undefined   \<comment> \<open>a node read as the other kind of node\<close>

text \<open>The reference count rule of the last level.\<close>

definition take_value :: "int \<Rightarrow> nat \<Rightarrow> sym_node list \<Rightarrow> sym_node list" where
  "take_value refcount v rest =
     (if refcount - 1 = 0 then rest
      else if refcount > WILL_RETURN_ONCE then Value_node (refcount - 1) v # rest
      else Value_node refcount v # rest)"

fun get_symbol_value :: "sym_node list \<Rightarrow> string list \<Rightarrow> gsv_error + gsv_result" where
  "get_symbol_value head [] = Inl Gsv_assert"
| "get_symbol_value head (name # names) =
     (case find (symbol_names_match name) head of
        None \<Rightarrow> Inr \<lparr>gsv_ret = 0, gsv_out = None, gsv_map = head, gsv_missing = Some name\<rparr>
      | Some (Value_node r x) \<Rightarrow> Inl Gsv_undefined
      | Some (Map_node n child_list) \<Rightarrow>
          (case (if names = []
                 then (case child_list of
                         [] \<Rightarrow> Inl Gsv_assert
                       | Map_node m c # rest \<Rightarrow> Inl Gsv_undefined
                       | Value_node r v # rest \<Rightarrow>
                           Inr \<lparr>gsv_ret = r, gsv_out = Some v, gsv_map = take_value r v rest,
                                gsv_missing = None\<rparr>)
                 else get_symbol_value child_list names) of
             Inl e \<Rightarrow> Inl e
           | Inr res \<Rightarrow>
               Inr (res\<lparr>gsv_map :=
                 on_first (symbol_names_match name)
                   (\<lambda>_. if gsv_map res = [] then [] else [Map_node n (gsv_map res)]) head\<rparr>)))"

text \<open>
  \<^verbatim>\<open>remove_always_return_values\<close>: the new map and the released objects, in order. The
  inner node of an emptied list is released too.
\<close>

fun remove_always_return_values :: "nat \<Rightarrow> sym_node list \<Rightarrow> sym_node list \<times> nat list" where
  "remove_always_return_values n [] = ([], [])"
| "remove_always_return_values n (Value_node r v # ns) =
     (let (ns', freed) = remove_always_return_values n ns in (Value_node r v # ns', freed))"
| "remove_always_return_values n (Map_node name child_list # ns) =
     (let (child_list', freed1) =
            (if child_list = [] then (child_list, [])
             else if n = 1
             then (case child_list of
                     Value_node r v # rest \<Rightarrow>
                       if r < -1 then (rest, [v]) else (child_list, [])
                   | _ \<Rightarrow> (child_list, []))
             else remove_always_return_values (n - 1) child_list);
          (ns', freed2) = remove_always_return_values n ns
      in (if child_list' = [] then ns' else Map_node name child_list' # ns', freed1 @ freed2))"

text \<open>
  \<^verbatim>\<open>check_for_leftover_values\<close>: the number of symbols with values left and the texts of
  the calls of \<^verbatim>\<open>cmocka_print_error\<close>. \<open>where_decl\<close> is the location text of an object.
\<close>

fun check_for_leftover_values ::
  "(nat \<Rightarrow> string) \<Rightarrow> string \<Rightarrow> nat \<Rightarrow> sym_node list \<Rightarrow> nat \<times> string list" where
  "check_for_leftover_values where_decl msg n [] = (0, [])"
| "check_for_leftover_values where_decl msg n (Value_node r v # ns) =
     check_for_leftover_values where_decl msg n ns"
| "check_for_leftover_values where_decl msg n (Map_node name child_list # ns) =
     (let (k, out) = check_for_leftover_values where_decl msg n ns
      in if child_list = [] then (k, out)
         else if n = 1
         then (Suc k, (msg @ '': '' @ name @ nl)
                 # concat (map (\<lambda>c. case c of
                       Value_node r v \<Rightarrow>
                         [where_decl v @ '': note: remaining item was declared here'' @ nl]
                     | Map_node m cs \<Rightarrow> []) child_list)
                 @ out)
         else (Suc k, (name @ '': '')
                 # snd (check_for_leftover_values where_decl msg (n - 1) child_list) @ out))"

text \<open>
  \<^verbatim>\<open>free_symbol_map_value\<close> with its counter \<open>children\<close>: the objects released, in
  order, when \<^verbatim>\<open>list_free\<close> walks a map.
\<close>

fun free_values :: "sym_node list \<Rightarrow> nat list" where
  "free_values [] = []"
| "free_values (Value_node r v # ns) = v # free_values ns"
| "free_values (Map_node m c # ns) = free_values ns"

fun free_symbol_map_value :: "nat \<Rightarrow> sym_node \<Rightarrow> nat list" where
  "free_symbol_map_value children (Value_node r v) = []"
| "free_symbol_map_value 0 (Map_node m child_list) = free_values child_list"
| "free_symbol_map_value (Suc children) (Map_node m child_list) =
     concat (map (free_symbol_map_value children) child_list)"

definition free_symbol_map :: "nat \<Rightarrow> sym_node list \<Rightarrow> nat list" where
  "free_symbol_map children ns = concat (map (free_symbol_map_value children) ns)"

section \<open>The abstract view\<close>

definition children_of :: "sym_node list \<Rightarrow> string \<Rightarrow> sym_node list" where
  "children_of ns name =
     (case find (symbol_names_match name) ns of Some (Map_node _ ch) \<Rightarrow> ch | _ \<Rightarrow> [])"

fun node_entry :: "sym_node \<Rightarrow> (int \<times> nat) list" where
  "node_entry (Value_node r v) = [(r, v)]"
| "node_entry (Map_node m c) = []"

fun queue_at :: "sym_node list \<Rightarrow> string list \<Rightarrow> (int \<times> nat) list" where
  "queue_at ns [] = concat (map node_entry ns)"
| "queue_at ns (name # names) = queue_at (children_of ns name) names"

text \<open>Maps of depth \<open>d\<close>: distinct names, no empty queue, values at the last level only.\<close>

fun wf_map :: "nat \<Rightarrow> sym_node list \<Rightarrow> bool" where
  "wf_map 0 ns = list_all (\<lambda>x. case x of Value_node r v \<Rightarrow> True | Map_node m c \<Rightarrow> False) ns"
| "wf_map (Suc d) ns =
     (distinct (map symbol_name ns)
      \<and> list_all (\<lambda>x. case x of Map_node m c \<Rightarrow> c \<noteq> [] \<and> wf_map d c | Value_node r v \<Rightarrow> False) ns)"

text \<open>The effect of a reference count on the front of a queue.\<close>

definition pop_entry :: "(int \<times> 'v) list \<Rightarrow> (int \<times> 'v) list" where
  "pop_entry q =
     (case q of [] \<Rightarrow> []
      | (r, v) # rest \<Rightarrow> if r = 1 then rest else if r > -2 then (r - 1, v) # rest else q)"

section \<open>Lemmas on maps\<close>

lemma find_match_Some:
  "find (symbol_names_match name) ns = Some x \<Longrightarrow> \<exists>ch. x = Map_node name ch \<and> x \<in> set ns"
  by (induction ns) (auto split: if_splits elim: symbol_names_match.elims)

lemma find_match_None:
  "wf_map (Suc d) ns \<Longrightarrow> find (symbol_names_match name) ns = None \<longleftrightarrow> name \<notin> symbol_name ` set ns"
  by (induction ns) (auto split: sym_node.splits)

lemma wf_map_Cons:
  "wf_map (Suc d) (x # ns) \<longleftrightarrow>
     (\<exists>m c. x = Map_node m c \<and> m \<notin> symbol_name ` set ns \<and> c \<noteq> [] \<and> wf_map d c \<and> wf_map (Suc d) ns)"
  by (cases x) auto

lemma children_of_Nil [simp]: "children_of [] name = []"
  by (simp add: children_of_def)

lemma children_of_Cons:
  "children_of (Map_node m c # ns) name = (if m = name then c else children_of ns name)"
  by (simp add: children_of_def)

lemma children_of_absent:
  "find (symbol_names_match name) ns = None \<Longrightarrow> children_of ns name = []"
  by (simp add: children_of_def)

lemma children_of_wf: "wf_map (Suc d) ns \<Longrightarrow> wf_map d (children_of ns name)"
proof (induction ns)
  case Nil
  then show ?case by (cases d) simp_all
next
  case (Cons x ns)
  then show ?case by (auto simp: wf_map_Cons children_of_Cons simp del: wf_map.simps)
qed

lemma children_of_absent_name: "wf_map (Suc d) ns \<Longrightarrow> m \<notin> symbol_name ` set ns \<Longrightarrow> children_of ns m = []"
  using find_match_None children_of_absent by blast

text \<open>Replacing the list under one name.\<close>

definition put_children :: "sym_node list \<Rightarrow> string \<Rightarrow> sym_node list \<Rightarrow> sym_node list" where
  "put_children ns name ch =
     on_first (symbol_names_match name) (\<lambda>_. if ch = [] then [] else [Map_node name ch]) ns"

lemma put_children_Cons:
  "put_children (Map_node m c # ns) name ch =
     (if m = name then (if ch = [] then ns else Map_node name ch # ns)
      else Map_node m c # put_children ns name ch)"
  by (simp add: put_children_def)

lemma put_children_names: "symbol_name ` set (put_children ns name ch) \<subseteq> symbol_name ` set ns"
proof (induction ns)
  case (Cons x ns)
  then show ?case by (cases x) (auto simp: put_children_def split: if_splits)
qed (simp add: put_children_def)

lemma put_children_wf:
  "wf_map (Suc d) ns \<Longrightarrow> wf_map d ch \<Longrightarrow> wf_map (Suc d) (put_children ns name ch)"
proof (induction ns)
  case Nil
  then show ?case by (simp add: put_children_def)
next
  case (Cons x ns)
  then obtain m c where x: "x = Map_node m c" "m \<notin> symbol_name ` set ns" "c \<noteq> []" "wf_map d c"
    "wf_map (Suc d) ns" by (auto simp: wf_map_Cons simp del: wf_map.simps)
  then show ?case
    using Cons.IH Cons.prems(2) put_children_names [of ns name ch]
    by (auto simp: put_children_Cons wf_map_Cons simp del: wf_map.simps)
qed

lemma children_of_put:
  assumes "wf_map (Suc d) ns" and "find (symbol_names_match name) ns \<noteq> None"
  shows "children_of (put_children ns name ch) x = (if x = name then ch else children_of ns x)"
  using assms
proof (induction ns)
  case (Cons y ns)
  then obtain m c where y: "y = Map_node m c" "m \<notin> symbol_name ` set ns" "wf_map (Suc d) ns"
    by (auto simp: wf_map_Cons simp del: wf_map.simps)
  then show ?case
    using Cons children_of_absent_name [OF y(3)]
    by (auto simp: put_children_Cons children_of_Cons split: if_splits)
qed simp

lemma wf_map_append_value: "wf_map 0 ns \<Longrightarrow> wf_map 0 (ns @ [Value_node r v])"
  by simp

lemma wf_map_append_new:
  "wf_map (Suc d) ns \<Longrightarrow> name \<notin> symbol_name ` set ns \<Longrightarrow> ch \<noteq> [] \<Longrightarrow> wf_map d ch \<Longrightarrow>
   wf_map (Suc d) (ns @ [Map_node name ch])"
  by auto

lemma children_of_append_new:
  assumes "find (symbol_names_match name) ns = None"
  shows "children_of (ns @ [Map_node name ch]) x = (if x = name then ch else children_of ns x)"
proof (cases "find (symbol_names_match x) ns")
  case None
  then have "find (symbol_names_match x) (ns @ [Map_node name ch]) =
      (if x = name then Some (Map_node name ch) else None)"
    by (induction ns) auto
  then show ?thesis using None by (auto simp: children_of_def)
next
  case (Some y)
  then have "find (symbol_names_match x) (ns @ [Map_node name ch]) = Some y"
    by (induction ns) (auto split: if_splits)
  then show ?thesis using Some assms by (auto simp: children_of_def)
qed

lemma on_first_absent:
  "find (symbol_names_match name) ns = None \<Longrightarrow>
   on_first (symbol_names_match name) f (ns @ [Map_node name []]) = ns @ f (Map_node name [])"
  by (induction ns) (auto split: if_splits)

lemma on_first_put:
  assumes "find (symbol_names_match name) ns = Some (Map_node n ch)" "g ch \<noteq> []"
  shows "on_first (symbol_names_match name)
      (\<lambda>t. case t of Map_node m c \<Rightarrow> [Map_node m (g c)] | Value_node r x \<Rightarrow> [t]) ns
    = put_children ns name (g ch)"
  using assms
proof (induction ns)
  case (Cons x ns)
  then show ?case by (cases x) (auto simp: put_children_def split: if_splits)
qed simp

text \<open>One level of \<open>add_symbol_value\<close>: an update of the list under the first name.\<close>

definition add_below :: "string list \<Rightarrow> nat \<Rightarrow> int \<Rightarrow> sym_node list \<Rightarrow> sym_node list" where
  "add_below names v rc ch =
     (if names = [] then ch @ [Value_node rc v] else add_symbol_value ch names v rc)"

lemma add_symbol_value_unfold:
  "add_symbol_value ns (name # names) v rc =
     on_first (symbol_names_match name)
       (\<lambda>t. case t of Map_node m c \<Rightarrow> [Map_node m (add_below names v rc c)] | Value_node r x \<Rightarrow> [t])
       (if find (symbol_names_match name) ns = None then ns @ [Map_node name []] else ns)"
  unfolding add_symbol_value.simps Let_def add_below_def by (rule refl)

lemma add_symbol_value_nonempty: "names \<noteq> [] \<Longrightarrow> add_symbol_value ns names v rc \<noteq> []"
  by (cases names; cases ns)
    (auto simp: add_symbol_value_unfold simp del: add_symbol_value.simps split: sym_node.splits)

lemma add_below_nonempty: "add_below names v rc ch \<noteq> []"
  using add_symbol_value_nonempty [of names ch v rc] by (simp add: add_below_def)

lemma add_symbol_value_Cons:
  "add_symbol_value ns (name # names) v rc =
     (if find (symbol_names_match name) ns = None
      then ns @ [Map_node name (add_below names v rc [])]
      else put_children ns name (add_below names v rc (children_of ns name)))"
proof (cases "find (symbol_names_match name) ns")
  case None
  then show ?thesis
    by (simp add: on_first_absent add_symbol_value_unfold del: add_symbol_value.simps)
next
  case (Some x)
  then obtain ch where x: "x = Map_node name ch" using find_match_Some by blast
  with Some show ?thesis
    by (simp add: on_first_put [of name ns name ch "add_below names v rc", OF _ add_below_nonempty]
        add_symbol_value_unfold children_of_def del: add_symbol_value.simps)
qed

lemma add_symbol_value_level:
  assumes wf: "wf_map (Suc d) ns" and below: "\<And>ch. wf_map d ch \<Longrightarrow> wf_map d (add_below names v rc ch)"
  shows "wf_map (Suc d) (add_symbol_value ns (name # names) v rc)"
    and "children_of (add_symbol_value ns (name # names) v rc) x =
      (if x = name then add_below names v rc (children_of ns name) else children_of ns x)"
proof -
  have e: "wf_map d []" by (cases d) simp_all
  show "wf_map (Suc d) (add_symbol_value ns (name # names) v rc)"
    using wf below [OF e] below [OF children_of_wf [OF wf]] find_match_None [OF wf]
    by (auto simp: add_symbol_value_Cons add_below_nonempty put_children_wf wf_map_append_new
        simp del: wf_map.simps add_symbol_value.simps)
  show "children_of (add_symbol_value ns (name # names) v rc) x =
      (if x = name then add_below names v rc (children_of ns name) else children_of ns x)"
    using wf by (auto simp: add_symbol_value_Cons children_of_append_new children_of_put
        children_of_absent simp del: add_symbol_value.simps)
qed

lemma add_symbol_value_queue:
  assumes "wf_map (length names) ns" and "names \<noteq> []"
  shows "wf_map (length names) (add_symbol_value ns names v rc)
    \<and> (\<forall>path. length path = length names \<longrightarrow>
         queue_at (add_symbol_value ns names v rc) path =
           (if path = names then queue_at ns names @ [(rc, v)] else queue_at ns path))"
  using assms
proof (induction names arbitrary: ns)
  case Nil
  then show ?case by simp
next
  case (Cons name names)
  have below: "wf_map (length names) ch \<Longrightarrow> wf_map (length names) (add_below names v rc ch)" for ch
    using Cons.IH by (cases "names = []") (auto simp: add_below_def)
  have q: "wf_map (length names) ch \<Longrightarrow> length path = length names \<Longrightarrow>
      queue_at (add_below names v rc ch) path =
        (if path = names then queue_at ch names @ [(rc, v)] else queue_at ch path)" for ch path
    using Cons.IH [of ch] by (cases "names = []") (auto simp: add_below_def)
  have wf: "wf_map (Suc (length names)) ns" using Cons.prems(1) by simp
  note level = add_symbol_value_level [OF wf below]
  show ?case
  proof (intro conjI allI impI)
    show "wf_map (length (name # names)) (add_symbol_value ns (name # names) v rc)"
      using level(1) [of name] by simp
    fix path :: "string list"
    assume "length path = length (name # names)"
    then obtain x xs where path: "path = x # xs" "length xs = length names" by (cases path) auto
    show "queue_at (add_symbol_value ns (name # names) v rc) path =
        (if path = name # names then queue_at ns (name # names) @ [(rc, v)] else queue_at ns path)"
      using path q [OF children_of_wf [OF wf] path(2), of name]
      by (auto simp: level(2) simp del: add_symbol_value.simps)
  qed
qed

lemma find_match_children:
  assumes "wf_map (Suc d) ns" "find (symbol_names_match name) ns = Some x"
  shows "x = Map_node name (children_of ns name)" and "children_of ns name \<noteq> []"
proof -
  from find_match_Some [OF assms(2)] obtain ch where x: "x = Map_node name ch" "x \<in> set ns" by blast
  then show "x = Map_node name (children_of ns name)" using assms(2) by (simp add: children_of_def)
  show "children_of ns name \<noteq> []"
    using x assms by (auto simp: children_of_def list_all_iff)
qed

text \<open>The queue a get leaves behind, and what it reports.\<close>

definition gsv_spec :: "sym_node list \<Rightarrow> string list \<Rightarrow> gsv_result \<Rightarrow> bool" where
  "gsv_spec ns names res \<longleftrightarrow>
     wf_map (length names) (gsv_map res)
     \<and> (\<forall>path. length path = length names \<longrightarrow>
          queue_at (gsv_map res) path =
            (if path = names then pop_entry (queue_at ns names) else queue_at ns path))
     \<and> (case queue_at ns names of
          [] \<Rightarrow> gsv_ret res = 0 \<and> gsv_out res = None \<and> gsv_missing res \<noteq> None \<and> gsv_map res = ns
        | (r, v) # q \<Rightarrow> gsv_ret res = r \<and> gsv_out res = Some v \<and> gsv_missing res = None)"

lemma wf_map_0_queue:
  "wf_map 0 ns \<Longrightarrow> queue_at ns [] = map (\<lambda>x. case x of Value_node r v \<Rightarrow> (r, v) | _ \<Rightarrow> (0, 0)) ns"
  by (induction ns) (auto split: sym_node.splits)

lemma get_last_level:
  assumes "wf_map 0 (Value_node r v # rest)"
  shows "wf_map 0 (take_value r v rest)"
    and "queue_at (take_value r v rest) [] = pop_entry ((r, v) # queue_at rest [])"
  using assms by (auto simp: take_value_def pop_entry_def WILL_RETURN_ONCE_def)

lemma put_children_same:
  assumes "wf_map (Suc d) ns" "find (symbol_names_match name) ns \<noteq> None"
  shows "put_children ns name (children_of ns name) = ns"
  using assms
proof (induction ns)
  case (Cons x ns)
  then obtain m c where "x = Map_node m c" "c \<noteq> []" "wf_map (Suc d) ns"
    by (auto simp: wf_map_Cons simp del: wf_map.simps)
  then show ?case using Cons by (auto simp: put_children_Cons children_of_Cons)
qed simp

lemma gsv_spec_lift:
  assumes wf: "wf_map (Suc (length names)) ns" and found: "find (symbol_names_match name) ns \<noteq> None"
    and sub: "gsv_spec (children_of ns name) names res"
  shows "gsv_spec ns (name # names) (res\<lparr>gsv_map := put_children ns name (gsv_map res)\<rparr>)"
proof -
  have wf': "wf_map (length names) (gsv_map res)" using sub by (simp add: gsv_spec_def)
  have "queue_at (put_children ns name (gsv_map res)) path =
      (if path = name # names then pop_entry (queue_at ns (name # names)) else queue_at ns path)"
    if "length path = length (name # names)" for path
  proof -
    from that obtain x xs where path: "path = x # xs" "length xs = length names" by (cases path) auto
    then show ?thesis
      using sub by (auto simp: gsv_spec_def children_of_put [OF wf found])
  qed
  moreover have "put_children ns name (gsv_map res) = ns" if "queue_at (children_of ns name) names = []"
    using sub that put_children_same [OF wf found] by (simp add: gsv_spec_def)
  ultimately show ?thesis
    using sub put_children_wf [OF wf wf']
    by (auto simp: gsv_spec_def simp del: wf_map.simps split: list.splits prod.splits)
qed

lemma get_symbol_value_correct:
  assumes "wf_map (length names) ns" and "names \<noteq> []"
  shows "\<exists>res. get_symbol_value ns names = Inr res \<and> gsv_spec ns names res"
  using assms
proof (induction names arbitrary: ns)
  case Nil
  then show ?case by simp
next
  case (Cons name names)
  have wf: "wf_map (Suc (length names)) ns" using Cons.prems(1) by simp
  show ?case
  proof (cases "find (symbol_names_match name) ns")
    case None
    have "queue_at [] names = []" by (induction names) (simp_all add: children_of_def)
    then show ?thesis
      using None Cons.prems(1)
      by (auto simp: gsv_spec_def children_of_absent pop_entry_def simp del: wf_map.simps)
  next
    case (Some x)
    let ?ch = "children_of ns name"
    have x: "x = Map_node name ?ch" "?ch \<noteq> []" using find_match_children [OF wf Some] by auto
    have chwf: "wf_map (length names) ?ch" by (rule children_of_wf [OF wf])
    have "\<exists>res. (if names = [] then (case ?ch of [] \<Rightarrow> Inl Gsv_assert
                       | Map_node m c # rest \<Rightarrow> Inl Gsv_undefined
                       | Value_node r v # rest \<Rightarrow>
                           Inr \<lparr>gsv_ret = r, gsv_out = Some v, gsv_map = take_value r v rest,
                                gsv_missing = None\<rparr>)
                 else get_symbol_value ?ch names) = Inr res \<and> gsv_spec ?ch names res"
    proof (cases "names = []")
      case True
      then obtain r v rest where ch: "?ch = Value_node r v # rest"
        using chwf x(2) by (cases ?ch) (auto split: sym_node.splits)
      then show ?thesis
        using get_last_level [of r v rest] chwf True by (auto simp: gsv_spec_def)
    next
      case False
      then show ?thesis using Cons.IH [OF chwf] by simp
    qed
    then obtain res where res: "(if names = [] then (case ?ch of [] \<Rightarrow> Inl Gsv_assert
                       | Map_node m c # rest \<Rightarrow> Inl Gsv_undefined
                       | Value_node r v # rest \<Rightarrow>
                           Inr \<lparr>gsv_ret = r, gsv_out = Some v, gsv_map = take_value r v rest,
                                gsv_missing = None\<rparr>)
                 else get_symbol_value ?ch names) = Inr res" and spec: "gsv_spec ?ch names res"
      by blast
    have "get_symbol_value ns (name # names) =
        Inr (res\<lparr>gsv_map := put_children ns name (gsv_map res)\<rparr>)"
      unfolding get_symbol_value.simps Some x(1) option.case sym_node.case res sum.case
      by (simp add: put_children_def)
    then show ?thesis using gsv_spec_lift [OF wf _ spec] Some by blast
  qed
qed

section \<open>The objects a map owns\<close>

fun node_leaves :: "sym_node \<Rightarrow> nat list" where
  "node_leaves (Value_node r v) = [v]"
| "node_leaves (Map_node m c) = concat (map node_leaves c)"

definition leaves :: "sym_node list \<Rightarrow> nat list" where
  "leaves ns = concat (map node_leaves ns)"

lemma leaves_simps [simp]:
  "leaves [] = []" "leaves (Value_node r v # ns) = v # leaves ns"
  "leaves (Map_node m c # ns) = leaves c @ leaves ns" "leaves (xs @ ys) = leaves xs @ leaves ys"
  by (simp_all add: leaves_def)

lemma leaves_put:
  assumes "wf_map (Suc d) ns" "find (symbol_names_match name) ns \<noteq> None"
  shows "mset (leaves (put_children ns name ch)) + mset (leaves (children_of ns name))
    = mset (leaves ns) + mset (leaves ch)"
  using assms
proof (induction ns)
  case (Cons x ns)
  then obtain m c where x: "x = Map_node m c" "wf_map (Suc d) ns"
    by (auto simp: wf_map_Cons simp del: wf_map.simps)
  show ?case
  proof (cases "m = name")
    case True
    then show ?thesis using x by (simp add: put_children_Cons children_of_Cons)
  next
    case False
    then have "mset (leaves (put_children ns name ch)) + mset (leaves (children_of ns name))
        = mset (leaves ns) + mset (leaves ch)"
      using Cons x by simp
    then show ?thesis using x False by (simp add: put_children_Cons children_of_Cons add.assoc)
  qed
qed simp

lemma leaves_add:
  "wf_map (length names) ns \<Longrightarrow> names \<noteq> [] \<Longrightarrow>
   mset (leaves (add_symbol_value ns names v rc)) = add_mset v (mset (leaves ns))"
proof (induction names arbitrary: ns)
  case (Cons name names)
  have wf: "wf_map (Suc (length names)) ns" using Cons.prems by simp
  have below: "mset (leaves (add_below names v rc ch)) = add_mset v (mset (leaves ch))"
    if "wf_map (length names) ch" for ch
    using Cons.IH [OF that] by (cases "names = []") (simp_all add: add_below_def)
  have e: "wf_map (length names) []" by (cases names) simp_all
  show ?case
  proof (cases "find (symbol_names_match name) ns")
    case None
    then show ?thesis
      using below [OF e] by (simp add: add_symbol_value_Cons del: add_symbol_value.simps)
  next
    case (Some x)
    have "mset (leaves (put_children ns name (add_below names v rc (children_of ns name))))
        + mset (leaves (children_of ns name))
      = mset (leaves ns) + add_mset v (mset (leaves (children_of ns name)))"
      using leaves_put [OF wf] Some below [OF children_of_wf [OF wf]] by simp
    then show ?thesis using Some by (simp add: add_symbol_value_Cons del: add_symbol_value.simps)
  qed
qed simp

text \<open>A get hands an object over to its caller exactly when the return value is 1.\<close>

lemma leaves_get:
  assumes "wf_map (length names) ns" "get_symbol_value ns names = Inr res"
  shows "mset (leaves ns) = mset (leaves (gsv_map res))
     + (if gsv_ret res = 1 \<and> gsv_out res \<noteq> None then {#the (gsv_out res)#} else {#})"
  using assms
proof (induction names arbitrary: ns res)
  case Nil
  then show ?case by simp
next
  case (Cons name names)
  have wf: "wf_map (Suc (length names)) ns" using Cons.prems by simp
  show ?case
  proof (cases "find (symbol_names_match name) ns")
    case None
    then show ?thesis using Cons.prems by auto
  next
    case (Some x)
    let ?ch = "children_of ns name"
    have x: "x = Map_node name ?ch" "?ch \<noteq> []" using find_match_children [OF wf Some] by auto
    have chwf: "wf_map (length names) ?ch" by (rule children_of_wf [OF wf])
    obtain sub where sub: "res = sub\<lparr>gsv_map := put_children ns name (gsv_map sub)\<rparr>"
      and eq: "mset (leaves ?ch) = mset (leaves (gsv_map sub))
        + (if gsv_ret sub = 1 \<and> gsv_out sub \<noteq> None then {#the (gsv_out sub)#} else {#})"
    proof (cases "names = []")
      case True
      then obtain r v rest where ch: "?ch = Value_node r v # rest"
        using chwf x(2) by (cases ?ch) (auto split: sym_node.splits)
      show ?thesis
        by (rule that [of "\<lparr>gsv_ret = r, gsv_out = Some v, gsv_map = take_value r v rest, gsv_missing = None\<rparr>"])
          (use Cons.prems(2) Some x(1) ch True in \<open>auto simp: put_children_def take_value_def\<close>)
    next
      case False
      then obtain sub where s: "get_symbol_value ?ch names = Inr sub"
        using get_symbol_value_correct [OF chwf False] by blast
      have "res = sub\<lparr>gsv_map := put_children ns name (gsv_map sub)\<rparr>"
        using Cons.prems(2) Some False unfolding x(1) by (simp add: s put_children_def)
      then show ?thesis using that Cons.IH [OF chwf s] by blast
    qed
    have "mset (leaves (put_children ns name (gsv_map sub))) + mset (leaves ?ch)
        = mset (leaves ns) + mset (leaves (gsv_map sub))"
      using leaves_put [OF wf] Some by simp
    then show ?thesis using eq sub by (auto simp: add.commute add.left_commute)
  qed
qed

lemma free_values_leaves: "wf_map 0 ns \<Longrightarrow> free_values ns = leaves ns"
  by (induction ns rule: free_values.induct) auto

text \<open>Releasing a map of depth \<open>Suc d\<close> with the counter \<open>d\<close> releases exactly what it owns.\<close>

lemma free_symbol_map_leaves: "wf_map (Suc d) ns \<Longrightarrow> free_symbol_map d ns = leaves ns"
proof (induction d arbitrary: ns)
  case 0
  then show ?case
  proof (induction ns)
    case (Cons x ns)
    then show ?case
      by (cases x) (auto simp: free_symbol_map_def free_values_leaves)
  qed (simp add: free_symbol_map_def)
next
  case (Suc d)
  note IH = Suc.IH
  from Suc.prems show ?case
  proof (induction ns)
    case (Cons x ns)
    then obtain m c where x: "x = Map_node m c" "wf_map (Suc d) c" "wf_map (Suc (Suc d)) ns"
      by (auto simp: wf_map_Cons simp del: wf_map.simps)
    then show ?case
      using Cons.IH IH [OF x(2)] by (simp add: free_symbol_map_def)
  qed (simp add: free_symbol_map_def)
qed

section \<open>Values left at the end of a test\<close>

text \<open>Per queue: an entry that may be returned any number of times is dropped, but only if
  it is the first one.\<close>

definition drop_always :: "(int \<times> nat) list \<Rightarrow> (int \<times> nat) list" where
  "drop_always q = (case q of [] \<Rightarrow> [] | (r, v) # rest \<Rightarrow> if r < -1 then rest else q)"

lemma drop_always_Nil [simp]: "drop_always [] = []"
  by (simp add: drop_always_def)

definition remove_always_below :: "nat \<Rightarrow> sym_node list \<Rightarrow> sym_node list \<times> nat list" where
  "remove_always_below d ch =
     (if d = 0 then (case ch of Value_node r v # rest \<Rightarrow> if r < -1 then (rest, [v]) else (ch, [])
                     | _ \<Rightarrow> (ch, []))
      else remove_always_return_values d ch)"

lemma remove_always_Cons:
  "c \<noteq> [] \<Longrightarrow> remove_always_return_values (Suc d) (Map_node m c # ns) =
     (let (c', f1) = remove_always_below d c; (ns', f2) = remove_always_return_values (Suc d) ns
      in (if c' = [] then ns' else Map_node m c' # ns', f1 @ f2))"
  by (simp add: remove_always_below_def)

lemma remove_always_names:
  assumes "wf_map (Suc d) ns"
  shows "symbol_name ` set (fst (remove_always_return_values (Suc d) ns)) \<subseteq> symbol_name ` set ns"
  using assms
proof (induction ns)
  case (Cons x ns)
  then obtain m c where x: "x = Map_node m c" "c \<noteq> []" "wf_map (Suc d) ns"
    by (auto simp: wf_map_Cons simp del: wf_map.simps)
  obtain c' f1 where c': "remove_always_below d c = (c', f1)" by fastforce
  obtain ns' f2 where ns': "remove_always_return_values (Suc d) ns = (ns', f2)" by fastforce
  show ?case
    unfolding x(1) remove_always_Cons [OF x(2)] c' ns' using Cons.IH [OF x(3)] ns' by auto
qed simp

lemma remove_always_last:
  assumes "wf_map 0 ch"
  shows "wf_map 0 (fst (remove_always_below 0 ch))"
    and "queue_at (fst (remove_always_below 0 ch)) [] = drop_always (queue_at ch [])"
    and "mset (leaves ch) = mset (leaves (fst (remove_always_below 0 ch))) + mset (snd (remove_always_below 0 ch))"
  using assms
  by (cases ch; auto simp: remove_always_below_def drop_always_def split: sym_node.splits)+

lemma remove_always_level:
  assumes wf: "wf_map (Suc d) ns"
    and below: "\<And>ch. wf_map d ch \<Longrightarrow> wf_map d (fst (remove_always_below d ch))
      \<and> mset (leaves ch) = mset (leaves (fst (remove_always_below d ch))) + mset (snd (remove_always_below d ch))"
  shows "wf_map (Suc d) (fst (remove_always_return_values (Suc d) ns))
    \<and> (\<forall>x. children_of (fst (remove_always_return_values (Suc d) ns)) x =
          (if children_of ns x = [] then [] else fst (remove_always_below d (children_of ns x))))
    \<and> mset (leaves ns) = mset (leaves (fst (remove_always_return_values (Suc d) ns)))
        + mset (snd (remove_always_return_values (Suc d) ns))"
  using wf
proof (induction ns)
  case Nil
  then show ?case by simp
next
  case (Cons y ns)
  then obtain m c where y: "y = Map_node m c" "m \<notin> symbol_name ` set ns" "c \<noteq> []" "wf_map d c"
    "wf_map (Suc d) ns" by (auto simp: wf_map_Cons simp del: wf_map.simps)
  obtain c' f1 where c': "remove_always_below d c = (c', f1)" by fastforce
  obtain ns' f2 where ns': "remove_always_return_values (Suc d) ns = (ns', f2)" by fastforce
  have IH: "wf_map (Suc d) ns'"
      "\<And>x. children_of ns' x = (if children_of ns x = [] then [] else fst (remove_always_below d (children_of ns x)))"
      "mset (leaves ns) = mset (leaves ns') + mset f2"
    using Cons.IH [OF y(5)] ns' by auto
  have m: "m \<notin> symbol_name ` set ns'" using remove_always_names [OF y(5)] ns' y(2) by auto
  have b: "wf_map d c'" "mset (leaves c) = mset (leaves c') + mset f1" using below [OF y(4)] c' by auto
  show ?case
    unfolding y(1) remove_always_Cons [OF y(3)] c' ns'
    using IH b m y(3) children_of_absent_name [OF IH(1) m] children_of_absent_name [OF y(5,2)] c'
    by (auto simp: wf_map_Cons children_of_Cons simp del: wf_map.simps)
qed

lemma queue_at_Nil [simp]: "queue_at [] p = []"
  by (induction p) (simp_all add: children_of_def)

lemma remove_always_queue:
  assumes "wf_map (Suc d) ns"
  shows "wf_map (Suc d) (fst (remove_always_return_values (Suc d) ns))
    \<and> (\<forall>path. length path = Suc d \<longrightarrow>
         queue_at (fst (remove_always_return_values (Suc d) ns)) path = drop_always (queue_at ns path))
    \<and> mset (leaves ns) = mset (leaves (fst (remove_always_return_values (Suc d) ns)))
        + mset (snd (remove_always_return_values (Suc d) ns))"
  using assms
proof (induction d arbitrary: ns)
  case 0
  have level: "wf_map (Suc 0) (fst (remove_always_return_values (Suc 0) ns))
    \<and> (\<forall>x. children_of (fst (remove_always_return_values (Suc 0) ns)) x =
          (if children_of ns x = [] then [] else fst (remove_always_below 0 (children_of ns x))))
    \<and> mset (leaves ns) = mset (leaves (fst (remove_always_return_values (Suc 0) ns)))
        + mset (snd (remove_always_return_values (Suc 0) ns))"
    by (rule remove_always_level [OF 0]) (use remove_always_last in auto)
  have "queue_at (fst (remove_always_return_values (Suc 0) ns)) [x] = drop_always (queue_at ns [x])" for x
    using level remove_always_last(2) [OF children_of_wf [OF 0], of x]
    by (cases "children_of ns x = []") (simp_all del: wf_map.simps remove_always_return_values.simps)
  then show ?case using level by (metis length_0_conv length_Suc_conv)
next
  case (Suc d)
  have below: "remove_always_below (Suc d) ch = remove_always_return_values (Suc d) ch" for ch
    by (simp add: remove_always_below_def)
  have level: "wf_map (Suc (Suc d)) (fst (remove_always_return_values (Suc (Suc d)) ns))
    \<and> (\<forall>x. children_of (fst (remove_always_return_values (Suc (Suc d)) ns)) x =
          (if children_of ns x = [] then [] else fst (remove_always_below (Suc d) (children_of ns x))))
    \<and> mset (leaves ns) = mset (leaves (fst (remove_always_return_values (Suc (Suc d)) ns)))
        + mset (snd (remove_always_return_values (Suc (Suc d)) ns))"
    by (rule remove_always_level [OF Suc.prems]) (use Suc.IH below in metis)
  have "queue_at (fst (remove_always_return_values (Suc (Suc d)) ns)) (x # p)
      = drop_always (queue_at ns (x # p))" if "length p = Suc d" for x p
    using level Suc.IH [OF children_of_wf [OF Suc.prems], of x] that
    by (cases "children_of ns x = []")
      (simp_all add: below del: wf_map.simps remove_always_return_values.simps)
  then have "\<forall>path. length path = Suc (Suc d) \<longrightarrow>
      queue_at (fst (remove_always_return_values (Suc (Suc d)) ns)) path = drop_always (queue_at ns path)"
    by (metis length_Suc_conv)
  then show ?case using level by blast
qed

lemma leftover_count:
  "wf_map (Suc d) ns \<Longrightarrow> fst (check_for_leftover_values w msg n ns) = length ns"
proof (induction ns)
  case (Cons x ns)
  then obtain m c where "x = Map_node m c" "c \<noteq> []" "wf_map (Suc d) ns"
    by (auto simp: wf_map_Cons simp del: wf_map.simps)
  then show ?case using Cons.IH by (auto simp: Let_def split: prod.splits)
qed simp

lemma wf_map_empty_iff:
  assumes "wf_map (Suc d) ns"
  shows "ns = [] \<longleftrightarrow> (\<forall>path. length path = Suc d \<longrightarrow> queue_at ns path = [])"
proof
  assume "ns = []"
  moreover have "queue_at [] p = []" for p by (induction p) (simp_all add: children_of_def)
  ultimately show "\<forall>path. length path = Suc d \<longrightarrow> queue_at ns path = []" by simp
next
  have "ns \<noteq> [] \<Longrightarrow> wf_map (Suc d) ns \<Longrightarrow> \<exists>path. length path = Suc d \<and> queue_at ns path \<noteq> []"
    for ns d
  proof (induction d arbitrary: ns)
    case 0
    then obtain m c ns' where ns: "ns = Map_node m c # ns'" "c \<noteq> []" "wf_map 0 c"
      by (cases ns) (auto simp: wf_map_Cons simp del: wf_map.simps)
    then have "queue_at ns [m] \<noteq> []" using wf_map_0_queue [of c] by (simp add: children_of_Cons)
    then show ?case by (intro exI [of _ "[m]"]) simp
  next
    case (Suc d)
    then obtain m c ns' where ns: "ns = Map_node m c # ns'" "c \<noteq> []" "wf_map (Suc d) c"
      by (cases ns) (auto simp: wf_map_Cons simp del: wf_map.simps)
    from Suc.IH [OF ns(2,3)] obtain p where "length p = Suc d" "queue_at c p \<noteq> []" by blast
    then show ?case using ns(1) by (intro exI [of _ "m # p"]) (simp add: children_of_Cons)
  qed
  then show "\<forall>path. length path = Suc d \<longrightarrow> queue_at ns path = [] \<Longrightarrow> ns = []"
    using assms by blast
qed

section \<open>The interface the mock functions rely on\<close>

text \<open>
  A store of queues: adding appends to one queue, getting reads the front of one queue and
  updates its reference count, and no other queue is touched.
\<close>

fun add_once :: "('m \<Rightarrow> 'p \<Rightarrow> 'v \<Rightarrow> int \<Rightarrow> 'm) \<Rightarrow> 'm \<Rightarrow> 'p \<Rightarrow> 'v list \<Rightarrow> 'm" where
  "add_once add m p [] = m"
| "add_once add m p (v # vs) = add_once add (add m p v 1) p vs"

fun fetch_many :: "('m \<Rightarrow> 'p \<Rightarrow> ('v option \<times> 'm) option) \<Rightarrow> 'm \<Rightarrow> 'p \<Rightarrow> nat \<Rightarrow>
    ('v list \<times> 'm) option" where
  "fetch_many get m p 0 = Some ([], m)"
| "fetch_many get m p (Suc n) =
     (case get m p of
        Some (Some v, m') \<Rightarrow> map_option (\<lambda>(vs, m''). (v # vs, m'')) (fetch_many get m' p n)
      | _ \<Rightarrow> None)"

locale queue_store =
  fixes wf :: "'m \<Rightarrow> bool" and path :: "'p \<Rightarrow> bool"
    and queue :: "'m \<Rightarrow> 'p \<Rightarrow> (int \<times> 'v) list"
    and add :: "'m \<Rightarrow> 'p \<Rightarrow> 'v \<Rightarrow> int \<Rightarrow> 'm"
    and get :: "'m \<Rightarrow> 'p \<Rightarrow> ('v option \<times> 'm) option"
  assumes add_wf: "wf m \<Longrightarrow> path p \<Longrightarrow> r \<noteq> 0 \<Longrightarrow> wf (add m p v r)"
    and add_queue: "wf m \<Longrightarrow> path p \<Longrightarrow> path p' \<Longrightarrow> r \<noteq> 0 \<Longrightarrow>
      queue (add m p v r) p' = (if p' = p then queue m p @ [(r, v)] else queue m p')"
    and get_queue: "wf m \<Longrightarrow> path p \<Longrightarrow> \<exists>m'. get m p =
        Some (case queue m p of [] \<Rightarrow> None | (r, v) # _ \<Rightarrow> Some v, m') \<and> wf m'
        \<and> (\<forall>p'. path p' \<longrightarrow> queue m' p' = (if p' = p then pop_entry (queue m p) else queue m p'))"
begin

lemma add_once_wf: "wf m \<Longrightarrow> path p \<Longrightarrow> wf (add_once add m p vs)"
  by (induction vs arbitrary: m) (simp_all add: add_wf)

lemma add_once_queue:
  "wf m \<Longrightarrow> path p \<Longrightarrow> path p' \<Longrightarrow>
   queue (add_once add m p vs) p' = (if p' = p then queue m p @ map (\<lambda>v. (1, v)) vs else queue m p')"
proof (induction vs arbitrary: m)
  case (Cons v vs)
  then show ?case using Cons.IH [OF add_wf] by (simp add: add_queue)
qed simp

text \<open>Values queued once each come back in the order they were queued.\<close>

lemma fetch_once_in_order:
  assumes "wf m" "path p" "queue m p = map (\<lambda>v. (1, v)) vs @ q"
  shows "\<exists>m'. fetch_many get m p (length vs) = Some (vs, m') \<and> wf m' \<and> queue m' p = q
    \<and> (\<forall>p'. path p' \<and> p' \<noteq> p \<longrightarrow> queue m' p' = queue m p')"
  using assms
proof (induction vs arbitrary: m)
  case Nil
  then show ?case by simp
next
  case (Cons v vs)
  obtain m1 where m1: "get m p = Some (Some v, m1)" "wf m1"
    "\<forall>p'. path p' \<longrightarrow> queue m1 p' = (if p' = p then pop_entry (queue m p) else queue m p')"
    using get_queue [OF Cons.prems(1,2)] Cons.prems(3) by auto
  have "queue m1 p = map (\<lambda>v. (1, v)) vs @ q" using m1(3) Cons.prems by (simp add: pop_entry_def)
  from Cons.IH [OF m1(2) Cons.prems(2) this] show ?case using m1 by force
qed

lemma fifo_round_trip:
  assumes "wf m" "path p" "queue m p = []"
  shows "\<exists>m'. fetch_many get (add_once add m p vs) p (length vs) = Some (vs, m') \<and> wf m'
    \<and> queue m' p = [] \<and> (\<forall>p'. path p' \<and> p' \<noteq> p \<longrightarrow> queue m' p' = queue m p')"
  using fetch_once_in_order [OF add_once_wf [OF assms(1,2)] assms(2), of vs vs "[]"]
    add_once_queue [OF assms(1,2)] assms by fastforce

text \<open>A positive count is used up, one get at a time.\<close>

lemma fetch_counted:
  assumes "wf m" "path p" "queue m p = (int (Suc n), v) # q"
  shows "\<exists>m'. fetch_many get m p (Suc n) = Some (replicate (Suc n) v, m') \<and> wf m' \<and> queue m' p = q"
  using assms
proof (induction n arbitrary: m)
  case 0
  then show ?case using get_queue [OF 0(1,2)] by (auto simp: pop_entry_def)
next
  case (Suc n)
  obtain m1 where m1: "get m p = Some (Some v, m1)" "wf m1"
    "queue m1 p = pop_entry (queue m p)"
    using get_queue [OF Suc.prems(1,2)] Suc.prems by auto
  have "queue m1 p = (int (Suc n), v) # q" using m1(3) Suc.prems(3) by (simp add: pop_entry_def)
  from Suc.IH [OF m1(2) Suc.prems(2) this] show ?case using m1 by auto
qed

text \<open>A value to be returned always stays, and hides the values queued behind it.\<close>

lemma fetch_always:
  assumes "wf m" "path p" "queue m p = (r, v) # q" "r = -1 \<or> r < -1"
  shows "\<exists>m'. fetch_many get m p n = Some (replicate n v, m') \<and> wf m'
    \<and> queue m' p = (if n = 0 \<or> r < -1 then (r, v) else (-2, v)) # q"
  using assms
proof (induction n arbitrary: m r)
  case 0
  then show ?case by simp
next
  case (Suc n)
  obtain m1 where m1: "get m p = Some (Some v, m1)" "wf m1" "queue m1 p = pop_entry (queue m p)"
    using get_queue [OF Suc.prems(1,2)] Suc.prems by auto
  let ?r = "if r = -1 then -2 else r"
  have "queue m1 p = (?r, v) # q" "?r = -1 \<or> ?r < -1"
    using m1(3) Suc.prems(3,4) by (auto simp: pop_entry_def)
  from Suc.IH [OF m1(2) Suc.prems(2) this] show ?case using m1 Suc.prems(4) by auto
qed

end

text \<open>The two symbol maps of the library provide this interface.\<close>

definition fetch :: "sym_node list \<Rightarrow> string list \<Rightarrow> (nat option \<times> sym_node list) option" where
  "fetch ns names =
     (case get_symbol_value ns names of
        Inl e \<Rightarrow> None
      | Inr res \<Rightarrow> Some (gsv_out res, gsv_map res))"

lemma fetch_queue:
  assumes "wf_map d ns" "length names = d" "d \<noteq> 0"
  shows "\<exists>ns'. fetch ns names = Some (case queue_at ns names of [] \<Rightarrow> None | (r, v) # _ \<Rightarrow> Some v, ns')
    \<and> wf_map d ns' \<and> (\<forall>p. length p = d \<longrightarrow>
      queue_at ns' p = (if p = names then pop_entry (queue_at ns names) else queue_at ns p))"
proof -
  obtain res where "get_symbol_value ns names = Inr res" "gsv_spec ns names res"
    using get_symbol_value_correct [of names ns] assms by auto
  then show ?thesis
    using assms by (cases "queue_at ns names") (auto simp: fetch_def gsv_spec_def)
qed

lemma queue_store_of_depth:
  assumes "d \<noteq> 0"
  shows "queue_store (wf_map d) (\<lambda>p. length p = d) queue_at add_symbol_value fetch"
proof
  fix m v r and p :: "string list"
  assume m: "wf_map d m" and p: "length p = d"
  have "p \<noteq> []" and wf: "wf_map (length p) m" using m p assms by auto
  then have q: "wf_map d (add_symbol_value m p v r)"
    "\<And>p'. length p' = d \<Longrightarrow> queue_at (add_symbol_value m p v r) p' =
       (if p' = p then queue_at m p @ [(r, v)] else queue_at m p')"
    using add_symbol_value_queue [of p m v r] p by auto
  show "wf_map d (add_symbol_value m p v r)" by (rule q)
  show "queue_at (add_symbol_value m p v r) p' =
       (if p' = p then queue_at m p @ [(r, v)] else queue_at m p')" if "length p' = d" for p'
    by (rule q(2) [OF that])
  show "\<exists>m'. fetch m p = Some (case queue_at m p of [] \<Rightarrow> None | (r, v) # _ \<Rightarrow> Some v, m') \<and> wf_map d m'
      \<and> (\<forall>p'. length p' = d \<longrightarrow>
           queue_at m' p' = (if p' = p then pop_entry (queue_at m p) else queue_at m p'))"
    by (rule fetch_queue [OF m p assms])
qed

interpretation result_map: queue_store "wf_map 1" "\<lambda>p. length p = 1" queue_at add_symbol_value fetch
  by (rule queue_store_of_depth) simp

interpretation parameter_map: queue_store "wf_map 2" "\<lambda>p. length p = 2" queue_at add_symbol_value fetch
  by (rule queue_store_of_depth) simp

end
