(* ===== verification/Cm_State.thy ===== *)
theory Cm_State
  imports Symbol_Map
begin

unbundle bit_operations_syntax

text \<open>
  The globals of \<^verbatim>\<open>src/cmocka.c\<close> as one record, the heap objects the symbol maps
  point at, and the operations every other component uses: messages
  (\<^verbatim>\<open>vcmocka_print_error\<close>, \<^verbatim>\<open>cm_get_output\<close>), leaving a test
  (\<^verbatim>\<open>exit_test\<close>, \<^verbatim>\<open>_fail\<close>, \<^verbatim>\<open>_skip\<close>, \<^verbatim>\<open>_stop\<close>) and the
  basic assertions. A call of a variadic print function is modelled by the text that it
  formats. Names that start with an underscore in C start with \<open>cm_\<close> here.
\<close>

section \<open>Data\<close>

text \<open>
  \<^verbatim>\<open>CMockaValueData\<close> is a union of 64-bit members; its bits are a word, read as
  \<open>uint\<close>, \<open>sint\<close> or as an address.
\<close>

type_synonym CMockaValueData = "64 word"

text \<open>
  The library's own parameter checks and those of the user, by number. The data of a check
  is the union value or the structure it points at: the set, range or memory that the
  \<^verbatim>\<open>_expect_*\<close> functions copied next to the event.
\<close>

datatype check_fn =
    Check_int_in_set | Check_uint_in_set | Check_not_in_set
  | Check_in_range | Check_not_in_range
  | Check_value | Check_not_value
  | Check_string | Check_not_string
  | Check_memory | Check_not_memory
  | Check_any | Check_user nat

datatype check_data =
    Data_value CMockaValueData
  | Data_set "uintmax list"
  | Data_range uintmax uintmax
  | Data_memory "byte list"

record SymbolValue =
  sv_name :: "string option"
  sv_location :: SourceLocation
  sv_value :: CMockaValueData

record CheckParameterEvent =
  ev_location :: SourceLocation
  ev_parameter_name :: string
  ev_check_value :: check_fn
  ev_check_value_data :: check_data

record FuncOrderingValue =
  fo_location :: SourceLocation
  fo_function :: string

datatype heap_obj =
    Obj_symbol SymbolValue
  | Obj_event CheckParameterEvent
  | Obj_order FuncOrderingValue

record MallocBlockInfoData =
  bi_block :: addr
  bi_allocated_size :: "64 word"
  bi_size :: "64 word"
  bi_location :: SourceLocation

text \<open>
  The last fields are the environment: variables, the text of a pointer (\<^verbatim>\<open>%p\<close>), the
  address of a string literal and of a heap object, and the results of the C library's \<^verbatim>\<open>malloc\<close> by call
  number and size, with what the new memory holds at first; \<open>info_image\<close> is how the compiler
  represents a \<^verbatim>\<open>struct MallocBlockInfoData\<close> as bytes at its addresses. \<open>libc_blocks\<close> are the blocks the
  C library has handed out, with their sizes. \<open>state_cells\<close> are the variables test functions get the address of.
  \<open>files\<close> are the contents of the files that exist, \<open>file_writable\<close> says which paths can be
  opened for writing, \<open>clock_realtime\<close> is the result of \<^verbatim>\<open>clock_gettime\<close> by call number
  (seconds and nanoseconds), \<open>dbl_of_int\<close>, \<open>dbl_add\<close> and \<open>dbl_div\<close> are the arithmetic of
  \<^verbatim>\<open>double\<close>, whose values are words of 64 bits, and \<open>fmt_f3\<close> is the text that \<^verbatim>\<open>%.3f\<close> gives.
\<close>

type_synonym double = "64 word"

record cm_state =
  cm_error_message :: "string option"
  out_stdout :: string
  out_stderr :: string
  global_msg_output :: "32 word"
  env_checked :: bool
  global_running_test :: bool
  global_expecting_assert :: bool
  global_last_failed_assert :: "string option"
  global_skip_test :: bool
  global_stop_test :: bool
  global_function_result_map_head :: "sym_node list"
  global_last_mock_value_location :: SourceLocation
  global_function_parameter_map_head :: "sym_node list"
  global_last_parameter_location :: SourceLocation
  global_call_ordering_head :: "(int \<times> nat) list"
  global_last_call_ordering_location :: SourceLocation
  heap_objs :: "nat \<rightharpoonup> heap_obj"
  next_obj :: nat
  memory :: "addr \<rightharpoonup> byte"
  block_infos :: "addr \<rightharpoonup> MallocBlockInfoData"
  global_allocated_blocks :: "addr list"
  malloc_calls :: nat
  libc_blocks :: "addr \<rightharpoonup> 64 word"
  cm_errno :: int
  global_test_filter_pattern :: "string option"
  global_skip_filter_pattern :: "string option"
  tap_version_printed :: bool
  xml_printed :: bool
  file_append :: bool
  files :: "string \<rightharpoonup> string"
  clock_calls :: nat
  signal_table :: "int \<Rightarrow> nat"
  default_signal_functions :: "nat list"
  state_cells :: "nat \<Rightarrow> addr"
  env_vars :: "string \<Rightarrow> string option"
  fmt_p :: "addr \<Rightarrow> string"
  literal_addr :: "string \<Rightarrow> addr"
  obj_addr :: "nat \<Rightarrow> addr"
  libc_malloc :: "nat \<Rightarrow> 64 word \<Rightarrow> addr"
  libc_garbage :: "nat \<Rightarrow> addr \<Rightarrow> byte"
  info_image :: "MallocBlockInfoData \<Rightarrow> addr \<Rightarrow> byte"
  file_writable :: "string \<Rightarrow> bool"
  clock_realtime :: "nat \<Rightarrow> int \<times> int"
  dbl_of_int :: "int \<Rightarrow> double"
  dbl_add :: "double \<Rightarrow> double \<Rightarrow> double"
  dbl_div :: "double \<Rightarrow> double \<Rightarrow> double"
  fmt_f3 :: "double \<Rightarrow> string"

type_synonym 'a cm = "(cm_state, 'a) prog"

text \<open>The static initialisers of the globals, in a given environment.\<close>

definition initial_state ::
  "(string \<Rightarrow> string option) \<Rightarrow> (addr \<Rightarrow> string) \<Rightarrow> (string \<Rightarrow> addr) \<Rightarrow> (nat \<Rightarrow> addr) \<Rightarrow>
   (nat \<Rightarrow> 64 word \<Rightarrow> addr) \<Rightarrow> (addr \<rightharpoonup> byte) \<Rightarrow> cm_state" where
  "initial_state env ptr_text lit oaddr malloc_fn mem = \<lparr>
     cm_error_message = None, out_stdout = [], out_stderr = [],
     global_msg_output = 1, env_checked = False,
     global_running_test = False, global_expecting_assert = False, global_last_failed_assert = None,
     global_skip_test = False, global_stop_test = False,
     global_function_result_map_head = [], global_last_mock_value_location = initialize_source_location,
     global_function_parameter_map_head = [], global_last_parameter_location = initialize_source_location,
     global_call_ordering_head = [], global_last_call_ordering_location = initialize_source_location,
     heap_objs = Map.empty, next_obj = 0, memory = mem, block_infos = Map.empty,
     global_allocated_blocks = [], malloc_calls = 0, libc_blocks = Map.empty, cm_errno = 0,
     global_test_filter_pattern = None, global_skip_filter_pattern = None,
     tap_version_printed = False, xml_printed = False, file_append = False,
     files = Map.empty, clock_calls = 0, signal_table = (\<lambda>_. 0), default_signal_functions = [],
     state_cells = (\<lambda>_. 0), env_vars = env, fmt_p = ptr_text, literal_addr = lit, obj_addr = oaddr,
     libc_malloc = malloc_fn, libc_garbage = (\<lambda>_ _. 0), info_image = (\<lambda>_ _. 0),
     file_writable = (\<lambda>_. True), clock_realtime = (\<lambda>_. (0, 0)), dbl_of_int = (\<lambda>_. 0),
     dbl_add = (\<lambda>_ _. 0), dbl_div = (\<lambda>_ _. 0), fmt_f3 = (\<lambda>_. [])\<rparr>"

text \<open>The file name that \<^verbatim>\<open>__FILE__\<close> gives inside the library.\<close>

definition cmocka_c :: string where
  "cmocka_c = ''cmocka.c''"

section \<open>Heap objects\<close>

text \<open>Allocation of an object, and \<^verbatim>\<open>free\<close>: releasing what is not live is undefined.\<close>

definition new_object :: "heap_obj \<Rightarrow> nat cm" where
  "new_object ob = (\<lambda>s. (Ret (next_obj s),
     s\<lparr>heap_objs := (heap_objs s)(next_obj s \<mapsto> ob), next_obj := Suc (next_obj s)\<rparr>))"

definition free_object :: "nat \<Rightarrow> unit cm" where
  "free_object p = (\<lambda>s. if heap_objs s p = None then (Undefined, s)
     else (Ret (), s\<lparr>heap_objs := (heap_objs s)(p := None)\<rparr>))"

definition load_object :: "nat \<Rightarrow> heap_obj cm" where
  "load_object p = (\<lambda>s. case heap_objs s p of None \<Rightarrow> (Undefined, s) | Some ob \<Rightarrow> (Ret ob, s))"

section \<open>Messages\<close>

text \<open>
  \<^verbatim>\<open>vcmocka_print_error\<close>: the text is appended to the pending message. A text of 256
  characters or more is formatted a second time with the size \<^verbatim>\<open>len\<close>, which leaves
  room for one character less. Allocation of the message is taken to succeed.
\<close>

definition vcmocka_print_error :: "string \<Rightarrow> unit cm" where
  "vcmocka_print_error txt = modM (\<lambda>s. s\<lparr>cm_error_message := Some
     ((case cm_error_message s of None \<Rightarrow> [] | Some m \<Rightarrow> m)
      @ (if length txt < 256 then txt else take (length txt - 1) txt))\<rparr>)"

definition vprint_message :: "string \<Rightarrow> unit cm" where
  "vprint_message txt = modM (\<lambda>s. s\<lparr>out_stdout := out_stdout s @ txt\<rparr>)"

definition vprint_error :: "string \<Rightarrow> unit cm" where
  "vprint_error txt = modM (\<lambda>s. s\<lparr>out_stderr := out_stderr s @ txt\<rparr>)"

definition print_message :: "string \<Rightarrow> unit cm" where
  "print_message txt = vprint_message txt"

definition print_error :: "string \<Rightarrow> unit cm" where
  "print_error txt = vprint_error txt"

text \<open>\<^verbatim>\<open>static int cm_error_message_enabled = 1\<close>, never assigned.\<close>

definition cm_error_message_enabled :: int where
  "cm_error_message_enabled = 1"

definition cmocka_print_error :: "string \<Rightarrow> unit cm" where
  "cmocka_print_error txt =
     (if cm_error_message_enabled \<noteq> 0 then vcmocka_print_error txt else vprint_error txt)"

section \<open>The selected output formats\<close>

definition CM_OUTPUT_STANDARD :: "32 word" where "CM_OUTPUT_STANDARD = 1"
definition CM_OUTPUT_SUBUNIT :: "32 word" where "CM_OUTPUT_SUBUNIT = 2"
definition CM_OUTPUT_TAP :: "32 word" where "CM_OUTPUT_TAP = 4"
definition CM_OUTPUT_XML :: "32 word" where "CM_OUTPUT_XML = 8"

lemmas output_defs = CM_OUTPUT_STANDARD_def CM_OUTPUT_SUBUNIT_def CM_OUTPUT_TAP_def CM_OUTPUT_XML_def

text \<open>\<^verbatim>\<open>strtok_r\<close> with one separator: the non-empty pieces.\<close>

fun split_at :: "char \<Rightarrow> string \<Rightarrow> string \<Rightarrow> string list" where
  "split_at d acc [] = [rev acc]"
| "split_at d acc (c # s) = (if c = d then rev acc # split_at d [] s else split_at d (c # acc) s)"

definition strtok :: "char \<Rightarrow> string \<Rightarrow> string list" where
  "strtok d s = filter (\<lambda>t. t \<noteq> []) (split_at d [] s)"

definition to_lower :: "char \<Rightarrow> char" where
  "to_lower c = (let n = of_char c :: nat in if 65 \<le> n \<and> n \<le> 90 then char_of (n + 32) else c)"

definition strcasecmp_eq :: "string \<Rightarrow> string \<Rightarrow> bool" where
  "strcasecmp_eq a b \<longleftrightarrow> map to_lower a = map to_lower b"

definition output_bit :: "string \<Rightarrow> 32 word" where
  "output_bit str_output =
     (if strcasecmp_eq str_output ''STANDARD'' then CM_OUTPUT_STANDARD
      else if strcasecmp_eq str_output ''STDOUT'' then CM_OUTPUT_STANDARD
      else if strcasecmp_eq str_output ''SUBUNIT'' then CM_OUTPUT_SUBUNIT
      else if strcasecmp_eq str_output ''TAP'' then CM_OUTPUT_TAP
      else if strcasecmp_eq str_output ''XML'' then CM_OUTPUT_XML else 0)"

definition cm_get_output :: "(32 word) cm" where
  "cm_get_output = (\<lambda>s.
     if env_checked s then (Ret (global_msg_output s), s)
     else case env_vars s ''CMOCKA_MESSAGE_OUTPUT'' of
       None \<Rightarrow> (Ret (global_msg_output s), s)
     | Some env \<Rightarrow>
         if length env = 0 \<or> length env > 32 then (Ret (global_msg_output s), s)
         else let new_output = fold (\<lambda>t acc. acc OR output_bit t) (strtok (CHR '','') env) 0;
                  s1 = (if new_output \<noteq> 0 then s\<lparr>global_msg_output := new_output\<rparr> else s);
                  s2 = s1\<lparr>env_checked := True\<rparr>
              in (Ret (global_msg_output s2), s2))"

definition cmocka_set_message_output :: "32 word \<Rightarrow> unit cm" where
  "cmocka_set_message_output out = modM (\<lambda>s. s\<lparr>global_msg_output := out\<rparr>)"

definition cmocka_set_test_filter :: "string option \<Rightarrow> unit cm" where
  "cmocka_set_test_filter pattern = modM (\<lambda>s. s\<lparr>global_test_filter_pattern := pattern\<rparr>)"

definition cmocka_set_skip_filter :: "string option \<Rightarrow> unit cm" where
  "cmocka_set_skip_filter pattern = modM (\<lambda>s. s\<lparr>global_skip_filter_pattern := pattern\<rparr>)"

section \<open>Leaving a test\<close>

definition EXIT_FAILURE :: int where "EXIT_FAILURE = 1"

definition test_abort :: "cm_state \<Rightarrow> bool" where
  "test_abort s \<longleftrightarrow> env_vars s ''CMOCKA_TEST_ABORT'' = Some ''1''"

definition exit_test :: "bool \<Rightarrow> unit cm" where
  "exit_test quit_application =
     bindM (readM (\<lambda>s. s)) (\<lambda>s.
       if \<not> global_skip_test s \<and> test_abort s
       then seqM (case cm_error_message s of None \<Rightarrow> retM () | Some m \<Rightarrow> print_error m)
                 (throwM Abort)
       else if global_running_test s then throwM Longjmp
       else if quit_application then throwM (Exit EXIT_FAILURE)
       else retM ())"

text \<open>The functions declared \<^verbatim>\<open>CMOCKA_NORETURN\<close> end in a call of \<^verbatim>\<open>exit\<close>.\<close>

definition cm_exit :: "unit cm" where
  "cm_exit = throwM (Exit EXIT_FAILURE)"

definition cm_additional_msg :: "string \<Rightarrow> unit cm" where
  "cm_additional_msg msg = bindM cm_get_output (\<lambda>out.
     seqM (whenM (out AND CM_OUTPUT_STANDARD \<noteq> 0)
             (cmocka_print_error (''[          ] --- '' @ msg @ nl)))
          (whenM (out AND CM_OUTPUT_SUBUNIT \<noteq> 0 \<or> out AND CM_OUTPUT_TAP \<noteq> 0 \<or> out AND CM_OUTPUT_XML \<noteq> 0)
             (cmocka_print_error (msg @ nl))))"

definition cm_fail :: "string \<Rightarrow> int \<Rightarrow> unit cm" where
  "cm_fail fl ln = bindM cm_get_output (\<lambda>out.
     seqM (whenM (out AND CM_OUTPUT_STANDARD \<noteq> 0)
             (cmocka_print_error (''[   LINE   ] --- '' @ fmt_loc (Some fl) ln @ '': error: Failure!'')))
    (seqM (whenM (out AND CM_OUTPUT_SUBUNIT \<noteq> 0 \<or> out AND CM_OUTPUT_TAP \<noteq> 0 \<or> out AND CM_OUTPUT_XML \<noteq> 0)
             (cmocka_print_error (fmt_loc (Some fl) ln @ '': error: Failure!'')))
    (seqM (exit_test True) cm_exit)))"

definition cm_skip :: "string \<Rightarrow> int \<Rightarrow> unit cm" where
  "cm_skip fl ln =
     seqM (cmocka_print_error (fmt_loc (Some fl) ln @ '': Skipped!'' @ nl))
    (seqM (modM (\<lambda>s. s\<lparr>global_skip_test := True\<rparr>))
    (seqM (exit_test True) cm_exit))"

definition cm_stop :: "unit cm" where
  "cm_stop = seqM (modM (\<lambda>s. s\<lparr>global_stop_test := True\<rparr>)) (seqM (exit_test True) cm_exit)"

text \<open>Signals caught while a test runs.\<close>

definition exception_handler :: "string \<Rightarrow> int \<Rightarrow> unit cm" where
  "exception_handler sig_strerror sig =
     seqM (cmocka_print_error (''Test failed with exception: '' @ sig_strerror @ ''('' @ fmt_d sig @ '')''))
    (seqM (exit_test True) cm_exit)"

section \<open>Facts on leaving a test\<close>

lemma neverM_cm_exit: "neverM cm_exit"
  by (simp add: neverM_def cm_exit_def)

lemma neverM_cm_fail: "neverM (cm_fail fl ln)"
  unfolding cm_fail_def by (intro neverM_bind_right neverM_seq_right neverM_cm_exit)

lemma neverM_cm_skip: "neverM (cm_skip fl ln)"
  unfolding cm_skip_def by (intro neverM_seq_right neverM_cm_exit)

lemma neverM_cm_stop: "neverM cm_stop"
  unfolding cm_stop_def by (intro neverM_seq_right neverM_cm_exit)

lemma exit_test_quit:
  "exit_test True s =
     (if \<not> global_skip_test s \<and> test_abort s
      then (Abort, snd ((case cm_error_message s of None \<Rightarrow> retM () | Some m \<Rightarrow> print_error m) s))
      else if global_running_test s then (Longjmp, s) else (Exit EXIT_FAILURE, s))"
  by (auto simp: exit_test_def run_simps print_error_def vprint_error_def split: option.splits)

section \<open>Programs that only write messages\<close>

text \<open>
  \<open>msg_frame s t\<close>: \<open>t\<close> differs from \<open>s\<close> at most in the pending message, in what was
  written to standard error, and in the cached output selection. Every comparison and the
  whole of \<^verbatim>\<open>_fail\<close> stay in this frame, so what they cannot touch is stated once.
\<close>

definition msg_frame :: "cm_state \<Rightarrow> cm_state \<Rightarrow> bool" where
  "msg_frame s t \<longleftrightarrow> t = s\<lparr>cm_error_message := cm_error_message t,
     out_stderr := out_stderr t, global_msg_output := global_msg_output t, env_checked := env_checked t\<rparr>"

definition framesM :: "'a cm \<Rightarrow> bool" where
  "framesM m \<longleftrightarrow> (\<forall>s. msg_frame s (snd (m s)))"

lemma msg_frame_refl [simp]: "msg_frame s s"
  by (simp add: msg_frame_def)

lemma msg_frame_trans: "msg_frame s t \<Longrightarrow> msg_frame t u \<Longrightarrow> msg_frame s u"
  unfolding msg_frame_def by (cases s, cases t, cases u) simp

lemma framesMI: "(\<And>s. msg_frame s (snd (m s))) \<Longrightarrow> framesM m"
  by (simp add: framesM_def)

lemma framesMD: "framesM m \<Longrightarrow> m s = (r, t) \<Longrightarrow> msg_frame s t"
  unfolding framesM_def by (metis snd_conv)

lemma framesM_bindM [cm_mono]:
  assumes "framesM m" and "\<And>x. framesM (f x)"
  shows "framesM (bindM m f)"
proof (rule framesMI)
  fix s
  obtain r s' where m: "m s = (r, s')" by (cases "m s")
  note s' = framesMD [OF assms(1) m]
  show "msg_frame s (snd (bindM m f s))"
  proof (cases r)
    case (Ret x)
    have "msg_frame s' (snd (f x s'))" using assms(2) by (simp add: framesM_def)
    then show ?thesis using msg_frame_trans [OF s'] m Ret by (simp add: bindM_apply)
  qed (use m s' in \<open>simp_all add: bindM_apply\<close>)
qed

lemma framesM_seqM [cm_mono]: "framesM m \<Longrightarrow> framesM n \<Longrightarrow> framesM (seqM m n)"
  by (simp add: seqM_def framesM_bindM)

lemma framesM_basic [cm_mono]:
  "framesM (retM x)" "framesM (throwM e)" "framesM (readM f)"
  by (simp_all add: framesM_def)

lemma framesM_whenM [cm_mono]: "framesM m \<Longrightarrow> framesM (whenM b m)"
  by (simp add: whenM_def framesM_basic)

lemma framesM_if [cm_mono]: "framesM m \<Longrightarrow> framesM n \<Longrightarrow> framesM (if b then m else n)"
  by simp

lemma framesM_option [cm_mono]:
  "framesM m \<Longrightarrow> (\<And>x. framesM (f x)) \<Longrightarrow> framesM (case v of None \<Rightarrow> m | Some x \<Rightarrow> f x)"
  by (cases v) auto

lemma framesM_forM [cm_mono]: "(\<And>x. framesM (f x)) \<Longrightarrow> framesM (forM xs f)"
  by (induction xs) (auto intro: cm_mono)

lemma framesM_print [cm_mono]:
  "framesM (vcmocka_print_error txt)" "framesM (vprint_error txt)" "framesM (print_error txt)"
  "framesM (cmocka_print_error txt)"
  by (simp_all add: framesM_def msg_frame_def vcmocka_print_error_def vprint_error_def
      print_error_def cmocka_print_error_def)

lemma framesM_get_output [cm_mono]: "framesM cm_get_output"
  by (auto simp: framesM_def msg_frame_def cm_get_output_def Let_def split: option.splits)

lemma framesM_exit_test [cm_mono]: "framesM (exit_test q)"
  unfolding exit_test_def by (intro cm_mono)

lemma framesM_fail [cm_mono]: "framesM cm_exit" "framesM (cm_additional_msg msg)" "framesM (cm_fail fl ln)"
  unfolding cm_exit_def cm_additional_msg_def cm_fail_def by (intro cm_mono)+

lemma framesM_exception_handler [cm_mono]: "framesM (exception_handler e sig)"
  unfolding exception_handler_def by (intro cm_mono)

text \<open>
  A predicate that does not read those fields is kept by all of them. The components
  interpret this contract for their own invariants.
\<close>

locale message_blind =
  fixes P :: "cm_state \<Rightarrow> bool"
  assumes blind: "\<And>s t. msg_frame s t \<Longrightarrow> P s \<Longrightarrow> P t"
begin

lemma keeps_framed: "framesM m \<Longrightarrow> keepsM P m"
  unfolding keepsM_def framesM_def using blind by blast

lemma keeps_fail: "keepsM P (cm_fail fl ln)"
  by (rule keeps_framed) (rule framesM_fail)

lemma keeps_print: "keepsM P (cmocka_print_error txt)"
  by (rule keeps_framed) (rule framesM_print)

lemma keeps_exit: "keepsM P (exit_test q)"
  by (rule keeps_framed) (rule framesM_exit_test)

end

section \<open>How a test is left\<close>

text \<open>
  The outcome of \<^verbatim>\<open>exit_test(true)\<close>: \<^verbatim>\<open>abort\<close> when the environment asks for
  it and the test is not being skipped, the jump back to the runner while a test runs, the
  end of the process otherwise.
\<close>

definition failure_outcome :: "cm_state \<Rightarrow> 'a outcome" where
  "failure_outcome s =
     (if \<not> global_skip_test s \<and> test_abort s then Abort
      else if global_running_test s then Longjmp else Exit EXIT_FAILURE)"

lemma msg_frame_fields:
  assumes "msg_frame s t"
  shows "global_skip_test t = global_skip_test s" "env_vars t = env_vars s"
    "global_running_test t = global_running_test s" "memory t = memory s" "heap_objs t = heap_objs s"
    "global_function_result_map_head t = global_function_result_map_head s"
    "global_function_parameter_map_head t = global_function_parameter_map_head s"
    "global_call_ordering_head t = global_call_ordering_head s"
    "global_expecting_assert t = global_expecting_assert s"
    "global_stop_test t = global_stop_test s"
    "global_allocated_blocks t = global_allocated_blocks s" "block_infos t = block_infos s"
    "next_obj t = next_obj s" "fmt_p t = fmt_p s" "out_stdout t = out_stdout s"
    "malloc_calls t = malloc_calls s" "libc_malloc t = libc_malloc s"
    "libc_blocks t = libc_blocks s" "libc_garbage t = libc_garbage s"
    "signal_table t = signal_table s" "default_signal_functions t = default_signal_functions s"
    "state_cells t = state_cells s" "info_image t = info_image s"
  by (subst assms [unfolded msg_frame_def], simp)+

lemma failure_outcome_frame: "msg_frame s t \<Longrightarrow> failure_outcome t = failure_outcome s"
  by (simp add: failure_outcome_def test_abort_def msg_frame_fields)

lemma failure_outcome_not_Ret [simp]: "failure_outcome s \<noteq> Ret x" "failure_outcome s \<noteq> Undefined"
    "failure_outcome s \<noteq> Assert_longjmp"
  by (simp_all add: failure_outcome_def)

lemma exit_test_outcome: "fst (exit_test True s) = failure_outcome s"
  by (auto simp: failure_outcome_def exit_test_quit)

text \<open>\<open>failsM m\<close>: the program always leaves the test.\<close>

definition failsM :: "'a cm \<Rightarrow> bool" where
  "failsM m \<longleftrightarrow> framesM m \<and> (\<forall>s. fst (m s) = failure_outcome s)"

definition returnsM :: "'a cm \<Rightarrow> bool" where
  "returnsM m \<longleftrightarrow> framesM m \<and> (\<forall>s. \<exists>x. fst (m s) = Ret x)"

lemma failsM_exit [cm_mono]: "framesM m \<Longrightarrow> failsM (seqM (exit_test True) m)"
  by (simp add: failsM_def cm_mono seqM_apply bindM_apply exit_test_quit failure_outcome_def)

lemma failsM_exit_test [cm_mono]: "failsM (exit_test True)"
  by (simp add: failsM_def cm_mono exit_test_quit failure_outcome_def)

lemma failsM_bind [cm_mono]:
  assumes "returnsM m" and "\<And>x. failsM (f x)"
  shows "failsM (bindM m f)"
  unfolding failsM_def
proof (intro conjI allI)
  show "framesM (bindM m f)"
    using assms by (auto simp: failsM_def returnsM_def intro!: cm_mono)
  fix s
  obtain x t where m: "m s = (Ret x, t)"
    using assms(1) by (metis returnsM_def prod.collapse)
  moreover have "msg_frame s t" using assms(1) m framesMD by (auto simp: returnsM_def)
  ultimately show "fst (bindM m f s) = failure_outcome s"
    using assms(2) by (simp add: bindM_apply failsM_def failure_outcome_frame)
qed

lemma failsM_seq [cm_mono]: "returnsM m \<Longrightarrow> failsM n \<Longrightarrow> failsM (seqM m n)"
  by (simp add: seqM_def failsM_bind)

lemma returnsM_bind [cm_mono]:
  assumes "returnsM m" and "\<And>x. returnsM (f x)"
  shows "returnsM (bindM m f)"
  unfolding returnsM_def
proof (intro conjI allI)
  show "framesM (bindM m f)"
    using assms by (auto simp: returnsM_def intro!: cm_mono)
  fix s
  obtain x t where "m s = (Ret x, t)"
    using assms(1) by (metis returnsM_def prod.collapse)
  then show "\<exists>x. fst (bindM m f s) = Ret x"
    using assms(2) by (simp add: bindM_apply returnsM_def)
qed

lemma returnsM_seq [cm_mono]: "returnsM m \<Longrightarrow> returnsM n \<Longrightarrow> returnsM (seqM m n)"
  by (simp add: seqM_def returnsM_bind)

lemma returnsM_basic [cm_mono]: "returnsM (retM x)" "returnsM (readM f)"
  by (simp_all add: returnsM_def framesM_basic)

lemma returnsM_whenM [cm_mono]: "returnsM m \<Longrightarrow> returnsM (whenM b m)"
  by (simp add: whenM_def returnsM_basic)

lemma returnsM_if [cm_mono]: "returnsM m \<Longrightarrow> returnsM n \<Longrightarrow> returnsM (if b then m else n)"
  by simp

lemma returnsM_forM [cm_mono]: "(\<And>x. returnsM (f x)) \<Longrightarrow> returnsM (forM xs f)"
  by (induction xs) (auto intro: cm_mono)

lemma returnsM_print [cm_mono]: "returnsM (cmocka_print_error txt)"
  by (simp add: returnsM_def cm_mono)
     (simp add: cmocka_print_error_def vcmocka_print_error_def vprint_error_def)

lemma returnsM_get_output [cm_mono]: "returnsM cm_get_output"
  by (simp add: returnsM_def cm_mono) (auto simp: cm_get_output_def Let_def split: option.splits)

lemma returnsM_additional_msg [cm_mono]: "returnsM (cm_additional_msg msg)"
  unfolding cm_additional_msg_def by (intro cm_mono)

lemma failsM_fail [cm_mono]: "failsM (cm_fail fl ln)"
  unfolding cm_fail_def by (intro cm_mono)

lemma failsM_exception_handler [cm_mono]: "failsM (exception_handler e sig)"
  unfolding exception_handler_def by (intro cm_mono)

lemma failsM_outcome: "failsM m \<Longrightarrow> fst (m s) = failure_outcome s"
  by (simp add: failsM_def)

lemma returnsM_framesM: "returnsM m \<Longrightarrow> framesM m"
  by (simp add: returnsM_def)

lemma failsM_framesM: "failsM m \<Longrightarrow> framesM m"
  by (simp add: failsM_def)

lemma returnsM_run: "returnsM m \<Longrightarrow> \<exists>x t. m s = (Ret x, t) \<and> msg_frame s t"
  unfolding returnsM_def framesM_def by (metis prod.collapse)

lemma returnsM_unit:
  assumes "returnsM (m :: unit cm)"
  shows "\<exists>t. m s = (Ret (), t) \<and> msg_frame s t"
proof -
  obtain x where "fst (m s) = Ret x" using assms unfolding returnsM_def by blast
  moreover have "msg_frame s (snd (m s))" using assms by (simp add: returnsM_def framesM_def)
  ultimately show ?thesis by (cases "m s") simp
qed

text \<open>What decides how a test is left: messages do not change it.\<close>

definition control :: "cm_state \<Rightarrow> bool \<times> bool \<times> (string \<Rightarrow> string option)" where
  "control s = (global_skip_test s, global_running_test s, env_vars s)"

interpretation controls: message_blind "\<lambda>s. control s = c" for c
  by unfold_locales (simp add: control_def msg_frame_fields)

lemma failure_outcome_control: "control t = control s \<Longrightarrow> failure_outcome t = failure_outcome s"
  by (simp add: control_def failure_outcome_def test_abort_def)

end
