(* ===== verification/Display_Error.thy ===== *)
theory Display_Error
  imports Cm_State "HOL-Library.Monad_Syntax"
begin

text \<open>
  The comparisons of \<^verbatim>\<open>src/cmocka.c\<close> that report why they fail
  (\<^verbatim>\<open>*_display_error\<close>), with the hexadecimal dump of differing memory, and the
  assertions built on them (\<^verbatim>\<open>_assert_*\<close>, \<^verbatim>\<open>mock_assert\<close>). Strings and memory
  areas are read from the byte memory of the state; reading an address that is not mapped
  is undefined.
\<close>

section \<open>Integers and pointers\<close>

definition display_if_not :: "bool \<Rightarrow> string \<Rightarrow> bool cm" where
  "display_if_not ok txt = seqM (whenM (\<not> ok) (cmocka_print_error txt)) (retM ok)"

definition fmt_ju_jx :: "uintmax \<Rightarrow> string" where
  "fmt_ju_jx x = fmt_u (unat x) @ '' ('' @ fmt_hash_x (unat x) @ '')''"

definition uint_values_equal_display_error :: "uintmax \<Rightarrow> uintmax \<Rightarrow> bool cm" where
  "uint_values_equal_display_error left right =
     display_if_not (left = right) (fmt_ju_jx left @ '' != '' @ fmt_ju_jx right @ nl)"

text \<open>\<^verbatim>\<open>intmax_t\<close> values are the same 64 bits, printed and compared as signed.\<close>

definition int_values_equal_display_error :: "64 word \<Rightarrow> 64 word \<Rightarrow> bool cm" where
  "int_values_equal_display_error left right =
     display_if_not (sint left = sint right) (fmt_d (sint left) @ '' != '' @ fmt_d (sint right) @ nl)"

definition uint_values_not_equal_display_error :: "uintmax \<Rightarrow> uintmax \<Rightarrow> bool cm" where
  "uint_values_not_equal_display_error left right =
     display_if_not (left \<noteq> right) (fmt_ju_jx left @ '' == '' @ fmt_ju_jx right @ nl)"

definition int_values_not_equal_display_error :: "64 word \<Rightarrow> 64 word \<Rightarrow> bool cm" where
  "int_values_not_equal_display_error left right =
     display_if_not (sint left \<noteq> sint right) (fmt_d (sint left) @ '' == '' @ fmt_d (sint right) @ nl)"

definition ptr_values_equal_display_error :: "addr \<Rightarrow> addr \<Rightarrow> bool cm" where
  "ptr_values_equal_display_error left right = bindM (readM fmt_p) (\<lambda>p.
     display_if_not (left = right) (p left @ '' != '' @ p right @ nl))"

definition ptr_values_not_equal_display_error :: "addr \<Rightarrow> addr \<Rightarrow> bool cm" where
  "ptr_values_not_equal_display_error left right = bindM (readM fmt_p) (\<lambda>p.
     display_if_not (left \<noteq> right) (p left @ '' == '' @ p right @ nl))"

section \<open>Sets and ranges\<close>

text \<open>The search loop: the flag is inverted once, at the first element that is equal.\<close>

fun set_loop :: "uintmax \<Rightarrow> uintmax list \<Rightarrow> bool \<Rightarrow> bool" where
  "set_loop v [] succeeded = succeeded"
| "set_loop v (x # xs) succeeded = (if x = v then \<not> succeeded else set_loop v xs succeeded)"

definition not_in_text :: "bool \<Rightarrow> string" where
  "not_in_text invert = (if invert then [] else ''not '')"

definition value_in_set_display_error :: "uintmax \<Rightarrow> uintmax list \<Rightarrow> bool \<Rightarrow> bool cm" where
  "value_in_set_display_error v vals invert =
     (if set_loop v vals invert then retM True
      else seqM (cmocka_print_error (fmt_u (unat v) @ '' is '' @ not_in_text invert @ ''in the set (''))
          (seqM (forM vals (\<lambda>x. cmocka_print_error (fmt_hash_x (unat x) @ '', '')))
          (seqM (cmocka_print_error ('')'' @ nl)) (retM False))))"

text \<open>The two other variants put a comma between the elements only.\<close>

fun comma_list :: "('x \<Rightarrow> string) \<Rightarrow> 'x list \<Rightarrow> string list" where
  "comma_list f [] = []"
| "comma_list f [x] = [f x]"
| "comma_list f (x # y # zs) = (f x @ '', '') # comma_list f (y # zs)"

definition int_value_in_set_display_error :: "64 word \<Rightarrow> (64 word) list \<Rightarrow> bool \<Rightarrow> bool cm" where
  "int_value_in_set_display_error v vals invert =
     (if set_loop v vals invert then retM True
      else seqM (cmocka_print_error (fmt_d (sint v) @ '' is '' @ not_in_text invert @ ''in the set (''))
          (seqM (forM (comma_list (\<lambda>x. fmt_d (sint x)) vals) cmocka_print_error)
          (seqM (cmocka_print_error ('')'' @ nl)) (retM False))))"

definition uint_value_in_set_display_error :: "uintmax \<Rightarrow> uintmax list \<Rightarrow> bool \<Rightarrow> bool cm" where
  "uint_value_in_set_display_error v vals invert =
     (if set_loop v vals invert then retM True
      else seqM (cmocka_print_error (fmt_u (unat v) @ '' is '' @ not_in_text invert @ ''in the set (''))
          (seqM (forM (comma_list (\<lambda>x. fmt_u (unat x)) vals) cmocka_print_error)
          (seqM (cmocka_print_error ('')'' @ nl)) (retM False))))"

definition uint_in_range_display_error :: "uintmax \<Rightarrow> uintmax \<Rightarrow> uintmax \<Rightarrow> bool cm" where
  "uint_in_range_display_error v range_min range_max =
     (if v \<ge> range_min \<and> v \<le> range_max then retM True
      else seqM (cmocka_print_error (fmt_u (unat v) @ '' is not within the range ['' @
                  fmt_u (unat range_min) @ '', '' @ fmt_u (unat range_max) @ '']'' @ nl)) (retM False))"

definition int_in_range_display_error :: "64 word \<Rightarrow> 64 word \<Rightarrow> 64 word \<Rightarrow> bool cm" where
  "int_in_range_display_error v range_min range_max =
     (if sint v \<ge> sint range_min \<and> sint v \<le> sint range_max then retM True
      else seqM (cmocka_print_error (fmt_d (sint v) @ '' is not within the range ['' @
                  fmt_d (sint range_min) @ '', '' @ fmt_d (sint range_max) @ '']'' @ nl)) (retM False))"

definition int_not_in_range_display_error :: "64 word \<Rightarrow> 64 word \<Rightarrow> 64 word \<Rightarrow> bool cm" where
  "int_not_in_range_display_error v range_min range_max =
     (if sint v < sint range_min \<or> sint v > sint range_max then retM True
      else seqM (cmocka_print_error (fmt_d (sint v) @ '' is within the range ['' @
                  fmt_d (sint range_min) @ '', '' @ fmt_d (sint range_max) @ '']'' @ nl)) (retM False))"

definition uint_not_in_range_display_error :: "uintmax \<Rightarrow> uintmax \<Rightarrow> uintmax \<Rightarrow> bool cm" where
  "uint_not_in_range_display_error v range_min range_max =
     (if v < range_min \<or> v > range_max then retM True
      else seqM (cmocka_print_error (fmt_u (unat v) @ '' is within the range ['' @
                  fmt_u (unat range_min) @ '', '' @ fmt_u (unat range_max) @ '']'' @ nl)) (retM False))"

definition integer_not_in_range_display_error :: "uintmax \<Rightarrow> uintmax \<Rightarrow> uintmax \<Rightarrow> bool cm" where
  "integer_not_in_range_display_error v range_min range_max =
     (if v < range_min \<or> v > range_max then retM True
      else seqM (cmocka_print_error (fmt_u (unat v) @ '' is within the range '' @
                  fmt_u (unat range_min) @ ''-'' @ fmt_u (unat range_max) @ nl)) (retM False))"

section \<open>Strings\<close>

text \<open>
  The string at an address: \<open>None\<close> when an unmapped address is met before the terminator.
\<close>

partial_function (option) bytes_to_nul :: "(addr \<rightharpoonup> byte) \<Rightarrow> addr \<Rightarrow> byte list option" where
  "bytes_to_nul m a = do {
     b \<leftarrow> m a;
     if b = 0 then Some [] else do { bs \<leftarrow> bytes_to_nul m (a + 1); Some (b # bs) } }"

definition string_of_bytes :: "byte list \<Rightarrow> string" where
  "string_of_bytes bs = map (\<lambda>b. char_of (unat b)) bs"

definition string_at :: "addr \<Rightarrow> string cm" where
  "string_at a = (\<lambda>s. case bytes_to_nul (memory s) a of
       None \<Rightarrow> (Undefined, s) | Some bs \<Rightarrow> (Ret (string_of_bytes bs), s))"

definition string_equal_display_error :: "addr \<Rightarrow> addr \<Rightarrow> bool cm" where
  "string_equal_display_error left right =
     bindM (string_at left) (\<lambda>l. bindM (string_at right) (\<lambda>r.
       if l = r then retM True
       else seqM (cmocka_print_error ([CHR 0x22] @ l @ [CHR 0x22] @ '' != '' @ [CHR 0x22] @ r @ [CHR 0x22] @ nl))
                 (retM False)))"

definition string_not_equal_display_error :: "addr \<Rightarrow> addr \<Rightarrow> bool cm" where
  "string_not_equal_display_error left right =
     bindM (string_at left) (\<lambda>l. bindM (string_at right) (\<lambda>r.
       if l \<noteq> r then retM True
       else seqM (cmocka_print_error ([CHR 0x22] @ l @ [CHR 0x22] @ '' == '' @ [CHR 0x22] @ r @ [CHR 0x22] @ nl))
                 (retM False)))"

section \<open>Memory\<close>

fun bytes_at :: "(addr \<rightharpoonup> byte) \<Rightarrow> addr \<Rightarrow> nat \<Rightarrow> byte list option" where
  "bytes_at m a 0 = Some []"
| "bytes_at m a (Suc n) = do { b \<leftarrow> m a; bs \<leftarrow> bytes_at m (a + 1) n; Some (b # bs) }"

definition memory_at :: "addr \<Rightarrow> nat \<Rightarrow> byte list cm" where
  "memory_at a n = (\<lambda>s. case bytes_at (memory s) a n of
       None \<Rightarrow> (Undefined, s) | Some bs \<Rightarrow> (Ret bs, s))"

text \<open>\<^verbatim>\<open>memcmp(buf, buf + 1, len - 1) == 0\<close> compares the buffer with itself, shifted.\<close>

definition all_zero :: "byte list \<Rightarrow> bool" where
  "all_zero buf = (case buf of [] \<Rightarrow> True | b # bs \<Rightarrow> b = 0 \<and> butlast buf = bs)"

definition isprint :: "byte \<Rightarrow> bool" where
  "isprint b \<longleftrightarrow> 32 \<le> unat b \<and> unat b \<le> 126"

definition cmocka_print_ascii :: "byte list \<Rightarrow> string list" where
  "cmocka_print_ascii buf = map (\<lambda>b. [if isprint b then char_of (unat b) else CHR ''.'']) buf"

text \<open>\<^verbatim>\<open>print_data_block16\<close>: the texts of its print calls, for at most 16 bytes.\<close>

definition print_data_block16 :: "string \<Rightarrow> nat \<Rightarrow> byte list \<Rightarrow> string list" where
  "print_data_block16 prefix idx buf =
     (prefix @ ''['' @ pad0 8 (fmt_x idx) @ '']'')
     # concat (map (\<lambda>i. (if i = 8 then [''  ''] else [])
          @ [if i < length buf then '' '' @ pad0 2 (fmt_x (unat (buf ! i))) else ''   '']) [0..<16])
     @ [''   '']
     @ (if buf = [] then [''EMPTY   BLOCK'' @ nl]
        else concat (map (\<lambda>i. (if i = 8 then ['' ''] else []) @ cmocka_print_ascii [buf ! i])
               [0..<length buf]) @ [nl])"

text \<open>
  \<^verbatim>\<open>print_data_diff\<close>: the body of its loop for the block at offset \<open>i\<close> gives the
  texts it prints and the new value of \<^verbatim>\<open>skipped\<close>.
\<close>

definition skips_block :: "byte list \<Rightarrow> byte list \<Rightarrow> bool \<Rightarrow> nat \<Rightarrow> bool" where
  "skips_block buf1 buf2 omit_zero_bytes i \<longleftrightarrow>
     (let this1 = take 16 (drop i buf1); this2 = take 16 (drop i buf2) in
      omit_zero_bytes \<and> i > 0 \<and> max (length buf1) (length buf2) - i > 16
      \<and> length this1 = 16 \<and> all_zero this1 \<and> length this2 = 16 \<and> all_zero this2)"

definition print_data_diff_block ::
  "byte list \<Rightarrow> byte list \<Rightarrow> bool \<Rightarrow> nat \<Rightarrow> bool \<Rightarrow> string list \<times> bool" where
  "print_data_diff_block buf1 buf2 omit_zero_bytes i skipped =
     (let this1 = take 16 (drop i buf1); this2 = take 16 (drop i buf2) in
      if skips_block buf1 buf2 omit_zero_bytes i
      then (if skipped then [] else [''SKIPPING ZERO BUFFER BYTES'' @ nl], True)
      else if this1 = this2 then (print_data_block16 ''  '' i this1, False)
      else (print_data_block16 ''- '' i this1 @ print_data_block16 ''+ '' i this2, False))"

function print_data_diff_from ::
  "byte list \<Rightarrow> byte list \<Rightarrow> bool \<Rightarrow> nat \<Rightarrow> bool \<Rightarrow> string list" where
  "print_data_diff_from buf1 buf2 omit_zero_bytes i skipped =
     (if i < max (length buf1) (length buf2)
      then fst (print_data_diff_block buf1 buf2 omit_zero_bytes i skipped)
           @ print_data_diff_from buf1 buf2 omit_zero_bytes (i + 16)
               (snd (print_data_diff_block buf1 buf2 omit_zero_bytes i skipped))
      else [])"
  by pat_completeness auto
termination
  by (relation "measure (\<lambda>(b1, b2, om, i, sk). max (length b1) (length b2) - i)") auto

declare print_data_diff_from.simps [simp del]

definition print_data_diff :: "byte list \<Rightarrow> byte list \<Rightarrow> bool \<Rightarrow> string list" where
  "print_data_diff buf1 buf2 omit_zero_bytes = print_data_diff_from buf1 buf2 omit_zero_bytes 0 False"

definition memory_equal_bytes :: "byte list \<Rightarrow> byte list \<Rightarrow> bool cm" where
  "memory_equal_bytes x y =
     (if x = y then retM True
      else seqM (cmocka_print_error (''Memory is not equal:'' @ nl @ nl))
          (seqM (forM (print_data_diff x y True) cmocka_print_error)
          (seqM (cmocka_print_error nl) (retM False))))"

definition memory_equal_display_error :: "addr \<Rightarrow> addr \<Rightarrow> 64 word \<Rightarrow> bool cm" where
  "memory_equal_display_error a b sz =
     bindM (memory_at a (unat sz)) (\<lambda>x. bindM (memory_at b (unat sz)) (\<lambda>y. memory_equal_bytes x y))"

text \<open>The counting loop of \<^verbatim>\<open>memory_not_equal_display_error\<close>.\<close>

fun count_same :: "byte list \<Rightarrow> byte list \<Rightarrow> nat" where
  "count_same (x # xs) (y # ys) = (if x = y then Suc (count_same xs ys) else count_same xs ys)"
| "count_same xs ys = 0"

definition memory_not_equal_bytes :: "byte list \<Rightarrow> byte list \<Rightarrow> addr \<Rightarrow> addr \<Rightarrow> bool cm" where
  "memory_not_equal_bytes x y a b =
     (let same = count_same x y in
      if same = length x
      then bindM (readM fmt_p) (\<lambda>p.
             seqM (cmocka_print_error (fmt_d (int same) @ ''bytes of '' @ p a @ '' and '' @ p b @ '' the same'' @ nl))
                  (retM False))
      else retM True)"

definition memory_not_equal_display_error :: "addr \<Rightarrow> addr \<Rightarrow> 64 word \<Rightarrow> bool cm" where
  "memory_not_equal_display_error a b sz =
     bindM (memory_at a (unat sz)) (\<lambda>x. bindM (memory_at b (unat sz)) (\<lambda>y.
       memory_not_equal_bytes x y a b))"

end
