(* ===== verification/Assertions.thy ===== *)
theory Assertions
  imports Display_Error
begin

text \<open>
  The assertions of \<^verbatim>\<open>src/cmocka.c\<close> (\<^verbatim>\<open>_assert_*\<close>, \<^verbatim>\<open>mock_assert\<close>) and
  the macros of \<^verbatim>\<open>include/cmocka.h\<close> that do more than pass the source location on.
  The theorems say when each returns, that it leaves every other part of the state alone,
  and where control goes when it does not return.
\<close>

section \<open>The assertion functions\<close>

definition fail_unless :: "bool cm \<Rightarrow> string \<Rightarrow> int \<Rightarrow> unit cm" where
  "fail_unless m fl ln = bindM m (\<lambda>ok. whenM (\<not> ok) (cm_fail fl ln))"

definition mock_assert :: "bool \<Rightarrow> string \<Rightarrow> string \<Rightarrow> int \<Rightarrow> unit cm" where
  "mock_assert result expression fl ln =
     whenM (\<not> result) (bindM (readM global_expecting_assert) (\<lambda>expecting.
       if expecting
       then seqM (modM (\<lambda>s. s\<lparr>global_last_failed_assert := Some expression\<rparr>)) (throwM Assert_longjmp)
       else seqM (cmocka_print_error (''ASSERT: '' @ expression @ nl)) (cm_fail fl ln)))"

definition cm_assert_true :: "uintmax \<Rightarrow> string \<Rightarrow> string \<Rightarrow> int \<Rightarrow> unit cm" where
  "cm_assert_true result expression fl ln =
     whenM (result = 0) (seqM (cmocka_print_error (expression @ '' is not true'' @ nl)) (cm_fail fl ln))"

definition cm_assert_false :: "uintmax \<Rightarrow> string \<Rightarrow> string \<Rightarrow> int \<Rightarrow> unit cm" where
  "cm_assert_false result expression fl ln =
     whenM (result \<noteq> 0) (seqM (cmocka_print_error (expression @ '' is not false'' @ nl)) (cm_fail fl ln))"

text \<open>The text of an error number comes from the C library's \<^verbatim>\<open>strerror\<close>.\<close>

definition cm_assert_return_code ::
  "(32 word \<Rightarrow> string) \<Rightarrow> 64 word \<Rightarrow> 32 word \<Rightarrow> string \<Rightarrow> string \<Rightarrow> int \<Rightarrow> unit cm" where
  "cm_assert_return_code strerror result error expression fl ln =
     whenM (sint result < 0)
       (seqM (if sint error > 0
              then cmocka_print_error (expression @ '' < 0, errno('' @ fmt_d (sint error) @ ''): '' @ strerror error @ nl)
              else cmocka_print_error (expression @ '' < 0'' @ nl))
             (cm_fail fl ln))"

definition cm_assert_int_equal :: "64 word \<Rightarrow> 64 word \<Rightarrow> string \<Rightarrow> int \<Rightarrow> unit cm" where
  "cm_assert_int_equal a b fl ln = fail_unless (int_values_equal_display_error a b) fl ln"

definition cm_assert_int_not_equal :: "64 word \<Rightarrow> 64 word \<Rightarrow> string \<Rightarrow> int \<Rightarrow> unit cm" where
  "cm_assert_int_not_equal a b fl ln = fail_unless (int_values_not_equal_display_error a b) fl ln"

definition cm_assert_uint_equal :: "uintmax \<Rightarrow> uintmax \<Rightarrow> string \<Rightarrow> int \<Rightarrow> unit cm" where
  "cm_assert_uint_equal a b fl ln = fail_unless (uint_values_equal_display_error a b) fl ln"

definition cm_assert_uint_not_equal :: "uintmax \<Rightarrow> uintmax \<Rightarrow> string \<Rightarrow> int \<Rightarrow> unit cm" where
  "cm_assert_uint_not_equal a b fl ln = fail_unless (uint_values_not_equal_display_error a b) fl ln"

definition cm_assert_ptr_equal_msg :: "addr \<Rightarrow> addr \<Rightarrow> string \<Rightarrow> int \<Rightarrow> string option \<Rightarrow> unit cm" where
  "cm_assert_ptr_equal_msg a b fl ln msg = bindM (ptr_values_equal_display_error a b) (\<lambda>ok.
     whenM (\<not> ok) (seqM (case msg of None \<Rightarrow> retM () | Some m \<Rightarrow> cm_additional_msg m) (cm_fail fl ln)))"

definition cm_assert_ptr_not_equal_msg :: "addr \<Rightarrow> addr \<Rightarrow> string \<Rightarrow> int \<Rightarrow> string option \<Rightarrow> unit cm" where
  "cm_assert_ptr_not_equal_msg a b fl ln msg = bindM (ptr_values_not_equal_display_error a b) (\<lambda>ok.
     whenM (\<not> ok) (seqM (case msg of None \<Rightarrow> retM () | Some m \<Rightarrow> cm_additional_msg m) (cm_fail fl ln)))"

definition cm_assert_string_equal :: "addr \<Rightarrow> addr \<Rightarrow> string \<Rightarrow> int \<Rightarrow> unit cm" where
  "cm_assert_string_equal a b fl ln = fail_unless (string_equal_display_error a b) fl ln"

definition cm_assert_string_not_equal :: "addr \<Rightarrow> addr \<Rightarrow> string \<Rightarrow> int \<Rightarrow> unit cm" where
  "cm_assert_string_not_equal a b fl ln = fail_unless (string_not_equal_display_error a b) fl ln"

definition cm_assert_memory_equal :: "addr \<Rightarrow> addr \<Rightarrow> 64 word \<Rightarrow> string \<Rightarrow> int \<Rightarrow> unit cm" where
  "cm_assert_memory_equal a b sz fl ln = fail_unless (memory_equal_display_error a b sz) fl ln"

definition cm_assert_memory_not_equal :: "addr \<Rightarrow> addr \<Rightarrow> 64 word \<Rightarrow> string \<Rightarrow> int \<Rightarrow> unit cm" where
  "cm_assert_memory_not_equal a b sz fl ln = fail_unless (memory_not_equal_display_error a b sz) fl ln"

definition cm_assert_int_in_range :: "64 word \<Rightarrow> 64 word \<Rightarrow> 64 word \<Rightarrow> string \<Rightarrow> int \<Rightarrow> unit cm" where
  "cm_assert_int_in_range v mn mx fl ln = fail_unless (int_in_range_display_error v mn mx) fl ln"

definition cm_assert_int_not_in_range :: "64 word \<Rightarrow> 64 word \<Rightarrow> 64 word \<Rightarrow> string \<Rightarrow> int \<Rightarrow> unit cm" where
  "cm_assert_int_not_in_range v mn mx fl ln = fail_unless (int_not_in_range_display_error v mn mx) fl ln"

definition cm_assert_uint_in_range :: "uintmax \<Rightarrow> uintmax \<Rightarrow> uintmax \<Rightarrow> string \<Rightarrow> int \<Rightarrow> unit cm" where
  "cm_assert_uint_in_range v mn mx fl ln = fail_unless (uint_in_range_display_error v mn mx) fl ln"

definition cm_assert_uint_not_in_range :: "uintmax \<Rightarrow> uintmax \<Rightarrow> uintmax \<Rightarrow> string \<Rightarrow> int \<Rightarrow> unit cm" where
  "cm_assert_uint_not_in_range v mn mx fl ln = fail_unless (uint_not_in_range_display_error v mn mx) fl ln"

definition cm_assert_not_in_set :: "uintmax \<Rightarrow> uintmax list \<Rightarrow> string \<Rightarrow> int \<Rightarrow> unit cm" where
  "cm_assert_not_in_set v vals fl ln = fail_unless (uint_value_in_set_display_error v vals True) fl ln"

definition cm_assert_int_in_set :: "64 word \<Rightarrow> (64 word) list \<Rightarrow> string \<Rightarrow> int \<Rightarrow> unit cm" where
  "cm_assert_int_in_set v vals fl ln = fail_unless (int_value_in_set_display_error v vals False) fl ln"

definition cm_assert_int_not_in_set :: "64 word \<Rightarrow> (64 word) list \<Rightarrow> string \<Rightarrow> int \<Rightarrow> unit cm" where
  "cm_assert_int_not_in_set v vals fl ln = fail_unless (int_value_in_set_display_error v vals True) fl ln"

definition cm_assert_uint_in_set :: "uintmax \<Rightarrow> uintmax list \<Rightarrow> string \<Rightarrow> int \<Rightarrow> unit cm" where
  "cm_assert_uint_in_set v vals fl ln = fail_unless (uint_value_in_set_display_error v vals False) fl ln"

definition cm_assert_uint_not_in_set :: "uintmax \<Rightarrow> uintmax list \<Rightarrow> string \<Rightarrow> int \<Rightarrow> unit cm" where
  "cm_assert_uint_not_in_set v vals fl ln = fail_unless (uint_value_in_set_display_error v vals True) fl ln"

section \<open>Macros of the header\<close>

definition assert_non_null :: "addr \<Rightarrow> string \<Rightarrow> int \<Rightarrow> unit cm" where
  "assert_non_null c fl ln = cm_assert_ptr_not_equal_msg c 0 fl ln None"

definition assert_null :: "addr \<Rightarrow> string \<Rightarrow> int \<Rightarrow> unit cm" where
  "assert_null c fl ln = cm_assert_ptr_equal_msg c 0 fl ln None"

text \<open>The set macros copy the values into an array of the right type, and only if there are any.\<close>

definition assert_int_in_set :: "64 word \<Rightarrow> (64 word) list \<Rightarrow> string \<Rightarrow> int \<Rightarrow> unit cm" where
  "assert_int_in_set v vals fl ln = whenM (length vals > 0) (cm_assert_int_in_set v vals fl ln)"

definition assert_int_not_in_set :: "64 word \<Rightarrow> (64 word) list \<Rightarrow> string \<Rightarrow> int \<Rightarrow> unit cm" where
  "assert_int_not_in_set v vals fl ln = whenM (length vals > 0) (cm_assert_int_not_in_set v vals fl ln)"

definition assert_uint_in_set :: "uintmax \<Rightarrow> uintmax list \<Rightarrow> string \<Rightarrow> int \<Rightarrow> unit cm" where
  "assert_uint_in_set v vals fl ln = whenM (length vals > 0) (cm_assert_uint_in_set v vals fl ln)"

definition assert_uint_not_in_set :: "uintmax \<Rightarrow> uintmax list \<Rightarrow> string \<Rightarrow> int \<Rightarrow> unit cm" where
  "assert_uint_not_in_set v vals fl ln = whenM (length vals > 0) (cm_assert_uint_not_in_set v vals fl ln)"

definition fail_msg :: "string \<Rightarrow> string \<Rightarrow> int \<Rightarrow> unit cm" where
  "fail_msg msg fl ln = seqM (cmocka_print_error (''ERROR: '' @ msg @ nl)) (cm_fail fl ln)"

text \<open>
  \<^verbatim>\<open>expect_assert_failure\<close>: the expansion of the macro. \<^verbatim>\<open>setjmp\<close> and the jump
  to it are the catch of \<open>Assert_longjmp\<close>. If no assertion fails, the call is reported.
\<close>

definition expect_assert_failure :: "unit cm \<Rightarrow> string \<Rightarrow> string \<Rightarrow> int \<Rightarrow> unit cm" where
  "expect_assert_failure function_call call_text fl ln = (\<lambda>s.
     case function_call (s\<lparr>global_expecting_assert := True\<rparr>) of
       (Assert_longjmp, s2) \<Rightarrow>
         bindM (readM global_last_failed_assert) (\<lambda>e.
           seqM (print_message (''Expected assertion '' @ fmt_s e @ '' occurred'' @ nl))
                (modM (\<lambda>s. s\<lparr>global_expecting_assert := False\<rparr>))) s2
     | (Ret (), s2) \<Rightarrow>
         (seqM (modM (\<lambda>s. s\<lparr>global_expecting_assert := False\<rparr>))
         (seqM (print_error (''Expected assert in '' @ call_text @ nl)) (cm_fail fl ln))) s2
     | (Longjmp, s2) \<Rightarrow> (Longjmp, s2)
     | (Exit n, s2) \<Rightarrow> (Exit n, s2)
     | (Abort, s2) \<Rightarrow> (Abort, s2)
     | (Undefined, s2) \<Rightarrow> (Undefined, s2))"

section \<open>What a comparison reports\<close>

definition pending :: "cm_state \<Rightarrow> string" where
  "pending s = (case cm_error_message s of None \<Rightarrow> [] | Some m \<Rightarrow> m)"

text \<open>
  \<open>saysM\<close>: the program returns and has appended a text to the pending message and done
  nothing else. \<open>reportsM P m\<close>: the comparison \<open>m\<close> decides \<open>P\<close>; it says something
  exactly when the answer is no, and nothing is decided when memory cannot be read.
\<close>

definition said :: "cm_state \<Rightarrow> string \<Rightarrow> cm_state" where
  "said s x = s\<lparr>cm_error_message := Some (pending s @ x)\<rparr>"

definition saysM :: "unit cm \<Rightarrow> bool" where
  "saysM m \<longleftrightarrow> (\<forall>s. \<exists>x. x \<noteq> [] \<and> m s = (Ret (), said s x))"

definition reportsM :: "(cm_state \<Rightarrow> bool option) \<Rightarrow> bool cm \<Rightarrow> bool" where
  "reportsM P m \<longleftrightarrow> (\<forall>s. (P s = None \<longrightarrow> m s = (Undefined, s)) \<and> (P s = Some True \<longrightarrow> m s = (Ret True, s))
     \<and> (P s = Some False \<longrightarrow> (\<exists>x. x \<noteq> [] \<and> m s = (Ret False, said s x))))"

definition assertsM :: "(cm_state \<Rightarrow> bool option) \<Rightarrow> unit cm \<Rightarrow> bool" where
  "assertsM P m \<longleftrightarrow> (\<forall>s. (P s = None \<longrightarrow> m s = (Undefined, s)) \<and> (P s = Some True \<longrightarrow> m s = (Ret (), s))
     \<and> (P s = Some False \<longrightarrow> (\<exists>x f. x \<noteq> [] \<and> failsM f \<and> m s = f (said s x))))"

lemma said_frame [simp]: "msg_frame s (said s x)"
  by (simp add: msg_frame_def said_def)

lemma said_said: "said (said s x) y = said s (x @ y)"
  by (simp add: said_def pending_def)

lemma saysM_print [cm_mono]: "txt \<noteq> [] \<Longrightarrow> saysM (cmocka_print_error txt)"
  unfolding saysM_def
proof
  fix s assume ne: "txt \<noteq> []"
  let ?x = "if length txt < 256 then txt else take (length txt - 1) txt"
  have "?x \<noteq> []" using ne by (auto simp: take_eq_Nil)
  moreover have "cmocka_print_error txt s = (Ret (), said s ?x)"
    by (simp add: cmocka_print_error_def cm_error_message_enabled_def vcmocka_print_error_def
        said_def pending_def)
  ultimately show "\<exists>x. x \<noteq> [] \<and> cmocka_print_error txt s = (Ret (), said s x)" by blast
qed

lemma saysM_seq [cm_mono]: "saysM m \<Longrightarrow> saysM n \<Longrightarrow> saysM (seqM m n)"
  unfolding saysM_def
proof
  fix s assume m: "\<forall>s. \<exists>x. x \<noteq> [] \<and> m s = (Ret (), said s x)"
    and n: "\<forall>s. \<exists>x. x \<noteq> [] \<and> n s = (Ret (), said s x)"
  from m obtain x where x: "x \<noteq> []" "m s = (Ret (), said s x)" by blast
  from n obtain y where y: "y \<noteq> []" "n (said s x) = (Ret (), said (said s x) y)" by blast
  show "\<exists>x. x \<noteq> [] \<and> seqM m n s = (Ret (), said s x)"
    using x y by (intro exI [of _ "x @ y"]) (simp add: seqM_apply bindM_apply said_said)
qed

lemma saysM_if [cm_mono]: "saysM m \<Longrightarrow> saysM n \<Longrightarrow> saysM (if b then m else n)"
  by simp

lemma saysM_forM: "(\<And>x. x \<in> set xs \<Longrightarrow> saysM (f x)) \<Longrightarrow> saysM n \<Longrightarrow> saysM (seqM (forM xs f) n)"
proof (induction xs)
  case Nil
  moreover have "seqM (forM [] f) n = n" by (simp only: forM.simps seqM_def bindM_retM)
  ultimately show ?case using Nil(2) by (simp only:)
next
  case (Cons x xs)
  have "seqM (forM (x # xs) f) n = seqM (f x) (seqM (forM xs f) n)"
    by (simp add: seqM_def bindM_assoc)
  then show ?case using Cons by (auto intro: saysM_seq)
qed

lemma reportsM_say:
  assumes "saysM m"
  shows "reportsM (\<lambda>s. Some b) (if b then retM True else seqM m (retM False))"
  unfolding reportsM_def
proof (intro allI)
  fix s
  obtain x where "x \<noteq> []" "m s = (Ret (), said s x)" using assms unfolding saysM_def by blast
  then show "(Some b = None \<longrightarrow> (if b then retM True else seqM m (retM False)) s = (Undefined, s)) \<and>
     (Some b = Some True \<longrightarrow> (if b then retM True else seqM m (retM False)) s = (Ret True, s)) \<and>
     (Some b = Some False \<longrightarrow> (\<exists>x. x \<noteq> [] \<and> (if b then retM True else seqM m (retM False)) s = (Ret False, said s x)))"
    by (cases b) (auto simp: seqM_apply bindM_apply)
qed

lemma assertsM_fail_unless:
  assumes "reportsM P m"
  shows "assertsM P (fail_unless m fl ln)"
  unfolding assertsM_def
proof (intro allI conjI impI)
  fix s
  show "P s = None \<Longrightarrow> fail_unless m fl ln s = (Undefined, s)"
    and "P s = Some True \<Longrightarrow> fail_unless m fl ln s = (Ret (), s)"
    using assms unfolding reportsM_def fail_unless_def by (simp_all add: bindM_apply)
  assume "P s = Some False"
  then obtain x where "x \<noteq> []" "m s = (Ret False, said s x)"
    using assms unfolding reportsM_def by blast
  then show "\<exists>x f. x \<noteq> [] \<and> failsM f \<and> fail_unless m fl ln s = f (said s x)"
    by (intro exI [of _ x] exI [of _ "cm_fail fl ln"])
       (simp add: fail_unless_def bindM_apply failsM_fail)
qed

lemma assertsM_when:
  assumes "saysM m" and "failsM f"
  shows "assertsM (\<lambda>s. Some (\<not> b)) (whenM b (seqM m f))"
  unfolding assertsM_def
proof (intro allI conjI impI)
  fix s
  assume "Some (\<not> b) = Some False"
  moreover obtain x where "x \<noteq> []" "m s = (Ret (), said s x)"
    using assms(1) unfolding saysM_def by blast
  ultimately show "\<exists>x f'. x \<noteq> [] \<and> failsM f' \<and> whenM b (seqM m f) s = f' (said s x)"
    using assms(2) by (intro exI [of _ x] exI [of _ f]) (simp add: seqM_apply bindM_apply)
qed simp_all

section \<open>Every comparison decides its relation\<close>

lemma display_if_not_eq:
  "display_if_not ok msg = (if ok then retM True else seqM (cmocka_print_error msg) (retM False))"
  by (cases ok) (simp_all add: display_if_not_def whenM_def seqM_def fun_eq_iff)

lemma reportsM_display: "msg \<noteq> [] \<Longrightarrow> reportsM (\<lambda>s. Some b) (display_if_not b msg)"
  unfolding display_if_not_eq by (intro reportsM_say cm_mono)

lemma reportsM_readM: "(\<And>v. reportsM P (f v)) \<Longrightarrow> reportsM P (bindM (readM g) f)"
  by (auto simp: reportsM_def)

lemma sint_eq_iff: "sint (a :: 64 word) = sint b \<longleftrightarrow> a = b"
proof
  assume "sint a = sint b"
  then have "word_of_int (sint a) = (word_of_int (sint b) :: 64 word)" by simp
  then show "a = b" by simp
qed simp

lemma reports_int:
  "reportsM (\<lambda>s. Some (a = b)) (int_values_equal_display_error a b)"
  "reportsM (\<lambda>s. Some (a \<noteq> b)) (int_values_not_equal_display_error a b)"
  unfolding int_values_equal_display_error_def int_values_not_equal_display_error_def
  unfolding sint_eq_iff by (auto intro!: reportsM_display)

lemma reports_uint:
  "reportsM (\<lambda>s. Some (a = b)) (uint_values_equal_display_error a b)"
  "reportsM (\<lambda>s. Some (a \<noteq> b)) (uint_values_not_equal_display_error a b)"
  unfolding uint_values_equal_display_error_def uint_values_not_equal_display_error_def
  by (auto intro!: reportsM_display)

lemma reports_ptr:
  "reportsM (\<lambda>s. Some (a = b)) (ptr_values_equal_display_error a b)"
  "reportsM (\<lambda>s. Some (a \<noteq> b)) (ptr_values_not_equal_display_error a b)"
  unfolding ptr_values_equal_display_error_def ptr_values_not_equal_display_error_def
  by (auto intro!: reportsM_display reportsM_readM)

lemma reports_range:
  "reportsM (\<lambda>s. Some (sint mn \<le> sint v \<and> sint v \<le> sint mx)) (int_in_range_display_error v mn mx)"
  "reportsM (\<lambda>s. Some (\<not> (sint mn \<le> sint v \<and> sint v \<le> sint mx))) (int_not_in_range_display_error v mn mx)"
  "reportsM (\<lambda>s. Some (mn \<le> v \<and> v \<le> mx)) (uint_in_range_display_error v mn mx)"
  "reportsM (\<lambda>s. Some (\<not> (mn \<le> v \<and> v \<le> mx))) (uint_not_in_range_display_error v mn mx)"
  "reportsM (\<lambda>s. Some (\<not> (mn \<le> v \<and> v \<le> mx))) (integer_not_in_range_display_error v mn mx)"
  unfolding int_in_range_display_error_def int_not_in_range_display_error_def
    uint_in_range_display_error_def uint_not_in_range_display_error_def
    integer_not_in_range_display_error_def de_Morgan_conj not_le
  by (rule reportsM_say, rule saysM_print, simp)+

lemma set_loop_correct: "set_loop v xs b = (b \<noteq> (v \<in> set xs))"
  by (induction xs) auto

lemma comma_list_nonempty: "(\<And>x. f x \<noteq> []) \<Longrightarrow> y \<in> set (comma_list f xs) \<Longrightarrow> y \<noteq> []"
  by (induction f xs rule: comma_list.induct) auto

lemma fmt_d_nonempty: "fmt_d i \<noteq> []"
  by (simp add: fmt_d_def fmt_u_nonempty)

lemma seqM_assoc: "seqM (seqM l m) n = seqM l (seqM m n)"
  by (simp add: seqM_def bindM_assoc)

lemma reports_set_with:
  assumes "\<And>m. m \<in> set msgs \<Longrightarrow> saysM (f m)" and "a \<noteq> []" and "z \<noteq> []"
  shows "reportsM (\<lambda>s. Some (iv \<noteq> (v \<in> set vals)))
     (if set_loop v vals iv then retM True
      else seqM (cmocka_print_error a) (seqM (forM msgs f) (seqM (cmocka_print_error z) (retM False))))"
proof -
  have "saysM (seqM (cmocka_print_error a) (seqM (forM msgs f) (cmocka_print_error z)))"
    using assms by (intro saysM_seq saysM_forM saysM_print)
  from reportsM_say [OF this, of "set_loop v vals iv"] show ?thesis
    by (simp add: seqM_assoc set_loop_correct cong: if_cong)
qed

lemma reports_set:
  "reportsM (\<lambda>s. Some (iv \<noteq> (v \<in> set vals))) (int_value_in_set_display_error v vals iv)"
  "reportsM (\<lambda>s. Some (iv \<noteq> (v \<in> set vals))) (uint_value_in_set_display_error v vals iv)"
  "reportsM (\<lambda>s. Some (iv \<noteq> (v \<in> set vals))) (value_in_set_display_error v vals iv)"
  unfolding int_value_in_set_display_error_def uint_value_in_set_display_error_def
    value_in_set_display_error_def
  by (rule reports_set_with, rule saysM_print, erule comma_list_nonempty [rotated],
      simp add: fmt_d_nonempty, simp, simp)
     (rule reports_set_with, rule saysM_print, erule comma_list_nonempty [rotated],
      simp add: fmt_u_nonempty, simp, simp, rule reports_set_with, rule saysM_print, simp, simp, simp)

lemma string_of_bytes_inject [simp]: "string_of_bytes a = string_of_bytes b \<longleftrightarrow> a = b"
proof -
  have "inj (\<lambda>b :: byte. char_of (unat b) :: char)"
  proof (rule injI)
    fix x y :: byte
    assume "char_of (unat x) = (char_of (unat y) :: char)"
    then have "of_char (char_of (unat x) :: char) = (of_char (char_of (unat y) :: char) :: nat)" by simp
    moreover have "unat x < 256" "unat y < 256"
      using unsigned_less [of x] unsigned_less [of y] by simp_all
    ultimately have "unat x = unat y" by (simp add: of_char_of)
    then show "x = y" by (rule unsigned_word_eqI)
  qed
  then show ?thesis by (simp add: string_of_bytes_def inj_map_eq_map)
qed

definition both_strings :: "(byte list \<Rightarrow> byte list \<Rightarrow> bool) \<Rightarrow> addr \<Rightarrow> addr \<Rightarrow> cm_state \<Rightarrow> bool option" where
  "both_strings R a b s = do {
     x \<leftarrow> bytes_to_nul (memory s) a; y \<leftarrow> bytes_to_nul (memory s) b; Some (R x y) }"

lemma reports_string:
  "reportsM (both_strings (=) a b) (string_equal_display_error a b)"
  "reportsM (both_strings (\<noteq>) a b) (string_not_equal_display_error a b)"
proof -
  have "m \<noteq> [] \<Longrightarrow> \<exists>x. x \<noteq> [] \<and> seqM (cmocka_print_error m) (retM False) s = (Ret False, said s x)" for m s
    using saysM_print [of m, unfolded saysM_def, rule_format, of s] by (auto simp: seqM_apply bindM_apply)
  then show "reportsM (both_strings (=) a b) (string_equal_display_error a b)"
    "reportsM (both_strings (\<noteq>) a b) (string_not_equal_display_error a b)"
    by (auto simp: reportsM_def both_strings_def string_equal_display_error_def
        string_not_equal_display_error_def string_at_def bindM_apply split: option.splits bind_splits)
qed

definition both_areas :: "(byte list \<Rightarrow> byte list \<Rightarrow> bool) \<Rightarrow> addr \<Rightarrow> addr \<Rightarrow> nat \<Rightarrow> cm_state \<Rightarrow> bool option" where
  "both_areas R a b n s = do {
     x \<leftarrow> bytes_at (memory s) a n; y \<leftarrow> bytes_at (memory s) b n; Some (R x y) }"

lemma bytes_at_length: "bytes_at m a n = Some bs \<Longrightarrow> length bs = n"
  by (induction m a n arbitrary: bs rule: bytes_at.induct) (auto split: bind_splits)

lemma count_same_le: "count_same x y \<le> length x"
  by (induction x y rule: count_same.induct) auto

lemma count_same_full: "length x = length y \<Longrightarrow> count_same x y = length x \<longleftrightarrow> x = y"
proof (induction x y rule: count_same.induct)
  case (1 x xs y ys)
  then show ?case using count_same_le [of xs ys] by (auto simp: not_less_eq_eq)
qed auto

lemma print_data_block16_nonempty: "t \<in> set (print_data_block16 p i buf) \<Longrightarrow> t \<noteq> []"
  by (auto simp: print_data_block16_def cmocka_print_ascii_def split: if_splits)

lemma print_data_diff_block_nonempty: "t \<in> set (fst (print_data_diff_block b1 b2 om i sk)) \<Longrightarrow> t \<noteq> []"
  by (auto simp: print_data_diff_block_def Let_def dest: print_data_block16_nonempty split: if_splits)

lemma print_data_diff_from_nonempty: "t \<in> set (print_data_diff_from b1 b2 om i sk) \<Longrightarrow> t \<noteq> []"
proof (induction b1 b2 om i sk rule: print_data_diff_from.induct)
  case (1 b1 b2 om i sk)
  then show ?case
    by (subst (asm) (2) print_data_diff_from.simps) (auto split: if_splits dest: print_data_diff_block_nonempty)
qed

lemma reportsM_retM: "reportsM (\<lambda>s. Some True) (retM True)"
  by (simp add: reportsM_def)

lemma reportsM_no: "saysM m \<Longrightarrow> reportsM (\<lambda>s. Some False) (seqM m (retM False))"
  using reportsM_say [of m False] by simp

lemma reports_memory_bytes:
  "reportsM (\<lambda>s. Some (x = y)) (memory_equal_bytes x y)"
  "length x = length y \<Longrightarrow> reportsM (\<lambda>s. Some (x \<noteq> y)) (memory_not_equal_bytes x y a b)"
proof -
  have "saysM (seqM (cmocka_print_error (''Memory is not equal:'' @ nl @ nl))
          (seqM (forM (print_data_diff x y True) cmocka_print_error) (cmocka_print_error nl)))"
    by (intro saysM_seq saysM_forM saysM_print)
       (auto simp: print_data_diff_def dest: print_data_diff_from_nonempty)
  from reportsM_say [OF this, of "x = y"] show "reportsM (\<lambda>s. Some (x = y)) (memory_equal_bytes x y)"
    by (simp only: memory_equal_bytes_def seqM_assoc)
  assume "length x = length y"
  then show "reportsM (\<lambda>s. Some (x \<noteq> y)) (memory_not_equal_bytes x y a b)"
    using count_same_full [of x y] unfolding memory_not_equal_bytes_def Let_def
    by (cases "x = y") (simp_all add: reportsM_retM reportsM_readM reportsM_no saysM_print)
qed

lemma reportsM_memory_at:
  assumes "\<And>x y. length x = n \<Longrightarrow> length y = n \<Longrightarrow> reportsM (\<lambda>s. Some (R x y)) (f x y)"
  shows "reportsM (both_areas R a b n) (bindM (memory_at a n) (\<lambda>x. bindM (memory_at b n) (\<lambda>y. f x y)))"
  using assms unfolding reportsM_def both_areas_def memory_at_def
  by (auto simp: bindM_apply bytes_at_length split: option.splits bind_splits)

lemma reports_memory:
  "reportsM (both_areas (=) a b (unat sz)) (memory_equal_display_error a b sz)"
  "reportsM (both_areas (\<noteq>) a b (unat sz)) (memory_not_equal_display_error a b sz)"
  unfolding memory_equal_display_error_def memory_not_equal_display_error_def
  by (intro reportsM_memory_at reports_memory_bytes; simp)+

section \<open>Every assertion checks its condition\<close>

text \<open>
  The calls of the assertion functions, one constructor each, to state their common contract
  once.
\<close>

datatype assertion =
    A_true uintmax string | A_false uintmax string
  | A_return_code "64 word" "32 word" string
  | A_int_equal "64 word" "64 word" | A_int_not_equal "64 word" "64 word"
  | A_uint_equal uintmax uintmax | A_uint_not_equal uintmax uintmax
  | A_ptr_equal addr addr "string option" | A_ptr_not_equal addr addr "string option"
  | A_string_equal addr addr | A_string_not_equal addr addr
  | A_memory_equal addr addr "64 word" | A_memory_not_equal addr addr "64 word"
  | A_int_in_range "64 word" "64 word" "64 word" | A_int_not_in_range "64 word" "64 word" "64 word"
  | A_uint_in_range uintmax uintmax uintmax | A_uint_not_in_range uintmax uintmax uintmax
  | A_not_in_set uintmax "uintmax list"
  | A_int_in_set "64 word" "(64 word) list" | A_int_not_in_set "64 word" "(64 word) list"
  | A_uint_in_set uintmax "uintmax list" | A_uint_not_in_set uintmax "uintmax list"

fun run_assertion :: "(32 word \<Rightarrow> string) \<Rightarrow> assertion \<Rightarrow> string \<Rightarrow> int \<Rightarrow> unit cm" where
  "run_assertion se (A_true r e) = cm_assert_true r e"
| "run_assertion se (A_false r e) = cm_assert_false r e"
| "run_assertion se (A_return_code r er e) = cm_assert_return_code se r er e"
| "run_assertion se (A_int_equal a b) = cm_assert_int_equal a b"
| "run_assertion se (A_int_not_equal a b) = cm_assert_int_not_equal a b"
| "run_assertion se (A_uint_equal a b) = cm_assert_uint_equal a b"
| "run_assertion se (A_uint_not_equal a b) = cm_assert_uint_not_equal a b"
| "run_assertion se (A_ptr_equal a b m) = (\<lambda>fl ln. cm_assert_ptr_equal_msg a b fl ln m)"
| "run_assertion se (A_ptr_not_equal a b m) = (\<lambda>fl ln. cm_assert_ptr_not_equal_msg a b fl ln m)"
| "run_assertion se (A_string_equal a b) = cm_assert_string_equal a b"
| "run_assertion se (A_string_not_equal a b) = cm_assert_string_not_equal a b"
| "run_assertion se (A_memory_equal a b n) = cm_assert_memory_equal a b n"
| "run_assertion se (A_memory_not_equal a b n) = cm_assert_memory_not_equal a b n"
| "run_assertion se (A_int_in_range v mn mx) = cm_assert_int_in_range v mn mx"
| "run_assertion se (A_int_not_in_range v mn mx) = cm_assert_int_not_in_range v mn mx"
| "run_assertion se (A_uint_in_range v mn mx) = cm_assert_uint_in_range v mn mx"
| "run_assertion se (A_uint_not_in_range v mn mx) = cm_assert_uint_not_in_range v mn mx"
| "run_assertion se (A_not_in_set v vs) = cm_assert_not_in_set v vs"
| "run_assertion se (A_int_in_set v vs) = cm_assert_int_in_set v vs"
| "run_assertion se (A_int_not_in_set v vs) = cm_assert_int_not_in_set v vs"
| "run_assertion se (A_uint_in_set v vs) = cm_assert_uint_in_set v vs"
| "run_assertion se (A_uint_not_in_set v vs) = cm_assert_uint_not_in_set v vs"

text \<open>What each asserts, over the integers and the contents of memory.\<close>

fun asserted :: "assertion \<Rightarrow> cm_state \<Rightarrow> bool option" where
  "asserted (A_true r e) s = Some (r \<noteq> 0)"
| "asserted (A_false r e) s = Some (r = 0)"
| "asserted (A_return_code r er e) s = Some (0 \<le> sint r)"
| "asserted (A_int_equal a b) s = Some (a = b)"
| "asserted (A_int_not_equal a b) s = Some (a \<noteq> b)"
| "asserted (A_uint_equal a b) s = Some (a = b)"
| "asserted (A_uint_not_equal a b) s = Some (a \<noteq> b)"
| "asserted (A_ptr_equal a b m) s = Some (a = b)"
| "asserted (A_ptr_not_equal a b m) s = Some (a \<noteq> b)"
| "asserted (A_string_equal a b) s = both_strings (=) a b s"
| "asserted (A_string_not_equal a b) s = both_strings (\<noteq>) a b s"
| "asserted (A_memory_equal a b n) s = both_areas (=) a b (unat n) s"
| "asserted (A_memory_not_equal a b n) s = both_areas (\<noteq>) a b (unat n) s"
| "asserted (A_int_in_range v mn mx) s = Some (sint mn \<le> sint v \<and> sint v \<le> sint mx)"
| "asserted (A_int_not_in_range v mn mx) s = Some (\<not> (sint mn \<le> sint v \<and> sint v \<le> sint mx))"
| "asserted (A_uint_in_range v mn mx) s = Some (mn \<le> v \<and> v \<le> mx)"
| "asserted (A_uint_not_in_range v mn mx) s = Some (\<not> (mn \<le> v \<and> v \<le> mx))"
| "asserted (A_not_in_set v vs) s = Some (v \<notin> set vs)"
| "asserted (A_int_in_set v vs) s = Some (v \<in> set vs)"
| "asserted (A_int_not_in_set v vs) s = Some (v \<notin> set vs)"
| "asserted (A_uint_in_set v vs) s = Some (v \<in> set vs)"
| "asserted (A_uint_not_in_set v vs) s = Some (v \<notin> set vs)"

lemma assertsM_ptr:
  assumes "reportsM P m" and "\<And>x. returnsM (g x)"
  shows "assertsM P (bindM m (\<lambda>ok. whenM (\<not> ok)
           (seqM (case msg of None \<Rightarrow> retM () | Some x \<Rightarrow> g x) (cm_fail fl ln))))"
  unfolding assertsM_def
proof (intro allI conjI impI)
  fix s
  let ?f = "seqM (case msg of None \<Rightarrow> retM () | Some x \<Rightarrow> g x) (cm_fail fl ln)"
  show "P s = None \<Longrightarrow> bindM m (\<lambda>ok. whenM (\<not> ok) ?f) s = (Undefined, s)"
    and "P s = Some True \<Longrightarrow> bindM m (\<lambda>ok. whenM (\<not> ok) ?f) s = (Ret (), s)"
    using assms(1) unfolding reportsM_def by (simp_all add: bindM_apply)
  assume "P s = Some False"
  then obtain x where "x \<noteq> []" "m s = (Ret False, said s x)"
    using assms(1) unfolding reportsM_def by blast
  moreover have "failsM ?f"
    using assms(2) by (auto intro!: cm_mono split: option.split)
  ultimately show "\<exists>x f. x \<noteq> [] \<and> failsM f \<and> bindM m (\<lambda>ok. whenM (\<not> ok) ?f) s = f (said s x)"
    by (intro exI [of _ x] exI [of _ ?f]) (simp add: bindM_apply)
qed

lemmas reports = reports_int reports_uint reports_ptr reports_range reports_string reports_memory

lemma assertsM_whenI: "saysM m \<Longrightarrow> failsM f \<Longrightarrow> P = (\<lambda>s. Some (\<not> b)) \<Longrightarrow> assertsM P (whenM b (seqM m f))"
  using assertsM_when by simp

lemma reports_in_set:
  "reportsM (\<lambda>s. Some (v \<in> set vals)) (int_value_in_set_display_error v vals False)"
  "reportsM (\<lambda>s. Some (v \<in> set vals)) (uint_value_in_set_display_error v vals False)"
  "reportsM (\<lambda>s. Some (v \<notin> set vals)) (int_value_in_set_display_error v vals True)"
  "reportsM (\<lambda>s. Some (v \<notin> set vals)) (uint_value_in_set_display_error v vals True)"
  using reports_set(1) [of False] reports_set(1) [of True] reports_set(2) [of False] reports_set(2) [of True]
  by simp_all

lemma asserts_basic:
  "assertsM (\<lambda>s. Some (r \<noteq> 0)) (cm_assert_true r e fl ln)"
  "assertsM (\<lambda>s. Some (r = 0)) (cm_assert_false r e fl ln)"
  "assertsM (\<lambda>s. Some (0 \<le> sint q)) (cm_assert_return_code se q er e fl ln)"
  unfolding cm_assert_true_def cm_assert_false_def cm_assert_return_code_def
  by (rule assertsM_whenI saysM_if saysM_print failsM_fail | simp add: not_less)+

lemma asserts_ptr:
  "assertsM (\<lambda>s. Some (a = b)) (cm_assert_ptr_equal_msg a b fl ln m)"
  "assertsM (\<lambda>s. Some (a \<noteq> b)) (cm_assert_ptr_not_equal_msg a b fl ln m)"
  unfolding cm_assert_ptr_equal_msg_def cm_assert_ptr_not_equal_msg_def
  by (rule assertsM_ptr, rule reports, rule returnsM_additional_msg)+

lemmas assert_defs =
  cm_assert_int_equal_def cm_assert_int_not_equal_def cm_assert_uint_equal_def
  cm_assert_uint_not_equal_def
  cm_assert_string_equal_def cm_assert_string_not_equal_def cm_assert_memory_equal_def
  cm_assert_memory_not_equal_def cm_assert_int_in_range_def cm_assert_int_not_in_range_def
  cm_assert_uint_in_range_def cm_assert_uint_not_in_range_def cm_assert_not_in_set_def
  cm_assert_int_in_set_def cm_assert_int_not_in_set_def cm_assert_uint_in_set_def
  cm_assert_uint_not_in_set_def

lemma run_assertion_asserts: "assertsM (asserted a) (run_assertion se a fl ln)"
  by (cases a, simp_all only: run_assertion.simps asserted.simps [abs_def] assert_defs)
     ((rule asserts_basic)+, (rule reports [THEN assertsM_fail_unless])+, (rule asserts_ptr)+,
      (rule reports [THEN assertsM_fail_unless])+, (rule reports_in_set [THEN assertsM_fail_unless])+)

lemma assertsM_fails:
  assumes "assertsM P m" "P s = Some False"
  shows "fst (m s) = failure_outcome s" "msg_frame s (snd (m s))"
proof -
  obtain x f where f: "failsM f" "m s = f (said s x)"
    using assms unfolding assertsM_def by blast
  show "fst (m s) = failure_outcome s"
    using failsM_outcome [OF f(1)] failure_outcome_frame [OF said_frame] f(2) by simp
  have "msg_frame (said s x) (snd (m s))"
    using failsM_framesM [OF f(1)] f(2) by (simp add: framesM_def)
  then show "msg_frame s (snd (m s))" by (rule msg_frame_trans [OF said_frame])
qed

text \<open>What an assertion that tests \<open>b\<close> does.\<close>

definition asserts_exactly :: "bool \<Rightarrow> unit cm \<Rightarrow> cm_state \<Rightarrow> bool" where
  "asserts_exactly b m s \<longleftrightarrow> (if b then m s = (Ret (), s) else fst (m s) = failure_outcome s \<and> msg_frame s (snd (m s)))"

lemma assertsM_at:
  assumes "assertsM P m" "P s = Some b"
  shows "asserts_exactly b m s"
proof (cases b)
  case True
  then show ?thesis using assms by (simp add: asserts_exactly_def assertsM_def)
next
  case False
  then show ?thesis using assertsM_fails [OF assms(1)] assms(2) by (simp add: asserts_exactly_def)
qed

lemma assertsM_exactly: "assertsM (\<lambda>s. Some b) m \<Longrightarrow> asserts_exactly b m s"
  by (rule assertsM_at) simp_all

section \<open>Properties\<close>

text \<open>
  C6. Contract of the assertion functions: an assertion returns, with the state untouched,
  exactly when what it asserts holds. When it does not hold, a non-empty explanation is
  appended to the pending message, control leaves the test as \<^verbatim>\<open>exit_test(true)\<close>
  leaves it (back to the runner, \<^verbatim>\<open>abort\<close> or \<^verbatim>\<open>exit(EXIT_FAILURE)\<close>), and nothing but
  messages has changed. When it would read unmapped memory, the call is undefined.
\<close>

theorem assertion_contract:
  "case asserted a s of
     None \<Rightarrow> run_assertion se a fl ln s = (Undefined, s)
   | Some True \<Rightarrow> run_assertion se a fl ln s = (Ret (), s)
   | Some False \<Rightarrow> fst (run_assertion se a fl ln s) = failure_outcome s
        \<and> msg_frame s (snd (run_assertion se a fl ln s))
        \<and> (\<exists>x f. x \<noteq> [] \<and> failsM f \<and> run_assertion se a fl ln s = f (said s x))"
proof -
  note contract = run_assertion_asserts [of a se fl ln, unfolded assertsM_def, rule_format, of s]
  show ?thesis
  proof (cases "asserted a s")
    case None
    then show ?thesis using contract by simp
  next
    case (Some b)
    show ?thesis
    proof (cases b)
      case True
      then show ?thesis using contract Some by simp
    next
      case False
      then have "asserted a s = Some False" using Some by simp
      with contract obtain x f
        where f: "x \<noteq> []" "failsM f" "run_assertion se a fl ln s = f (said s x)" by blast
      have "msg_frame (said s x) (snd (f (said s x)))"
        using failsM_framesM [OF f(2)] by (simp add: framesM_def)
      then have "msg_frame s (snd (f (said s x)))" by (rule msg_frame_trans [OF said_frame])
      moreover have "fst (f (said s x)) = failure_outcome s"
        using failsM_outcome [OF f(2)] failure_outcome_frame [OF said_frame] by simp
      ultimately have "fst (run_assertion se a fl ln s) = failure_outcome s
          \<and> msg_frame s (snd (run_assertion se a fl ln s))
          \<and> (\<exists>x f. x \<noteq> [] \<and> failsM f \<and> run_assertion se a fl ln s = f (said s x))"
        unfolding f(3) using f(1,2) by blast
      then show ?thesis by (simp only: Some False option.case bool.case)
    qed
  qed
qed

text \<open>
  The set macros of the header test that the set has members before they call the
  assertion, so with an empty set every one of them passes; the functions they wrap would
  fail \<^verbatim>\<open>assert_int_in_set\<close> and \<^verbatim>\<open>assert_uint_in_set\<close> there. With members, macro and
  function agree.
\<close>

lemma set_macros:
  "assert_int_in_set v [] fl ln s = (Ret (), s) \<and> assert_uint_in_set v [] fl ln s = (Ret (), s)
   \<and> fst (cm_assert_int_in_set v [] fl ln s) = failure_outcome s
   \<and> fst (cm_assert_uint_in_set v [] fl ln s) = failure_outcome s
   \<and> assert_int_in_set v (x # xs) = cm_assert_int_in_set v (x # xs)
   \<and> assert_uint_in_set v (x # xs) = cm_assert_uint_in_set v (x # xs)"
proof -
  have "assertsM (\<lambda>s. Some False) (cm_assert_int_in_set v [] fl ln)"
    "assertsM (\<lambda>s. Some False) (cm_assert_uint_in_set v [] fl ln)"
    using run_assertion_asserts [of "A_int_in_set v []" _ fl ln]
      run_assertion_asserts [of "A_uint_in_set v []" _ fl ln] by (simp_all add: asserted.simps [abs_def])
  moreover have "assertsM (\<lambda>s. Some False) m \<Longrightarrow> fst (m s) = failure_outcome s" for m
    using failsM_outcome failure_outcome_frame [OF said_frame] unfolding assertsM_def by (metis option.distinct(1))
  ultimately have "fst (cm_assert_int_in_set v [] fl ln s) = failure_outcome s"
    "fst (cm_assert_uint_in_set v [] fl ln s) = failure_outcome s" by blast+
  then show ?thesis by (simp add: assert_int_in_set_def assert_uint_in_set_def fun_eq_iff)
qed

end
