(* ===== verification/Float_Compare.thy ===== *)
theory Float_Compare
  imports Assertions
begin

text \<open>
  The floating-point comparisons of \<^verbatim>\<open>src/cmocka.c\<close>: \<^verbatim>\<open>float_compare\<close>,
  \<^verbatim>\<open>double_compare\<close> and the assertions built on them. Arithmetic is IEEE 754 binary32 and
  binary64, rounding to nearest even, each operation in the type of its operands. A finite
  number is a sign and a magnitude counted in the smallest subnormal number of the
  format, \<open>2\<^sup>-\<^sup>1\<^sup>4\<^sup>9\<close> or \<open>2\<^sup>-\<^sup>1\<^sup>0\<^sup>7\<^sup>4\<close>, so that all definitions compute on natural numbers.
  The theorems bound the tolerance of the comparisons from both sides and show what
  they make of infinities and NaN.
\<close>

section \<open>Formats and rounding\<close>

record fp_format =
  fp_prec :: nat \<comment> \<open>bits of the significand\<close>
  fp_limit :: nat \<comment> \<open>finite magnitudes are below two to this power\<close>
  fp_unit :: nat \<comment> \<open>the unit is two to minus this power\<close>

definition binary32 :: fp_format where
  "binary32 = \<lparr>fp_prec = 24, fp_limit = 277, fp_unit = 149\<rparr>"

definition binary64 :: fp_format where
  "binary64 = \<lparr>fp_prec = 53, fp_limit = 2098, fp_unit = 1074\<rparr>"

datatype fp = Fin bool nat | Inf bool | NaN bool

fun bit_count :: "nat \<Rightarrow> nat" where
  "bit_count n = (if n = 0 then 0 else Suc (bit_count (n div 2)))"

declare bit_count.simps [simp del]

text \<open>\<open>m / 2\<^sup>e\<close> to the nearest integer, ties to even.\<close>

definition half_even :: "nat \<Rightarrow> nat \<Rightarrow> nat" where
  "half_even m e = (let q = m div 2 ^ e; r = m mod 2 ^ e in
     if 2 * r < 2 ^ e \<or> 2 * r = 2 ^ e \<and> even q then q else q + 1)"

text \<open>The magnitude \<open>m / 2\<^sup>k\<close>, rounded to the precision of a format.\<close>

definition rounded :: "nat \<Rightarrow> nat \<Rightarrow> nat \<Rightarrow> nat" where
  "rounded p k m = (let e = max k (bit_count m - p) in half_even m e * 2 ^ (e - k))"

definition to_fp :: "fp_format \<Rightarrow> bool \<Rightarrow> nat \<Rightarrow> nat \<Rightarrow> fp" where
  "to_fp f s k m = (let r = rounded (fp_prec f) k m in if r < 2 ^ fp_limit f then Fin s r else Inf s)"

section \<open>The operations the comparisons use\<close>

definition fin_val :: "bool \<Rightarrow> nat \<Rightarrow> int" where
  "fin_val s m = (if s then - int m else int m)"

fun fp_sub :: "fp_format \<Rightarrow> fp \<Rightarrow> fp \<Rightarrow> fp" where
  "fp_sub f (NaN s) y = NaN s"
| "fp_sub f x (NaN s) = NaN s"
| "fp_sub f (Inf s) (Inf s') = (if s = s' then NaN False else Inf s)"
| "fp_sub f (Inf s) (Fin s' m) = Inf s"
| "fp_sub f (Fin s m) (Inf s') = Inf (\<not> s')"
| "fp_sub f (Fin s m) (Fin s' m') =
     (let v = fin_val s m - fin_val s' m' in
      to_fp f (v < 0 \<or> v = 0 \<and> s \<and> \<not> s') 0 (nat \<bar>v\<bar>))"

fun fp_neg :: "fp \<Rightarrow> fp" where
  "fp_neg (Fin s m) = Fin (\<not> s) m"
| "fp_neg (Inf s) = Inf (\<not> s)"
| "fp_neg (NaN s) = NaN (\<not> s)"

fun fp_le :: "fp \<Rightarrow> fp \<Rightarrow> bool" where
  "fp_le (NaN s) y = False"
| "fp_le x (NaN s) = False"
| "fp_le (Inf s) (Inf s') = (s \<or> \<not> s')"
| "fp_le (Inf s) (Fin s' m) = s"
| "fp_le (Fin s m) (Inf s') = (\<not> s')"
| "fp_le (Fin s m) (Fin s' m') = (fin_val s m \<le> fin_val s' m')"

fun fp_less :: "fp \<Rightarrow> fp \<Rightarrow> bool" where
  "fp_less (NaN s) y = False"
| "fp_less x (NaN s) = False"
| "fp_less (Inf s) (Inf s') = (s \<and> \<not> s')"
| "fp_less (Inf s) (Fin s' m) = s"
| "fp_less (Fin s m) (Inf s') = (\<not> s')"
| "fp_less (Fin s m) (Fin s' m') = (fin_val s m < fin_val s' m')"

text \<open>The product with \<^verbatim>\<open>FLT_EPSILON\<close>, which is \<open>2\<^sup>-\<^sup>2\<^sup>3\<close> in both types.\<close>

fun fp_mul_FLT_EPSILON :: "fp_format \<Rightarrow> fp \<Rightarrow> fp" where
  "fp_mul_FLT_EPSILON f (Fin s m) = to_fp f s 23 m"
| "fp_mul_FLT_EPSILON f x = x"

definition fp_zero :: fp where
  "fp_zero = Fin False 0"

section \<open>The comparisons\<close>

definition float_compare :: "fp \<Rightarrow> fp \<Rightarrow> fp \<Rightarrow> bool" where
  "float_compare left right epsilon =
     (let diff0 = fp_sub binary32 left right;
          diff = (if fp_le fp_zero diff0 then diff0 else fp_neg diff0)
      in if fp_le diff epsilon then True
         else
           let absLeft = (if fp_le fp_zero left then left else fp_neg left);
               absRight = (if fp_le fp_zero right then right else fp_neg right);
               largest = (if fp_less absLeft absRight then absRight else absLeft);
               relDiff = fp_mul_FLT_EPSILON binary32 largest
           in if fp_less relDiff diff then False else True)"

definition double_compare :: "fp \<Rightarrow> fp \<Rightarrow> fp \<Rightarrow> bool" where
  "double_compare left right epsilon =
     (let diff0 = fp_sub binary64 left right;
          diff = (if fp_le fp_zero diff0 then diff0 else fp_neg diff0)
      in if fp_le diff epsilon then True
         else
           let absLeft = (if fp_le fp_zero left then left else fp_neg left);
               absRight = (if fp_le fp_zero right then right else fp_neg right);
               largest = (if fp_less absLeft absRight then absRight else absLeft);
               relDiff = fp_mul_FLT_EPSILON binary64 largest
           in if fp_less relDiff diff then False else True)"

text \<open>
  \<^verbatim>\<open>%f\<close>: six decimals of the exact value, rounded to even. A \<^verbatim>\<open>float\<close> is converted to
  \<^verbatim>\<open>double\<close> for \<^verbatim>\<open>printf\<close>, which does not change its value.
\<close>

definition fmt_six :: "nat \<Rightarrow> string" where
  "fmt_six n = replicate (6 - length (fmt_u n)) (CHR ''0'') @ fmt_u n"

fun fmt_f :: "fp_format \<Rightarrow> fp \<Rightarrow> string" where
  "fmt_f f (Fin s m) = (let n = half_even (m * 10 ^ 6) (fp_unit f) in
     (if s then ''-'' else []) @ fmt_u (n div 10 ^ 6) @ ''.'' @ fmt_six (n mod 10 ^ 6))"
| "fmt_f f (Inf s) = (if s then ''-inf'' else ''inf'')"
| "fmt_f f (NaN s) = (if s then ''-nan'' else ''nan'')"

definition float_values_equal_display_error :: "fp \<Rightarrow> fp \<Rightarrow> fp \<Rightarrow> bool cm" where
  "float_values_equal_display_error left right epsilon =
     display_if_not (float_compare left right epsilon) (fmt_f binary32 left @ '' != '' @ fmt_f binary32 right @ nl)"

definition float_values_not_equal_display_error :: "fp \<Rightarrow> fp \<Rightarrow> fp \<Rightarrow> bool cm" where
  "float_values_not_equal_display_error left right epsilon =
     display_if_not (\<not> float_compare left right epsilon) (fmt_f binary32 left @ '' == '' @ fmt_f binary32 right @ nl)"

definition double_values_equal_display_error :: "fp \<Rightarrow> fp \<Rightarrow> fp \<Rightarrow> bool cm" where
  "double_values_equal_display_error left right epsilon =
     display_if_not (double_compare left right epsilon) (fmt_f binary64 left @ '' != '' @ fmt_f binary64 right @ nl)"

definition double_values_not_equal_display_error :: "fp \<Rightarrow> fp \<Rightarrow> fp \<Rightarrow> bool cm" where
  "double_values_not_equal_display_error left right epsilon =
     display_if_not (\<not> double_compare left right epsilon) (fmt_f binary64 left @ '' == '' @ fmt_f binary64 right @ nl)"

definition cm_assert_float_equal :: "fp \<Rightarrow> fp \<Rightarrow> fp \<Rightarrow> string \<Rightarrow> int \<Rightarrow> unit cm" where
  "cm_assert_float_equal a b epsilon fl l = fail_unless (float_values_equal_display_error a b epsilon) fl l"

definition cm_assert_float_not_equal :: "fp \<Rightarrow> fp \<Rightarrow> fp \<Rightarrow> string \<Rightarrow> int \<Rightarrow> unit cm" where
  "cm_assert_float_not_equal a b epsilon fl l = fail_unless (float_values_not_equal_display_error a b epsilon) fl l"

definition cm_assert_double_equal :: "fp \<Rightarrow> fp \<Rightarrow> fp \<Rightarrow> string \<Rightarrow> int \<Rightarrow> unit cm" where
  "cm_assert_double_equal a b epsilon fl l = fail_unless (double_values_equal_display_error a b epsilon) fl l"

definition cm_assert_double_not_equal :: "fp \<Rightarrow> fp \<Rightarrow> fp \<Rightarrow> string \<Rightarrow> int \<Rightarrow> unit cm" where
  "cm_assert_double_not_equal a b epsilon fl l = fail_unless (double_values_not_equal_display_error a b epsilon) fl l"

section \<open>Rounding is monotone\<close>

lemma bit_count_less: "m < 2 ^ bit_count m"
proof (induction m rule: bit_count.induct)
  case (1 n)
  then show ?case by (subst bit_count.simps) (auto simp: bit_count.simps [of 0])
qed

lemma bit_count_le: "0 < m \<Longrightarrow> 2 ^ (bit_count m - 1) \<le> m"
proof (induction m rule: bit_count.induct)
  case (1 n)
  show ?case
  proof (cases "n div 2 = 0")
    case True
    then have "n = 1" using 1(2) by simp
    then show ?thesis by (simp add: bit_count.simps [of "Suc 0"] bit_count.simps [of 0])
  next
    case False
    then have b: "bit_count n = Suc (bit_count (n div 2))" "bit_count (n div 2) > 0"
      using 1(2) bit_count.simps [of n] bit_count.simps [of "n div 2"] by auto
    have "2 ^ (bit_count (n div 2) - 1) \<le> n div 2" using 1 False by simp
    moreover have "(2 :: nat) ^ (bit_count n - 1) = 2 * 2 ^ (bit_count (n div 2) - 1)"
      using b by (simp add: power_Suc [symmetric] del: power_Suc)
    ultimately show ?thesis by linarith
  qed
qed

lemma bit_count_leI: "m < 2 ^ k \<Longrightarrow> bit_count m \<le> k"
proof (rule ccontr)
  assume m: "m < 2 ^ k" and n: "\<not> bit_count m \<le> k"
  then have "0 < m" using bit_count.simps [of m] by (cases m) auto
  then have "2 ^ (bit_count m - 1) \<le> m" by (rule bit_count_le)
  moreover have "(2 :: nat) ^ k \<le> 2 ^ (bit_count m - 1)" using n by (intro power_increasing) auto
  ultimately show False using m by (metis leD le_trans)
qed

lemma bit_count_mono: "m \<le> n \<Longrightarrow> bit_count m \<le> bit_count n"
  using bit_count_less [of n] by (intro bit_count_leI) simp

lemma half_even_bounds: "m div 2 ^ e \<le> half_even m e" "half_even m e \<le> m div 2 ^ e + 1"
  by (simp_all add: half_even_def Let_def)

lemma half_even_mono: "m \<le> n \<Longrightarrow> half_even m e \<le> half_even n e"
proof -
  assume le: "m \<le> n"
  then have q: "m div 2 ^ e \<le> n div 2 ^ e" by (rule div_le_mono)
  show ?thesis
  proof (cases "m div 2 ^ e = n div 2 ^ e")
    case True
    have "m mod 2 ^ e \<le> n mod 2 ^ e"
      using le True div_mult_mod_eq [of m "2 ^ e"] div_mult_mod_eq [of n "2 ^ e"] by (metis add_le_cancel_left)
    then show ?thesis using True by (auto simp: half_even_def Let_def)
  next
    case False
    then show ?thesis using q half_even_bounds(2) [of m e] half_even_bounds(1) [of n e] by linarith
  qed
qed

lemma half_even_exact: "half_even (q * 2 ^ e) e = q"
  by (simp add: half_even_def)

lemma rounded_mono:
  assumes "m \<le> n" "0 < p"
  shows "rounded p k m \<le> rounded p k n"
proof -
  define e e' where "e = max k (bit_count m - p)" and "e' = max k (bit_count n - p)"
  have R: "rounded p k m = half_even m e * 2 ^ (e - k)" "rounded p k n = half_even n e' * 2 ^ (e' - k)"
    by (simp_all add: rounded_def e_def e'_def Let_def)
  have "e \<le> e'" using bit_count_mono [OF assms(1)] by (auto simp: e_def e'_def)
  show ?thesis
  proof (cases "e = e'")
    case True
    then show ?thesis unfolding R using half_even_mono [OF assms(1), of e] by simp
  next
    case False
    then have less: "e < e'" using \<open>e \<le> e'\<close> by simp
    then have e': "e' = bit_count n - p" "k < e'" by (auto simp: e_def e'_def)
    have n: "2 ^ (bit_count n - 1) \<le> n" using e' by (intro bit_count_le) (cases n, auto simp: bit_count.simps [of 0])
    have "bit_count n - 1 = (p - 1) + e'" using e' assms(2) less by linarith
    with n have "2 ^ (p - 1) * 2 ^ e' \<le> n" by (simp add: power_add)
    from half_even_mono [OF this, of e'] have hi: "2 ^ (p - 1) \<le> half_even n e'" by (simp only: half_even_exact)
    have "bit_count m \<le> p + e" by (auto simp: e_def)
    then have "(2 :: nat) ^ bit_count m \<le> 2 ^ p * 2 ^ e" by (simp add: power_add [symmetric])
    with bit_count_less [of m] have "m \<le> 2 ^ p * 2 ^ e" by linarith
    from half_even_mono [OF this, of e] have lo: "half_even m e \<le> 2 ^ p" by (simp only: half_even_exact)
    have pw: "p + (e - k) \<le> p - 1 + (e' - k)" using less e' assms(2) by (simp add: e_def)
    have "half_even m e * 2 ^ (e - k) \<le> 2 ^ (p + (e - k))" using lo by (simp add: power_add)
    also have "\<dots> \<le> 2 ^ (p - 1 + (e' - k))" using pw by (intro power_increasing) simp_all
    also have "\<dots> \<le> half_even n e' * 2 ^ (e' - k)" using hi by (simp add: power_add)
    finally show ?thesis unfolding R .
  qed
qed

lemma bit_count_shift: "0 < m \<Longrightarrow> bit_count (m * 2 ^ k) = bit_count m + k"
proof (induction k)
  case (Suc k)
  have "m * 2 ^ Suc k \<noteq> 0" "m * 2 ^ Suc k div 2 = m * 2 ^ k" using Suc.prems by simp_all
  then show ?case using Suc by (subst bit_count.simps) simp
qed simp

lemma half_even_shift: "half_even (m * 2 ^ k) (e + k) = half_even m e"
proof -
  have d: "m * 2 ^ k div 2 ^ (e + k) = m div 2 ^ e" by (simp add: power_add)
  have r: "m * 2 ^ k mod 2 ^ (e + k) = (m mod 2 ^ e) * 2 ^ k"
    by (simp add: power_add mod_mult_mult2)
  have "2 * (m mod 2 ^ e * 2 ^ k) < 2 ^ (e + k) \<longleftrightarrow> 2 * (m mod 2 ^ e) < 2 ^ e"
    "2 * (m mod 2 ^ e * 2 ^ k) = 2 ^ (e + k) \<longleftrightarrow> 2 * (m mod 2 ^ e) = 2 ^ e"
    by (simp_all add: power_add mult.assoc [symmetric])
  then show ?thesis unfolding half_even_def Let_def d r by (simp only:)
qed

lemma rounded_0 [simp]: "rounded p k 0 = 0"
  by (simp add: rounded_def half_even_def bit_count.simps [of 0])

lemma rounded_shift: "rounded p k (m * 2 ^ k) = rounded p 0 m"
proof (cases "m = 0")
  case False
  then have b: "bit_count (m * 2 ^ k) = bit_count m + k" by (intro bit_count_shift) simp
  have e: "max k (bit_count m + k - p) = (bit_count m - p) + k" by simp
  show ?thesis unfolding rounded_def b e Let_def half_even_shift by simp
qed simp

text \<open>Rounding loses at most half a unit of the last place.\<close>

lemma half_even_error: "2 * m \<le> 2 * (half_even m e * 2 ^ e) + 2 ^ e" "2 * (half_even m e * 2 ^ e) \<le> 2 * m + 2 ^ e"
proof -
  define P q r where d: "P = (2 :: nat) ^ e" "q = m div 2 ^ e" "r = m mod 2 ^ e"
  have m: "m = q * P + r" "r < P" unfolding d by (simp_all add: div_mult_mod_eq)
  have "half_even m e = q \<and> 2 * r \<le> P \<or> half_even m e = q + 1 \<and> P \<le> 2 * r"
    unfolding half_even_def Let_def d by auto
  then show "2 * m \<le> 2 * (half_even m e * 2 ^ e) + 2 ^ e" "2 * (half_even m e * 2 ^ e) \<le> 2 * m + 2 ^ e"
    unfolding d(1) [symmetric] using m by (auto simp: algebra_simps)
qed

lemma rounded_error_low:
  assumes "0 < p"
  shows "m * (2 ^ p - 1) \<le> rounded p 0 m * 2 ^ p"
proof (cases "bit_count m \<le> p")
  case True
  then have "rounded p 0 m = m" by (simp add: rounded_def half_even_def)
  then show ?thesis by simp
next
  case False
  define e P where d: "e = bit_count m - p" "P = (2 :: nat) ^ (p - 1)"
  have R: "rounded p 0 m = half_even m e * 2 ^ e" by (simp add: rounded_def d Let_def)
  have p: "2 ^ p = 2 * P" using assms by (cases p) (simp_all add: d)
  have "0 < m" using False bit_count.simps [of 0] by (cases m) auto
  from bit_count_le [OF this] have "2 ^ (p - 1 + e) \<le> m" using False assms by (simp add: d)
  then have "2 ^ e * P \<le> m" by (simp add: d power_add mult.commute)
  moreover have "2 * m * P \<le> (2 * (half_even m e * 2 ^ e) + 2 ^ e) * P"
    using half_even_error(1) [of m e] by (rule mult_le_mono1)
  ultimately have "m * (2 * P) \<le> rounded p 0 m * (2 * P) + m" unfolding R by (simp add: algebra_simps)
  then show ?thesis unfolding p by (simp add: diff_mult_distrib2)
qed

lemma rounded_error_high:
  assumes "rounded p 0 m = m"
  shows "rounded p k m * 2 ^ Suc k \<le> 2 * m + 2 ^ k"
proof (cases "bit_count m - p \<le> k")
  case True
  then show ?thesis using half_even_error(2) [of m k] by (simp add: rounded_def algebra_simps)
next
  case False
  define e where "e = bit_count m - p"
  have "half_even m e * 2 ^ e = m" using assms by (simp add: rounded_def e_def Let_def)
  moreover have "rounded p k m = half_even m e * 2 ^ (e - k)" using False by (simp add: rounded_def e_def Let_def)
  moreover have "(2 :: nat) ^ (e - k) * 2 ^ k = 2 ^ e" using False by (simp add: e_def power_add [symmetric])
  ultimately have "rounded p k m * 2 ^ k = m" by (simp add: mult.assoc)
  then show ?thesis by simp
qed

lemma rounded_less:
  assumes "rounded p 0 m = m" "0 < p"
  shows "rounded p k m \<le> m"
  using rounded_mono [of m "m * 2 ^ k" p k] assms by (simp add: rounded_shift)

lemma rounded_scaled: "d * 2 ^ k \<le> m \<Longrightarrow> 0 < p \<Longrightarrow> rounded p 0 d \<le> rounded p k m"
  using rounded_mono [of "d * 2 ^ k" m p k] by (simp only: rounded_shift)

section \<open>The tolerance of a comparison\<close>

definition compare_in :: "fp_format \<Rightarrow> fp \<Rightarrow> fp \<Rightarrow> fp \<Rightarrow> bool" where
  "compare_in f left right epsilon =
     (let diff0 = fp_sub f left right;
          diff = (if fp_le fp_zero diff0 then diff0 else fp_neg diff0)
      in if fp_le diff epsilon then True
         else
           let absLeft = (if fp_le fp_zero left then left else fp_neg left);
               absRight = (if fp_le fp_zero right then right else fp_neg right);
               largest = (if fp_less absLeft absRight then absRight else absLeft);
               relDiff = fp_mul_FLT_EPSILON f largest
           in if fp_less relDiff diff then False else True)"

lemma compare_in_formats: "float_compare = compare_in binary32" "double_compare = compare_in binary64"
  by (simp_all add: fun_eq_iff float_compare_def double_compare_def compare_in_def)

text \<open>A number of the format: bounded, and unchanged by rounding.\<close>

definition in_format :: "fp_format \<Rightarrow> nat \<Rightarrow> bool" where
  "in_format f m \<longleftrightarrow> m < 2 ^ fp_limit f \<and> rounded (fp_prec f) 0 m = m"

definition fp_abs :: "fp \<Rightarrow> fp" where
  "fp_abs x = (if fp_le fp_zero x then x else fp_neg x)"

lemma fp_abs_simps [simp]:
  "fp_abs (Fin s m) = Fin (s \<and> m = 0) m" "fp_abs (Inf s) = Inf False" "fp_abs (NaN s) = NaN (\<not> s)"
  by (auto simp: fp_abs_def fp_zero_def fin_val_def)

lemma fin_val_abs [simp]: "fin_val (s \<and> m = 0) m = int m"
  by (simp add: fin_val_def)

lemma fp_less_NaN [simp]: "\<not> fp_less x (NaN s)"
  by (cases x) simp_all

lemma compare_in_abs:
  "compare_in f left right epsilon =
     (let diff = fp_abs (fp_sub f left right);
          largest = (if fp_less (fp_abs left) (fp_abs right) then fp_abs right else fp_abs left)
      in fp_le diff epsilon \<or> \<not> fp_less (fp_mul_FLT_EPSILON f largest) diff)"
  by (simp add: compare_in_def fp_abs_def Let_def)

locale rounding_format =
  fixes f :: fp_format
  assumes prec_pos: "0 < fp_prec f"
begin

lemma compare_finite:
  fixes s s' :: bool
  assumes "in_format f m" "in_format f m'"
  defines "r \<equiv> rounded (fp_prec f) 0 (nat \<bar>fin_val s m - fin_val s' m'\<bar>)"
  shows "compare_in f (Fin s m) (Fin s' m') (Fin t e) \<longleftrightarrow>
     r < 2 ^ fp_limit f \<and> (int r \<le> fin_val t e \<or> r \<le> rounded (fp_prec f) 23 (max m m'))"
proof -
  let ?R = "rounded (fp_prec f) 23 (max m m')"
  have "in_format f (max m m')" using assms(1,2) by (simp add: max_def)
  then have "?R < 2 ^ fp_limit f" using rounded_less [OF _ prec_pos, of "max m m'" 23] by (auto simp: in_format_def)
  then have "fp_mul_FLT_EPSILON f (Fin w (max m m')) = Fin w ?R" for w by (simp add: to_fp_def)
  then have w: "fp_mul_FLT_EPSILON f (if m < m' then Fin (s' \<and> m' = 0) m' else Fin (s \<and> m = 0) m)
      = Fin ((if m < m' then s' else s) \<and> max m m' = 0) ?R"
    by (cases "m < m'") (simp_all add: max_def)
  have v: "fin_val (b \<and> max m m' = 0) ?R = int ?R" for b by (cases "max m m' = 0") (simp_all add: fin_val_def)
  define z where "z = (fin_val s m - fin_val s' m' < 0 \<or> fin_val s m - fin_val s' m' = 0 \<and> s \<and> \<not> s')"
  have sub: "fp_sub f (Fin s m) (Fin s' m') = (if r < 2 ^ fp_limit f then Fin z r else Inf z)"
    unfolding fp_sub.simps Let_def to_fp_def z_def [symmetric] r_def [symmetric] ..
  have "compare_in f (Fin s m) (Fin s' m') (Fin t e) \<longleftrightarrow>
      (let diff = fp_abs (if r < 2 ^ fp_limit f then Fin z r else Inf z) in fp_le diff (Fin t e)
        \<or> \<not> fp_less (fp_mul_FLT_EPSILON f (if m < m' then Fin (s' \<and> m' = 0) m' else Fin (s \<and> m = 0) m)) diff)"
    unfolding compare_in_abs Let_def sub by simp
  also have "\<dots> \<longleftrightarrow> r < 2 ^ fp_limit f \<and> (int r \<le> fin_val t e \<or> r \<le> ?R)"
    unfolding w Let_def by (cases "r < 2 ^ fp_limit f") (simp_all only: if_True if_False fp_abs_simps fp_le.simps fp_less.simps v fin_val_abs, auto)
  finally show ?thesis .
qed

lemma tolerance:
  fixes s s' :: bool
  assumes "in_format f m" "in_format f m'" "in_format f e"
  defines "d \<equiv> nat \<bar>fin_val s m - fin_val s' m'\<bar>"
  shows "d \<le> e \<or> d * 2 ^ 23 \<le> max m m' \<Longrightarrow> compare_in f (Fin s m) (Fin s' m') (Fin False e)"
    and "compare_in f (Fin s m) (Fin s' m') (Fin False e) \<Longrightarrow>
      d * (2 ^ fp_prec f - 1) \<le> e * 2 ^ fp_prec f
      \<or> d * (2 ^ fp_prec f - 1) * 2 ^ 24 \<le> (2 * max m m' + 2 ^ 23) * 2 ^ fp_prec f"
proof -
  let ?p = "fp_prec f" and ?M = "max m m'"
  let ?r = "rounded (fp_prec f) 0 d" and ?R = "rounded (fp_prec f) 23 (max m m')"
  have M: "in_format f ?M" using assms(1,2) by (simp add: max_def)
  then have R: "?R \<le> ?M" using rounded_less [OF _ prec_pos] by (simp add: in_format_def)
  note c = compare_finite [OF assms(1,2), where s = s and s' = s' and t = False and e = e, folded d_def]
  have v: "fin_val False e = int e" by (simp add: fin_val_def)
  have low: "d * (2 ^ ?p - 1) \<le> ?r * 2 ^ ?p" using prec_pos by (rule rounded_error_low)
  {
    assume "d \<le> e \<or> d * 2 ^ 23 \<le> ?M"
    then have "?r \<le> e \<or> ?r \<le> ?R"
      using rounded_mono [OF _ prec_pos, of d e 0] rounded_scaled [OF _ prec_pos, of d 23 ?M] assms(3)
      by (auto simp: in_format_def)
    moreover from this have "?r < 2 ^ fp_limit f" using assms(3) M R by (auto simp: in_format_def)
    ultimately show "compare_in f (Fin s m) (Fin s' m') (Fin False e)" unfolding c v by simp
  next
    assume "compare_in f (Fin s m) (Fin s' m') (Fin False e)"
    then consider "?r \<le> e" | "?r \<le> ?R" unfolding c v by auto
    then show "d * (2 ^ ?p - 1) \<le> e * 2 ^ ?p \<or> d * (2 ^ ?p - 1) * 2 ^ 24 \<le> (2 * ?M + 2 ^ 23) * 2 ^ ?p"
    proof cases
      case 1
      then show ?thesis using low by (meson le_trans mult_le_mono1)
    next
      case 2
      have "?R * 2 ^ 24 \<le> 2 * ?M + 2 ^ 23" using rounded_error_high [of ?p ?M 23] M by (simp add: in_format_def)
      then have "?r * 2 ^ 24 \<le> 2 * ?M + 2 ^ 23" using 2 by (meson le_trans mult_le_mono1)
      then have "?r * 2 ^ ?p * 2 ^ 24 \<le> (2 * ?M + 2 ^ 23) * 2 ^ ?p" by (simp add: mult.commute mult.left_commute)
      moreover have "d * (2 ^ ?p - 1) * 2 ^ 24 \<le> ?r * 2 ^ ?p * 2 ^ 24" using low by (rule mult_le_mono1)
      ultimately show ?thesis by linarith
    qed
  }
qed

lemma not_finite:
  assumes "(\<forall>s m. a \<noteq> Fin s m) \<or> (\<forall>s m. b \<noteq> Fin s m)"
  shows "compare_in f a b e"
proof -
  show ?thesis
    using assms unfolding compare_in_abs by (cases a; cases b) (auto simp: Let_def)
qed

end

interpretation single: rounding_format binary32
  by unfold_locales (simp add: binary32_def)

interpretation dbl: rounding_format binary64
  by unfold_locales (simp add: binary64_def)

lemma reports_float:
  "reportsM (\<lambda>s. Some (float_compare a b e)) (float_values_equal_display_error a b e)"
  "reportsM (\<lambda>s. Some (\<not> float_compare a b e)) (float_values_not_equal_display_error a b e)"
  "reportsM (\<lambda>s. Some (double_compare a b e)) (double_values_equal_display_error a b e)"
  "reportsM (\<lambda>s. Some (\<not> double_compare a b e)) (double_values_not_equal_display_error a b e)"
  unfolding float_values_equal_display_error_def float_values_not_equal_display_error_def
    double_values_equal_display_error_def double_values_not_equal_display_error_def
  by (rule reportsM_display, simp)+

lemma asserts_float:
  "assertsM (\<lambda>s. Some (float_compare a b e)) (cm_assert_float_equal a b e fl l)"
  "assertsM (\<lambda>s. Some (\<not> float_compare a b e)) (cm_assert_float_not_equal a b e fl l)"
  "assertsM (\<lambda>s. Some (double_compare a b e)) (cm_assert_double_equal a b e fl l)"
  "assertsM (\<lambda>s. Some (\<not> double_compare a b e)) (cm_assert_double_not_equal a b e fl l)"
  unfolding cm_assert_float_equal_def cm_assert_float_not_equal_def cm_assert_double_equal_def cm_assert_double_not_equal_def
  by (intro assertsM_fail_unless reports_float)+

section \<open>Properties\<close>

text \<open>
  C27. The tolerance of \<^verbatim>\<open>assert_float_equal\<close> on finite numbers, with an epsilon that is
  not negative. The assertion never fails on two numbers whose exact distance is at most
  epsilon or at most \<open>2\<^sup>-\<^sup>2\<^sup>3\<close> of the larger magnitude; and when it succeeds, the
  distance is within one of these bounds up to a rounding error: a relative one of \<open>2\<^sup>-\<^sup>2\<^sup>4\<close>
  for epsilon, and half a unit of the smallest subnormal number besides for the relative bound.
  \<^verbatim>\<open>assert_float_not_equal\<close> succeeds exactly when \<^verbatim>\<open>assert_float_equal\<close> fails.
\<close>

theorem float_equal_tolerance:
  assumes "in_format binary32 m" and "in_format binary32 m'" and "in_format binary32 e"
    and "d = nat \<bar>fin_val s m - fin_val s' m'\<bar>"
  shows "\<exists>b. asserts_exactly b (cm_assert_float_equal (Fin s m) (Fin s' m') (Fin False e) fl l) st
     \<and> asserts_exactly (\<not> b) (cm_assert_float_not_equal (Fin s m) (Fin s' m') (Fin False e) fl l) st
     \<and> (d \<le> e \<or> d * 2 ^ 23 \<le> max m m' \<longrightarrow> b)
     \<and> (b \<longrightarrow> d * (2 ^ 24 - 1) \<le> e * 2 ^ 24 \<or> d * (2 ^ 24 - 1) \<le> 2 * max m m' + 2 ^ 23)"
proof -
  let ?b = "float_compare (Fin s m) (Fin s' m') (Fin False e)"
  note t = single.tolerance [OF assms(1-3), of s s', folded assms(4) compare_in_formats]
  have p: "fp_prec binary32 = 24" by (simp add: binary32_def)
  have "d \<le> e \<or> d * 2 ^ 23 \<le> max m m' \<longrightarrow> ?b" using t(1) by blast
  moreover have "?b \<longrightarrow> d * (2 ^ 24 - 1) \<le> e * 2 ^ 24 \<or> d * (2 ^ 24 - 1) \<le> 2 * max m m' + 2 ^ 23"
    using t(2) unfolding p mult_le_cancel2 by simp
  ultimately show ?thesis
    using assertsM_exactly [OF asserts_float(1)] assertsM_exactly [OF asserts_float(2)] by blast
qed

text \<open>
  C28. The same for \<^verbatim>\<open>assert_double_equal\<close>: the relative tolerance is the one of
  single precision, \<open>2\<^sup>-\<^sup>2\<^sup>3\<close>, not that of \<^verbatim>\<open>double\<close>, whatever the epsilon.
\<close>

theorem double_equal_tolerance:
  assumes "in_format binary64 m" and "in_format binary64 m'" and "in_format binary64 e"
    and "d = nat \<bar>fin_val s m - fin_val s' m'\<bar>"
  shows "\<exists>b. asserts_exactly b (cm_assert_double_equal (Fin s m) (Fin s' m') (Fin False e) fl l) st
     \<and> asserts_exactly (\<not> b) (cm_assert_double_not_equal (Fin s m) (Fin s' m') (Fin False e) fl l) st
     \<and> (d \<le> e \<or> d * 2 ^ 23 \<le> max m m' \<longrightarrow> b)
     \<and> (b \<longrightarrow> d * (2 ^ 53 - 1) \<le> e * 2 ^ 53 \<or> d * (2 ^ 53 - 1) * 2 ^ 24 \<le> (2 * max m m' + 2 ^ 23) * 2 ^ 53)"
proof -
  let ?b = "double_compare (Fin s m) (Fin s' m') (Fin False e)"
  note t = dbl.tolerance [OF assms(1-3), of s s', folded assms(4) compare_in_formats]
  have p: "fp_prec binary64 = 53" by (simp add: binary64_def)
  have "d \<le> e \<or> d * 2 ^ 23 \<le> max m m' \<longrightarrow> ?b" using t(1) by blast
  moreover have "?b \<longrightarrow> d * (2 ^ 53 - 1) \<le> e * 2 ^ 53 \<or> d * (2 ^ 53 - 1) * 2 ^ 24 \<le> (2 * max m m' + 2 ^ 23) * 2 ^ 53"
    using t(2) unfolding p by blast
  ultimately show ?thesis
    using assertsM_exactly [OF asserts_float(3)] assertsM_exactly [OF asserts_float(4)] by blast
qed

text \<open>
  C31. NaN and the infinities are equal to everything: when one of the two values is not a
  finite number, \<^verbatim>\<open>assert_float_equal\<close> and \<^verbatim>\<open>assert_double_equal\<close> succeed and their
  negations fail, whatever the other value and the epsilon.
\<close>

theorem not_finite_equals_everything:
  assumes "(\<forall>s m. a \<noteq> Fin s m) \<or> (\<forall>s m. b \<noteq> Fin s m)"
  shows "cm_assert_float_equal a b e fl l st = (Ret (), st) \<and> cm_assert_double_equal a b e fl l st = (Ret (), st)
    \<and> fst (cm_assert_float_not_equal a b e fl l st) = failure_outcome st
    \<and> fst (cm_assert_double_not_equal a b e fl l st) = failure_outcome st"
  using assertsM_exactly [OF asserts_float(1)] assertsM_exactly [OF asserts_float(2)]
    assertsM_exactly [OF asserts_float(3)] assertsM_exactly [OF asserts_float(4)]
    single.not_finite [OF assms] dbl.not_finite [OF assms]
  unfolding asserts_exactly_def compare_in_formats by metis

theorem float_equal_tolerance_witness:
  "in_format binary32 100 \<and> asserts_exactly True (cm_assert_float_equal (Fin False 100) (Fin False 101) (Fin False 1) ''t.c'' 3)
     (initial_state (\<lambda>_. None) (\<lambda>_. []) (\<lambda>_. 0) (\<lambda>_. 0) (\<lambda>_ _. 0) Map.empty)"
proof -
  have f: "in_format binary32 100" "in_format binary32 101" "in_format binary32 1"
    by (simp_all add: in_format_def binary32_def rounded_def half_even_def bit_count.simps)
  from float_equal_tolerance [OF f refl, of False False "''t.c''" 3
      "initial_state (\<lambda>_. None) (\<lambda>_. []) (\<lambda>_. 0) (\<lambda>_. 0) (\<lambda>_ _. 0) Map.empty"] f(1)
  show ?thesis by (auto simp: fin_val_def)
qed

theorem double_equal_tolerance_witness:
  "asserts_exactly True (cm_assert_double_equal (Fin False 1152921504606846976) (Fin False 1152921505680588800) (Fin False 0) ''t.c'' 3)
     (initial_state (\<lambda>_. None) (\<lambda>_. []) (\<lambda>_. 0) (\<lambda>_. 0) (\<lambda>_ _. 0) Map.empty)"
proof -
  have f: "in_format binary64 1152921504606846976" "in_format binary64 1152921505680588800" "in_format binary64 0"
    by (simp_all add: in_format_def binary64_def rounded_def half_even_def bit_count.simps)
  from double_equal_tolerance [OF f refl, of False False "''t.c''" 3
      "initial_state (\<lambda>_. None) (\<lambda>_. []) (\<lambda>_. 0) (\<lambda>_. 0) (\<lambda>_ _. 0) Map.empty"]
  show ?thesis by (auto simp: fin_val_def)
qed

theorem not_finite_equals_everything_witness:
  "cm_assert_float_equal (Inf False) (Fin False 1) (Fin False 0) ''t.c'' 3
     (initial_state (\<lambda>_. None) (\<lambda>_. []) (\<lambda>_. 0) (\<lambda>_. 0) (\<lambda>_ _. 0) Map.empty)
   = (Ret (), initial_state (\<lambda>_. None) (\<lambda>_. []) (\<lambda>_. 0) (\<lambda>_. 0) (\<lambda>_ _. 0) Map.empty)"
  using not_finite_equals_everything [of "Inf False" "Fin False 1"] by simp

end
