(* ===== verification/Coverity_Models.thy ===== *)
theory Coverity_Models
  imports Float_Compare
begin

text \<open>
  The models of the assertions in \<^verbatim>\<open>coverity/coverity_assert_model.c\<close>, which tell the
  Coverity analyser on which arguments an assertion does not come back. A model either
  returns or calls \<^verbatim>\<open>__coverity_panic__\<close>, which ends the path. An uninitialised local variable of a
  model stands for any value; it is an argument here. The theorems compare the models with the
  assertions of \<^verbatim>\<open>src/cmocka.c\<close>.
\<close>

section \<open>The models\<close>

datatype path = Path_returns | Path_panics

definition panic_if :: "bool \<Rightarrow> path" where
  "panic_if b = (if b then Path_panics else Path_returns)"

definition cov_assert_true :: "uintmax \<Rightarrow> path" where
  "cov_assert_true result = panic_if (result = 0)"

definition cov_assert_int_equal :: "64 word \<Rightarrow> 64 word \<Rightarrow> path" where
  "cov_assert_int_equal a b = panic_if (sint a \<noteq> sint b)"

definition cov_assert_uint_equal :: "uintmax \<Rightarrow> uintmax \<Rightarrow> path" where
  "cov_assert_uint_equal a b = panic_if (a \<noteq> b)"

definition cov_assert_int_not_equal :: "64 word \<Rightarrow> 64 word \<Rightarrow> path" where
  "cov_assert_int_not_equal a b = panic_if (sint a = sint b)"

definition cov_assert_uint_not_equal :: "uintmax \<Rightarrow> uintmax \<Rightarrow> path" where
  "cov_assert_uint_not_equal a b = panic_if (a = b)"

definition cov_assert_return_code :: "64 word \<Rightarrow> 32 word \<Rightarrow> path" where
  "cov_assert_return_code result error = panic_if (sint result < 0)"

text \<open>\<^verbatim>\<open>==\<close> on floating-point numbers: false when an operand is NaN.\<close>

fun fp_eq :: "fp \<Rightarrow> fp \<Rightarrow> bool" where
  "fp_eq (Fin s m) (Fin s' m') = (fin_val s m = fin_val s' m')"
| "fp_eq (Inf s) (Inf s') = (s = s')"
| "fp_eq x y = False"

definition cov_assert_float_equal :: "fp \<Rightarrow> fp \<Rightarrow> fp \<Rightarrow> path" where
  "cov_assert_float_equal a b epsilon = panic_if (\<not> fp_eq a b)"

definition cov_assert_float_not_equal :: "fp \<Rightarrow> fp \<Rightarrow> fp \<Rightarrow> path" where
  "cov_assert_float_not_equal a b epsilon = panic_if (fp_eq a b)"

definition cov_assert_double_equal :: "fp \<Rightarrow> fp \<Rightarrow> fp \<Rightarrow> path" where
  "cov_assert_double_equal a b epsilon = panic_if (\<not> fp_eq a b)"

definition cov_assert_double_not_equal :: "fp \<Rightarrow> fp \<Rightarrow> fp \<Rightarrow> path" where
  "cov_assert_double_not_equal a b epsilon = panic_if (\<not> fp_eq a b)"

text \<open>Reading the first byte of each operand is undefined (\<open>None\<close>) at an unmapped address.\<close>

definition reads_both :: "(addr \<rightharpoonup> byte) \<Rightarrow> addr \<Rightarrow> addr \<Rightarrow> path \<Rightarrow> path option" where
  "reads_both mem a b r = (if mem a = None \<or> mem b = None then None else Some r)"

definition cov_assert_string_equal :: "int \<Rightarrow> (addr \<rightharpoonup> byte) \<Rightarrow> addr \<Rightarrow> addr \<Rightarrow> path option" where
  "cov_assert_string_equal cmp mem a b = reads_both mem a b (panic_if (cmp \<noteq> 0))"

definition cov_assert_string_not_equal :: "int \<Rightarrow> (addr \<rightharpoonup> byte) \<Rightarrow> addr \<Rightarrow> addr \<Rightarrow> path option" where
  "cov_assert_string_not_equal cmp mem a b = reads_both mem a b (panic_if (cmp = 0))"

definition cov_assert_memory_equal :: "int \<Rightarrow> (addr \<rightharpoonup> byte) \<Rightarrow> addr \<Rightarrow> addr \<Rightarrow> 64 word \<Rightarrow> path option" where
  "cov_assert_memory_equal cmp mem a b sz = reads_both mem a b (panic_if (cmp \<noteq> 0))"

definition cov_assert_memory_not_equal :: "int \<Rightarrow> (addr \<rightharpoonup> byte) \<Rightarrow> addr \<Rightarrow> addr \<Rightarrow> 64 word \<Rightarrow> path option" where
  "cov_assert_memory_not_equal cmp mem a b sz = reads_both mem a b (panic_if (cmp = 0))"

definition cov_assert_int_in_range :: "64 word \<Rightarrow> 64 word \<Rightarrow> 64 word \<Rightarrow> path" where
  "cov_assert_int_in_range v minimum maximum = panic_if (sint v < sint minimum \<or> sint v > sint maximum)"

definition cov_assert_uint_in_range :: "uintmax \<Rightarrow> uintmax \<Rightarrow> uintmax \<Rightarrow> path" where
  "cov_assert_uint_in_range v minimum maximum = panic_if (v < minimum \<or> v > maximum)"

definition cov_assert_not_in_range :: "uintmax \<Rightarrow> uintmax \<Rightarrow> uintmax \<Rightarrow> path" where
  "cov_assert_not_in_range v minimum maximum = panic_if (v > minimum \<and> v < maximum)"

text \<open>The loops over the values.\<close>

fun cov_assert_int_in_set :: "64 word \<Rightarrow> (64 word) list \<Rightarrow> path" where
  "cov_assert_int_in_set v [] = Path_panics"
| "cov_assert_int_in_set v (x # xs) = (if sint v = sint x then Path_returns else cov_assert_int_in_set v xs)"

fun cov_assert_uint_in_set :: "uintmax \<Rightarrow> uintmax list \<Rightarrow> path" where
  "cov_assert_uint_in_set v [] = Path_panics"
| "cov_assert_uint_in_set v (x # xs) = (if v = x then Path_returns else cov_assert_uint_in_set v xs)"

fun cov_assert_int_not_in_set :: "64 word \<Rightarrow> (64 word) list \<Rightarrow> path" where
  "cov_assert_int_not_in_set v [] = Path_returns"
| "cov_assert_int_not_in_set v (x # xs) = (if sint v = sint x then Path_panics else cov_assert_int_not_in_set v xs)"

fun cov_assert_uint_not_in_set :: "uintmax \<Rightarrow> uintmax list \<Rightarrow> path" where
  "cov_assert_uint_not_in_set v [] = Path_returns"
| "cov_assert_uint_not_in_set v (x # xs) = (if v = x then Path_panics else cov_assert_uint_not_in_set v xs)"

section \<open>Model and assertion\<close>

lemma panic_if_iff [simp]: "panic_if b = Path_returns \<longleftrightarrow> \<not> b" "panic_if b = Path_panics \<longleftrightarrow> b"
  by (simp_all add: panic_if_def)

lemma set_models [simp]:
  "cov_assert_int_in_set v xs = Path_returns \<longleftrightarrow> v \<in> set xs" "cov_assert_uint_in_set v xs = Path_returns \<longleftrightarrow> v \<in> set xs"
  "cov_assert_int_not_in_set v xs = Path_returns \<longleftrightarrow> v \<notin> set xs" "cov_assert_uint_not_in_set v xs = Path_returns \<longleftrightarrow> v \<notin> set xs"
  by (induction xs) (auto simp: sint_eq_iff)

text \<open>The model of an assertion on integers.\<close>

fun path_of :: "assertion \<Rightarrow> path option" where
  "path_of (A_true r e) = Some (cov_assert_true r)"
| "path_of (A_return_code r er e) = Some (cov_assert_return_code r er)"
| "path_of (A_int_equal a b) = Some (cov_assert_int_equal a b)"
| "path_of (A_int_not_equal a b) = Some (cov_assert_int_not_equal a b)"
| "path_of (A_uint_equal a b) = Some (cov_assert_uint_equal a b)"
| "path_of (A_uint_not_equal a b) = Some (cov_assert_uint_not_equal a b)"
| "path_of (A_int_in_range v mn mx) = Some (cov_assert_int_in_range v mn mx)"
| "path_of (A_uint_in_range v mn mx) = Some (cov_assert_uint_in_range v mn mx)"
| "path_of (A_int_in_set v vs) = Some (cov_assert_int_in_set v vs)"
| "path_of (A_uint_in_set v vs) = Some (cov_assert_uint_in_set v vs)"
| "path_of (A_int_not_in_set v vs) = Some (cov_assert_int_not_in_set v vs)"
| "path_of (A_uint_not_in_set v vs) = Some (cov_assert_uint_not_in_set v vs)"
| "path_of a = None"

lemma path_of_asserted: "path_of a = Some p \<Longrightarrow> asserted a s = Some (p = Path_returns)"
  by (cases a) (auto simp: cov_assert_true_def cov_assert_return_code_def cov_assert_int_equal_def cov_assert_int_not_equal_def
      cov_assert_uint_equal_def cov_assert_uint_not_equal_def cov_assert_int_in_range_def cov_assert_uint_in_range_def
      sint_eq_iff not_less)

lemma fp_eq_compare:
  assumes "in_format binary32 m" "in_format binary32 m'" "in_format binary32 e" "fp_eq (Fin s m) (Fin s' m')"
  shows "float_compare (Fin s m) (Fin s' m') (Fin False e)"
  using single.tolerance(1) [OF assms(1-3), of s s', folded compare_in_formats] assms(4) by simp

lemma fp_eq_double_compare:
  assumes "in_format binary64 m" "in_format binary64 m'" "in_format binary64 e" "fp_eq (Fin s m) (Fin s' m')"
  shows "double_compare (Fin s m) (Fin s' m') (Fin False e)"
  using dbl.tolerance(1) [OF assms(1-3), of s s', folded compare_in_formats] assms(4) by simp

text \<open>
  C36. The models of the assertions on integers agree with the library: the model of an
  assertion returns exactly on the arguments on which the assertion returns, and panics on
  those on which it leaves the test.
\<close>

theorem coverity_models_agree:
  assumes "path_of a = Some p"
  shows "asserts_exactly (p = Path_returns) (run_assertion se a fl l) s"
  using assertsM_at [OF run_assertion_asserts path_of_asserted [OF assms]] .

theorem coverity_models_agree_witness:
  "asserts_exactly False (run_assertion (\<lambda>_. []) (A_int_in_range 9 1 8) ''t.c'' 3) (initial_state (\<lambda>_. None) (\<lambda>_. []) (\<lambda>_. 0) (\<lambda>_. 0) (\<lambda>_ _. 0) Map.empty)"
  using coverity_models_agree [of "A_int_in_range 9 1 8" Path_panics "\<lambda>_. []" "''t.c''" 3 "initial_state (\<lambda>_. None) (\<lambda>_. []) (\<lambda>_. 0) (\<lambda>_. 0) (\<lambda>_ _. 0) Map.empty"]
  by (simp add: cov_assert_int_in_range_def)

text \<open>
  Where the models and the library part. The models of the floating-point assertions ignore the
  tolerance: on finite numbers, the equality assertions succeed wherever their models
  return, and \<^verbatim>\<open>assert_float_not_equal\<close> fails wherever its model panics. The model of
  \<^verbatim>\<open>assert_double_not_equal\<close> is inverted: it returns exactly on equal numbers, on
  which the assertion fails. The model of \<^verbatim>\<open>_assert_not_in_range\<close> returns at both bounds of
  the range, where \<^verbatim>\<open>_assert_uint_not_in_range\<close> fails.
\<close>

lemma coverity_models_differ:
  assumes "in_format binary32 m" and "in_format binary32 m'" and "in_format binary32 e"
    and "in_format binary64 n" and "in_format binary64 n'" and "in_format binary64 d" and "mn \<le> mx"
  shows "(cov_assert_float_equal (Fin s m) (Fin s' m') (Fin False e) = Path_returns
      \<longrightarrow> asserts_exactly True (cm_assert_float_equal (Fin s m) (Fin s' m') (Fin False e) fl l) st)
    \<and> (cov_assert_float_not_equal (Fin s m) (Fin s' m') (Fin False e) = Path_panics
      \<longrightarrow> asserts_exactly False (cm_assert_float_not_equal (Fin s m) (Fin s' m') (Fin False e) fl l) st)
    \<and> (cov_assert_double_equal (Fin s n) (Fin s' n') (Fin False d) = Path_returns
      \<longrightarrow> asserts_exactly True (cm_assert_double_equal (Fin s n) (Fin s' n') (Fin False d) fl l) st)
    \<and> (cov_assert_double_not_equal (Fin s n) (Fin s' n') (Fin False d) = Path_returns
      \<longrightarrow> asserts_exactly False (cm_assert_double_not_equal (Fin s n) (Fin s' n') (Fin False d) fl l) st)
    \<and> cov_assert_not_in_range mn mn mx = Path_returns \<and> asserts_exactly False (cm_assert_uint_not_in_range mn mn mx fl l) st
    \<and> cov_assert_not_in_range mx mn mx = Path_returns \<and> asserts_exactly False (cm_assert_uint_not_in_range mx mn mx fl l) st"
proof -
  note f = assertsM_at [OF asserts_float(1)] assertsM_at [OF asserts_float(2)]
    assertsM_at [OF asserts_float(3)] assertsM_at [OF asserts_float(4)]
  note eq = fp_eq_compare [OF assms(1-3), of s s'] fp_eq_double_compare [OF assms(4-6), of s s']
  have r: "asserts_exactly False (cm_assert_uint_not_in_range v mn mx fl l) st" if "mn \<le> v" "v \<le> mx" for v
    using assertsM_at [OF run_assertion_asserts, of "A_uint_not_in_range v mn mx" st False "\<lambda>_. []" fl l] that by simp
  show ?thesis
    unfolding cov_assert_float_equal_def cov_assert_float_not_equal_def cov_assert_double_equal_def
      cov_assert_double_not_equal_def cov_assert_not_in_range_def panic_if_iff not_not
    by (intro conjI impI f r) (use eq assms(7) in simp_all)
qed

lemma coverity_models_differ_example:
  "cov_assert_double_not_equal (Fin False 1) (Fin False 1) (Fin False 0) = Path_returns
    \<and> asserts_exactly False (cm_assert_double_not_equal (Fin False 1) (Fin False 1) (Fin False 0) ''t.c'' 3)
     (initial_state (\<lambda>_. None) (\<lambda>_. []) (\<lambda>_. 0) (\<lambda>_. 0) (\<lambda>_ _. 0) Map.empty)"
proof -
  have f: "in_format binary32 1" "in_format binary32 0" "in_format binary64 1" "in_format binary64 0"
    by (simp_all add: in_format_def binary32_def binary64_def rounded_def half_even_def bit_count.simps)
  have "(0 :: uintmax) \<le> 1" by simp
  note c = coverity_models_differ [OF f(1,1,2,3,3,4) this, of False False "''t.c''" 3
      "initial_state (\<lambda>_. None) (\<lambda>_. []) (\<lambda>_. 0) (\<lambda>_. 0) (\<lambda>_ _. 0) Map.empty"]
  have "cov_assert_double_not_equal (Fin False 1) (Fin False 1) (Fin False 0) = Path_returns"
    by (simp add: cov_assert_double_not_equal_def)
  with c show ?thesis by blast
qed

end
