(* ===== verification/Mock_Objects.thy ===== *)
theory Mock_Objects
  imports Assertions
begin

text \<open>
  Mock objects of \<^verbatim>\<open>src/cmocka.c\<close>: return values (\<^verbatim>\<open>_will_return\<close>,
  \<^verbatim>\<open>_mock\<close>), expected parameters (\<^verbatim>\<open>_expect_*\<close>, \<^verbatim>\<open>_check_expected\<close>),
  expected calls (\<^verbatim>\<open>_expect_function_call\<close>, \<^verbatim>\<open>_function_called\<close>), and what the
  runner does with them around a test (\<^verbatim>\<open>initialize_testing\<close>,
  \<^verbatim>\<open>fail_if_leftover_values\<close>, \<^verbatim>\<open>teardown_testing\<close>).

  The invariant \<open>mock_inv\<close> says that the three structures own their heap objects: each is
  live, of the right kind and owned once. The theorems give the queue behaviour of each
  pair of operations and show that teardown releases every owned object exactly once.
\<close>

section \<open>Return values\<close>

text \<open>
  The call of \<^verbatim>\<open>get_symbol_value\<close> on one of the maps: it stores the new map, prints
  \<^verbatim>\<open>No entries for symbol\<close> and hands over the reference cnt and the object.
\<close>

definition call_get_symbol_value ::
  "(cm_state \<Rightarrow> sym_node list) \<Rightarrow> (sym_node list \<Rightarrow> cm_state \<Rightarrow> cm_state) \<Rightarrow> string list \<Rightarrow>
   (int \<times> nat option) cm" where
  "call_get_symbol_value get_head set_head names =
     bindM (readM get_head) (\<lambda>head.
       case get_symbol_value head names of
         Inl Gsv_assert \<Rightarrow> seqM (cm_assert_true 0 ''return_value'' cmocka_c 856) (throwM Undefined)
       | Inl Gsv_undefined \<Rightarrow> throwM Undefined
       | Inr res \<Rightarrow>
           seqM (modM (set_head (gsv_map res)))
          (seqM (case gsv_missing res of None \<Rightarrow> retM ()
                 | Some name \<Rightarrow> cmocka_print_error (''No entries for symbol '' @ name @ ''.'' @ nl))
                (retM (gsv_ret res, gsv_out res))))"

definition get_result_value :: "string \<Rightarrow> (int \<times> nat option) cm" where
  "get_result_value function = call_get_symbol_value global_function_result_map_head
     (\<lambda>m s. s\<lparr>global_function_result_map_head := m\<rparr>) [function]"

definition get_parameter_value :: "string \<Rightarrow> string \<Rightarrow> (int \<times> nat option) cm" where
  "get_parameter_value function parameter = call_get_symbol_value global_function_parameter_map_head
     (\<lambda>m s. s\<lparr>global_function_parameter_map_head := m\<rparr>) [function, parameter]"

definition print_location_or :: "SourceLocation \<Rightarrow> string \<Rightarrow> string \<Rightarrow> unit cm" where
  "print_location_or loc note none =
     (if source_location_is_set loc
      then cmocka_print_error (fmt_loc (loc_file loc) (loc_line loc) @ note)
      else cmocka_print_error none)"

text \<open>The object a pointer to a \<^verbatim>\<open>SymbolValue\<close> refers to.\<close>

definition load_symbol :: "nat option \<Rightarrow> (nat \<times> SymbolValue) cm" where
  "load_symbol result = (\<lambda>s. case result of
       None \<Rightarrow> (Undefined, s)
     | Some p \<Rightarrow> (case heap_objs s p of Some (Obj_symbol sv) \<Rightarrow> (Ret (p, sv), s) | _ \<Rightarrow> (Undefined, s)))"

definition type_mismatch :: "string option \<Rightarrow> SymbolValue \<Rightarrow> bool" where
  "type_mismatch name sv \<longleftrightarrow> (case name of None \<Rightarrow> False
     | Some n \<Rightarrow> (case sv_name sv of None \<Rightarrow> True | Some m \<Rightarrow> n \<noteq> m))"

definition say_type_mismatch :: "string \<Rightarrow> string \<Rightarrow> int \<Rightarrow> string option \<Rightarrow> SymbolValue \<Rightarrow> unit cm" where
  "say_type_mismatch function fl ln name sv =
     seqM (cmocka_print_error (fmt_loc (Some fl) ln @ '': error: Type mismatch: name['' @
             (case sv_name sv of None \<Rightarrow> ''NULL'' | Some n \<Rightarrow> n) @ ''] expected['' @ fmt_s name @
             '']in '' @ function @ nl))
    (bindM (readM global_last_mock_value_location) (\<lambda>loc.
       whenM (source_location_is_set loc)
         (cmocka_print_error (''NOTE: The value to be returned by mock declared here: '' @
            fmt_loc (loc_file loc) (loc_line loc) @ nl))))"

definition cm_mock :: "string \<Rightarrow> string \<Rightarrow> int \<Rightarrow> string option \<Rightarrow> CMockaValueData cm" where
  "cm_mock function fl ln name = bindM (get_result_value function) (\<lambda>(rc, result).
     if rc \<noteq> 0
     then bindM (load_symbol result) (\<lambda>(symbol, sv).
       seqM (whenM (type_mismatch name sv)
              (seqM (say_type_mismatch function fl ln name sv)
              (seqM (free_object symbol) (exit_test True))))
      (seqM (modM (\<lambda>s. s\<lparr>global_last_mock_value_location := sv_location sv\<rparr>))
      (seqM (whenM (rc = 1) (free_object symbol))
            (retM (sv_value sv)))))
     else
       seqM (cmocka_print_error (fmt_loc (Some fl) ln @ '': error: Could not get value to mock function '' @ function @ nl))
      (bindM (readM global_last_mock_value_location) (\<lambda>loc.
       seqM (print_location_or loc ('': note: Previously returned mock value was declared here'' @ nl)
               (''There were no previously returned mock values for this test.'' @ nl))
      (seqM (exit_test True) (retM 0)))))"

definition cm_will_return ::
  "string \<Rightarrow> string \<Rightarrow> int \<Rightarrow> string option \<Rightarrow> CMockaValueData \<Rightarrow> int \<Rightarrow> unit cm" where
  "cm_will_return function_name fl ln name v cnt =
     bindM (new_object (Obj_symbol \<lparr>sv_name = None, sv_location = initialize_source_location, sv_value = 0\<rparr>)) (\<lambda>p.
     seqM (cm_assert_true (if cnt \<noteq> 0 then 1 else 0) ''count != 0'' cmocka_c 1141)
    (seqM (modM (\<lambda>s. s\<lparr>heap_objs := (heap_objs s)(p \<mapsto>
             Obj_symbol \<lparr>sv_name = name, sv_location = set_source_location fl ln, sv_value = v\<rparr>)\<rparr>))
          (modM (\<lambda>s. s\<lparr>global_function_result_map_head :=
             add_symbol_value (global_function_result_map_head s) [function_name] p cnt\<rparr>))))"

section \<open>Expected parameters\<close>

text \<open>
  \<^verbatim>\<open>_expect_check\<close>. The event is allocated by the caller together with its data
  (\<open>Some\<close>), or here.
\<close>

definition new_event :: "nat cm" where
  "new_event = new_object (Obj_event \<lparr>ev_location = initialize_source_location, ev_parameter_name = [],
     ev_check_value = Check_any, ev_check_value_data = Data_value 0\<rparr>)"

definition cm_expect_check ::
  "string \<Rightarrow> string \<Rightarrow> string \<Rightarrow> int \<Rightarrow> check_fn \<Rightarrow> check_data \<Rightarrow> nat option \<Rightarrow> int \<Rightarrow> unit cm" where
  "cm_expect_check function parameter fl ln check_function data event cnt =
     bindM (case event of Some e \<Rightarrow> retM e | None \<Rightarrow> new_event) (\<lambda>check.
     seqM (modM (\<lambda>s. s\<lparr>heap_objs := (heap_objs s)(check \<mapsto>
             Obj_event \<lparr>ev_location = set_source_location fl ln, ev_parameter_name = parameter,
               ev_check_value = check_function, ev_check_value_data = data\<rparr>)\<rparr>))
          (modM (\<lambda>s. s\<lparr>global_function_parameter_map_head :=
             add_symbol_value (global_function_parameter_map_head s) [function, parameter] check cnt\<rparr>)))"

text \<open>
  The functions that allocate a set, a range or an area of memory first. The array of values
  is never \<^verbatim>\<open>NULL\<close>; its emptiness is asserted after the allocation.
\<close>

definition expect_set_with ::
  "int \<Rightarrow> string \<Rightarrow> string \<Rightarrow> string \<Rightarrow> int \<Rightarrow> uintmax list \<Rightarrow> check_fn \<Rightarrow> int \<Rightarrow> unit cm" where
  "expect_set_with assert_line function parameter fl ln vals check_function cnt =
     bindM new_event (\<lambda>check.
     seqM (cm_assert_true (word_of_nat (length vals)) ''number_of_values'' cmocka_c assert_line)
          (cm_expect_check function parameter fl ln check_function (Data_set vals) (Some check) cnt))"

definition expect_set ::
  "string \<Rightarrow> string \<Rightarrow> string \<Rightarrow> int \<Rightarrow> uintmax list \<Rightarrow> check_fn \<Rightarrow> int \<Rightarrow> unit cm" where
  "expect_set = expect_set_with 1850"

definition expect_int_in_set_impl ::
  "string \<Rightarrow> string \<Rightarrow> string \<Rightarrow> int \<Rightarrow> uintmax list \<Rightarrow> check_fn \<Rightarrow> int \<Rightarrow> unit cm" where
  "expect_int_in_set_impl = expect_set_with 1876"

definition expect_uint_in_set_impl ::
  "string \<Rightarrow> string \<Rightarrow> string \<Rightarrow> int \<Rightarrow> uintmax list \<Rightarrow> check_fn \<Rightarrow> int \<Rightarrow> unit cm" where
  "expect_uint_in_set_impl = expect_set_with 1910"

definition cm_expect_int_in_set :: "string \<Rightarrow> string \<Rightarrow> string \<Rightarrow> int \<Rightarrow> uintmax list \<Rightarrow> int \<Rightarrow> unit cm" where
  "cm_expect_int_in_set function parameter fl ln vals cnt =
     expect_int_in_set_impl function parameter fl ln vals Check_int_in_set cnt"

definition cm_expect_uint_in_set :: "string \<Rightarrow> string \<Rightarrow> string \<Rightarrow> int \<Rightarrow> uintmax list \<Rightarrow> int \<Rightarrow> unit cm" where
  "cm_expect_uint_in_set function parameter fl ln vals cnt =
     expect_uint_in_set_impl function parameter fl ln vals Check_uint_in_set cnt"

definition cm_expect_not_in_set :: "string \<Rightarrow> string \<Rightarrow> string \<Rightarrow> int \<Rightarrow> uintmax list \<Rightarrow> int \<Rightarrow> unit cm" where
  "cm_expect_not_in_set function parameter fl ln vals cnt =
     expect_set function parameter fl ln vals Check_not_in_set cnt"

definition expect_range ::
  "string \<Rightarrow> string \<Rightarrow> string \<Rightarrow> int \<Rightarrow> uintmax \<Rightarrow> uintmax \<Rightarrow> check_fn \<Rightarrow> int \<Rightarrow> unit cm" where
  "expect_range function parameter fl ln minimum maximum check_function cnt =
     bindM new_event (\<lambda>check.
       cm_expect_check function parameter fl ln check_function (Data_range minimum maximum) (Some check) cnt)"

definition cm_expect_in_range :: "string \<Rightarrow> string \<Rightarrow> string \<Rightarrow> int \<Rightarrow> uintmax \<Rightarrow> uintmax \<Rightarrow> int \<Rightarrow> unit cm" where
  "cm_expect_in_range function parameter fl ln minimum maximum cnt =
     expect_range function parameter fl ln minimum maximum Check_in_range cnt"

definition cm_expect_not_in_range :: "string \<Rightarrow> string \<Rightarrow> string \<Rightarrow> int \<Rightarrow> uintmax \<Rightarrow> uintmax \<Rightarrow> int \<Rightarrow> unit cm" where
  "cm_expect_not_in_range function parameter fl ln minimum maximum cnt =
     expect_range function parameter fl ln minimum maximum Check_not_in_range cnt"

definition cm_expect_value :: "string \<Rightarrow> string \<Rightarrow> string \<Rightarrow> int \<Rightarrow> uintmax \<Rightarrow> int \<Rightarrow> unit cm" where
  "cm_expect_value function parameter fl ln v cnt =
     cm_expect_check function parameter fl ln Check_value (Data_value v) None cnt"

definition cm_expect_not_value :: "string \<Rightarrow> string \<Rightarrow> string \<Rightarrow> int \<Rightarrow> uintmax \<Rightarrow> int \<Rightarrow> unit cm" where
  "cm_expect_not_value function parameter fl ln v cnt =
     cm_expect_check function parameter fl ln Check_not_value (Data_value v) None cnt"

definition cm_expect_string :: "string \<Rightarrow> string \<Rightarrow> string \<Rightarrow> int \<Rightarrow> addr \<Rightarrow> int \<Rightarrow> unit cm" where
  "cm_expect_string function parameter fl ln str cnt =
     cm_expect_check function parameter fl ln Check_string (Data_value str) None cnt"

definition cm_expect_not_string :: "string \<Rightarrow> string \<Rightarrow> string \<Rightarrow> int \<Rightarrow> addr \<Rightarrow> int \<Rightarrow> unit cm" where
  "cm_expect_not_string function parameter fl ln str cnt =
     cm_expect_check function parameter fl ln Check_not_string (Data_value str) None cnt"

definition expect_memory_setup ::
  "string \<Rightarrow> string \<Rightarrow> string \<Rightarrow> int \<Rightarrow> addr \<Rightarrow> 64 word \<Rightarrow> check_fn \<Rightarrow> int \<Rightarrow> unit cm" where
  "expect_memory_setup function parameter fl ln mem sz check_function cnt =
     bindM new_event (\<lambda>check.
     seqM (assert_non_null mem cmocka_c 2143)
    (seqM (cm_assert_true sz ''size'' cmocka_c 2144)
    (bindM (memory_at mem (unat sz)) (\<lambda>bytes.
       cm_expect_check function parameter fl ln check_function (Data_memory bytes) (Some check) cnt))))"

definition cm_expect_memory :: "string \<Rightarrow> string \<Rightarrow> string \<Rightarrow> int \<Rightarrow> addr \<Rightarrow> 64 word \<Rightarrow> int \<Rightarrow> unit cm" where
  "cm_expect_memory function parameter fl ln mem sz cnt =
     expect_memory_setup function parameter fl ln mem sz Check_memory cnt"

definition cm_expect_not_memory :: "string \<Rightarrow> string \<Rightarrow> string \<Rightarrow> int \<Rightarrow> addr \<Rightarrow> 64 word \<Rightarrow> int \<Rightarrow> unit cm" where
  "cm_expect_not_memory function parameter fl ln mem sz cnt =
     expect_memory_setup function parameter fl ln mem sz Check_not_memory cnt"

definition cm_expect_any :: "string \<Rightarrow> string \<Rightarrow> string \<Rightarrow> int \<Rightarrow> int \<Rightarrow> unit cm" where
  "cm_expect_any function parameter fl ln cnt =
     cm_expect_check function parameter fl ln Check_any (Data_value 0) None cnt"

text \<open>
  The check of an event: the library's own functions or, by its number, one of the test's. A
  function that reads a structure of another kind than its event carries is undefined.
\<close>

definition int_of_bool :: "bool cm \<Rightarrow> int cm" where
  "int_of_bool m = bindM m (\<lambda>b. retM (if b then 1 else 0))"

definition check_int_in_set :: "CMockaValueData \<Rightarrow> check_data \<Rightarrow> int cm" where
  "check_int_in_set v d = (case d of Data_set xs \<Rightarrow> int_of_bool (int_value_in_set_display_error v xs False) | _ \<Rightarrow> throwM Undefined)"

definition check_uint_in_set :: "CMockaValueData \<Rightarrow> check_data \<Rightarrow> int cm" where
  "check_uint_in_set v d = (case d of Data_set xs \<Rightarrow> int_of_bool (uint_value_in_set_display_error v xs False) | _ \<Rightarrow> throwM Undefined)"

definition check_not_in_set :: "CMockaValueData \<Rightarrow> check_data \<Rightarrow> int cm" where
  "check_not_in_set v d = (case d of Data_set xs \<Rightarrow> int_of_bool (value_in_set_display_error v xs True) | _ \<Rightarrow> throwM Undefined)"

definition check_in_range :: "CMockaValueData \<Rightarrow> check_data \<Rightarrow> int cm" where
  "check_in_range v d = (case d of Data_range mn mx \<Rightarrow> int_of_bool (uint_in_range_display_error v mn mx) | _ \<Rightarrow> throwM Undefined)"

definition check_not_in_range :: "CMockaValueData \<Rightarrow> check_data \<Rightarrow> int cm" where
  "check_not_in_range v d = (case d of Data_range mn mx \<Rightarrow> int_of_bool (integer_not_in_range_display_error v mn mx) | _ \<Rightarrow> throwM Undefined)"

definition check_value :: "CMockaValueData \<Rightarrow> check_data \<Rightarrow> int cm" where
  "check_value v d = (case d of Data_value w \<Rightarrow> int_of_bool (uint_values_equal_display_error v w) | _ \<Rightarrow> throwM Undefined)"

definition check_not_value :: "CMockaValueData \<Rightarrow> check_data \<Rightarrow> int cm" where
  "check_not_value v d = (case d of Data_value w \<Rightarrow> int_of_bool (uint_values_not_equal_display_error v w) | _ \<Rightarrow> throwM Undefined)"

definition check_string :: "CMockaValueData \<Rightarrow> check_data \<Rightarrow> int cm" where
  "check_string v d = (case d of Data_value w \<Rightarrow> int_of_bool (string_equal_display_error v w) | _ \<Rightarrow> throwM Undefined)"

definition check_not_string :: "CMockaValueData \<Rightarrow> check_data \<Rightarrow> int cm" where
  "check_not_string v d = (case d of Data_value w \<Rightarrow> int_of_bool (string_not_equal_display_error v w) | _ \<Rightarrow> throwM Undefined)"

definition check_memory :: "CMockaValueData \<Rightarrow> check_data \<Rightarrow> int cm" where
  "check_memory v d = (case d of
       Data_memory bytes \<Rightarrow>
         int_of_bool (bindM (memory_at v (length bytes)) (\<lambda>x. memory_equal_bytes x bytes))
     | _ \<Rightarrow> throwM Undefined)"

text \<open>The copy follows the \<^verbatim>\<open>CheckMemoryData\<close> of 56 bytes; only the message shows its address.\<close>

definition check_not_memory :: "nat \<Rightarrow> CMockaValueData \<Rightarrow> check_data \<Rightarrow> int cm" where
  "check_not_memory check v d = (case d of
       Data_memory bytes \<Rightarrow> bindM (readM obj_addr) (\<lambda>at.
         int_of_bool (bindM (memory_at v (length bytes)) (\<lambda>x.
           memory_not_equal_bytes x bytes v (at check + 56))))
     | _ \<Rightarrow> throwM Undefined)"

definition check_any :: "CMockaValueData \<Rightarrow> check_data \<Rightarrow> int cm" where
  "check_any v d = retM 1"

type_synonym user_checks = "nat \<Rightarrow> CMockaValueData \<Rightarrow> CMockaValueData \<Rightarrow> int cm"

text \<open>The call through the function pointer of the event \<open>p\<close>.\<close>

fun run_check :: "user_checks \<Rightarrow> nat \<Rightarrow> check_fn \<Rightarrow> CMockaValueData \<Rightarrow> check_data \<Rightarrow> int cm" where
  "run_check uc p Check_int_in_set = check_int_in_set"
| "run_check uc p Check_uint_in_set = check_uint_in_set"
| "run_check uc p Check_not_in_set = check_not_in_set"
| "run_check uc p Check_in_range = check_in_range"
| "run_check uc p Check_not_in_range = check_not_in_range"
| "run_check uc p Check_value = check_value"
| "run_check uc p Check_not_value = check_not_value"
| "run_check uc p Check_string = check_string"
| "run_check uc p Check_not_string = check_not_string"
| "run_check uc p Check_memory = check_memory"
| "run_check uc p Check_not_memory = check_not_memory p"
| "run_check uc p Check_any = check_any"
| "run_check uc p (Check_user n) = (\<lambda>v d. case d of Data_value w \<Rightarrow> uc n v w | _ \<Rightarrow> throwM Undefined)"

lemmas check_defs = check_int_in_set_def check_uint_in_set_def check_not_in_set_def check_in_range_def
  check_not_in_range_def check_value_def check_not_value_def check_string_def check_not_string_def
  check_memory_def check_not_memory_def check_any_def

definition load_event :: "nat option \<Rightarrow> (nat \<times> CheckParameterEvent) cm" where
  "load_event result = (\<lambda>s. case result of
       None \<Rightarrow> (Undefined, s)
     | Some p \<Rightarrow> (case heap_objs s p of Some (Obj_event ev) \<Rightarrow> (Ret (p, ev), s) | _ \<Rightarrow> (Undefined, s)))"

definition check_failed :: "string \<Rightarrow> string \<Rightarrow> string \<Rightarrow> int \<Rightarrow> unit cm" where
  "check_failed function_name parameter_name fl ln =
     bindM (readM global_last_parameter_location) (\<lambda>loc.
       seqM (cmocka_print_error (fmt_loc (Some fl) ln @ '': error: Check of parameter '' @ parameter_name @
               '', function '' @ function_name @ '' failed'' @ nl @
               fmt_loc (loc_file loc) (loc_line loc) @ '': note: Expected parameter declared here'' @ nl))
            (cm_fail fl ln))"

lemma failsM_check_failed [cm_mono]: "failsM (check_failed f a fl ln)"
  unfolding check_failed_def by (intro cm_mono)

definition cm_check_expected ::
  "user_checks \<Rightarrow> string \<Rightarrow> string \<Rightarrow> string \<Rightarrow> int \<Rightarrow> CMockaValueData \<Rightarrow> unit cm" where
  "cm_check_expected uc function_name parameter_name fl ln v =
     bindM (get_parameter_value function_name parameter_name) (\<lambda>(rc, result).
     if rc \<noteq> 0
     then bindM (load_event result) (\<lambda>(check, ev).
       seqM (modM (\<lambda>s. s\<lparr>global_last_parameter_location := ev_location ev\<rparr>))
      (bindM (run_check uc check (ev_check_value ev) v (ev_check_value_data ev)) (\<lambda>check_succeeded.
       seqM (whenM (rc = 1) (free_object check))
            (whenM (check_succeeded = 0) (check_failed function_name parameter_name fl ln)))))
     else
       seqM (cmocka_print_error (fmt_loc (Some fl) ln @ '': error: Could not get value to check parameter '' @
               parameter_name @ '' of function '' @ function_name @ nl))
      (bindM (readM global_last_parameter_location) (\<lambda>loc.
       seqM (print_location_or loc ('': note: Previously declared parameter value was declared here'' @ nl)
               (''There were no previously declared parameter values for this test.'' @ nl))
            (exit_test True))))"

section \<open>Expected calls\<close>

text \<open>
  \<^verbatim>\<open>_expect_function_call\<close>; the two names are not \<^verbatim>\<open>NULL\<close>.
\<close>

definition cm_expect_function_call :: "string \<Rightarrow> string \<Rightarrow> int \<Rightarrow> int \<Rightarrow> unit cm" where
  "cm_expect_function_call function_name fl ln cnt =
     seqM (cm_assert_true (if cnt \<noteq> 0 then 1 else 0) ''count != 0'' cmocka_c 1194)
    (bindM (new_object (Obj_order \<lparr>fo_location = set_source_location fl ln, fo_function = function_name\<rparr>)) (\<lambda>p.
       modM (\<lambda>s. s\<lparr>global_call_ordering_head := global_call_ordering_head s @ [(cnt, p)]\<rparr>)))"

text \<open>
  The search loop of \<^verbatim>\<open>_function_called\<close>: it stops at the first entry that names the
  function or whose count is greater than -2, or comes back to the list head.
\<close>

datatype scan_result =
    Scan_at nat bool string   \<comment> \<open>the entry, \<^verbatim>\<open>found\<close>, and the function it names\<close>
  | Scan_end
  | Scan_undefined

fun scan_calls :: "(nat \<rightharpoonup> heap_obj) \<Rightarrow> string \<Rightarrow> nat \<Rightarrow> (int \<times> nat) list \<Rightarrow> scan_result" where
  "scan_calls h function i [] = Scan_end"
| "scan_calls h function i ((refcount, p) # rest) =
     (case h p of
        Some (Obj_order o') \<Rightarrow>
          (if fo_function o' = function \<or> refcount > -2
           then Scan_at i (fo_function o' = function) (fo_function o')
           else scan_calls h function (Suc i) rest)
      | _ \<Rightarrow> Scan_undefined)"

definition count_call :: "nat \<Rightarrow> unit cm" where
  "count_call i = bindM (readM global_call_ordering_head) (\<lambda>q.
     let (refcount, p) = q ! i in
     whenM (refcount > -2)
       (if refcount - 1 = 0
        then seqM (modM (\<lambda>s. s\<lparr>global_call_ordering_head := take i q @ drop (Suc i) q\<rparr>)) (free_object p)
        else modM (\<lambda>s. s\<lparr>global_call_ordering_head := q[i := (refcount - 1, p)]\<rparr>)))"

definition cm_function_called :: "string \<Rightarrow> string \<Rightarrow> int \<Rightarrow> unit cm" where
  "cm_function_called function fl ln = bindM (readM (\<lambda>s. s)) (\<lambda>s.
     if global_call_ordering_head s = []
     then seqM (cmocka_print_error (fmt_loc (Some fl) ln @
                  '': error: No mock calls expected but called() was invoked in '' @ function @ nl))
               (exit_test True)
     else case scan_calls (heap_objs s) function 0 (global_call_ordering_head s) of
         Scan_undefined \<Rightarrow> throwM Undefined
       | Scan_end \<Rightarrow>
           seqM (cmocka_print_error (fmt_loc (Some fl) ln @
                  '': error: No expected mock calls matching called() invocation in '' @ function @ nl))
                (exit_test True)
       | Scan_at i found expected \<Rightarrow>
           if found then count_call i
           else seqM (cmocka_print_error (fmt_loc (Some fl) ln @ '': error: Expected call to '' @ expected @
                        '' but received called() in '' @ function @ nl))
                     (exit_test True))"

section \<open>Around a test\<close>

definition initialize_testing :: "unit cm" where
  "initialize_testing = modM (\<lambda>s. s\<lparr>
     global_function_result_map_head := [],
     global_last_mock_value_location := initialize_source_location,
     global_function_parameter_map_head := [],
     global_last_parameter_location := initialize_source_location,
     global_call_ordering_head := []\<rparr>)"

text \<open>
  The text of a declaration that \<^verbatim>\<open>check_for_leftover_values\<close> prints: it reads the object
  as if it started with a \<^verbatim>\<open>SourceLocation\<close>. A \<^verbatim>\<open>CheckParameterEvent\<close> does; a
  \<^verbatim>\<open>SymbolValue\<close> starts with its name, so its name is printed as the file, and the low
  half of the pointer to the file name as the line.
\<close>

definition decl_text :: "cm_state \<Rightarrow> nat \<Rightarrow> string" where
  "decl_text s p = (case heap_objs s p of
       Some (Obj_symbol sv) \<Rightarrow>
         fmt_loc (sv_name sv) (uint (case loc_file (sv_location sv) of None \<Rightarrow> 0 | Some f \<Rightarrow> literal_addr s f))
     | Some (Obj_event ev) \<Rightarrow> fmt_loc (loc_file (ev_location ev)) (loc_line (ev_location ev))
     | Some (Obj_order o') \<Rightarrow> fmt_loc (loc_file (fo_location o')) (loc_line (fo_location o'))
     | None \<Rightarrow> [])"

text \<open>The objects are read for the message, so all of them have to be live.\<close>

definition all_live :: "cm_state \<Rightarrow> nat list \<Rightarrow> bool" where
  "all_live s ps \<longleftrightarrow> list_all (\<lambda>p. heap_objs s p \<noteq> None) ps"

definition report_leftover_map :: "(cm_state \<Rightarrow> sym_node list) \<Rightarrow> string \<Rightarrow> nat \<Rightarrow> nat cm" where
  "report_leftover_map get_head msg n = bindM (readM (\<lambda>s. s)) (\<lambda>s.
     if all_live s (leaves (get_head s))
     then seqM (forM (snd (check_for_leftover_values (decl_text s) msg n (get_head s))) cmocka_print_error)
               (retM (fst (check_for_leftover_values (decl_text s) msg n (get_head s))))
     else throwM Undefined)"

definition check_for_leftover_values_list :: "string \<Rightarrow> nat cm" where
  "check_for_leftover_values_list error_message = bindM (readM (\<lambda>s. s)) (\<lambda>s.
     seqM (forM (global_call_ordering_head s) (\<lambda>(r, p). bindM (load_object p) (\<lambda>ob. case ob of
             Obj_order o' \<Rightarrow>
               seqM (cmocka_print_error (error_message @ '': '' @ fo_function o' @ nl))
                    (cmocka_print_error (fmt_loc (loc_file (fo_location o')) (loc_line (fo_location o')) @
                       '': note: remaining item was declared here'' @ nl))
           | _ \<Rightarrow> throwM Undefined)))
          (retM (length (global_call_ordering_head s))))"

definition remove_always_return_values_from_list :: "unit cm" where
  "remove_always_return_values_from_list = bindM (readM global_call_ordering_head) (\<lambda>q.
     seqM (modM (\<lambda>s. s\<lparr>global_call_ordering_head := filter (\<lambda>(r, p). \<not> r < -1) q\<rparr>))
          (forM (map snd (filter (\<lambda>(r, p). r < -1) q)) free_object))"

definition remove_always_results :: "unit cm" where
  "remove_always_results = bindM (readM global_function_result_map_head) (\<lambda>m.
     seqM (modM (\<lambda>s. s\<lparr>global_function_result_map_head := fst (remove_always_return_values 1 m)\<rparr>))
          (forM (snd (remove_always_return_values 1 m)) free_object))"

definition remove_always_parameters :: "unit cm" where
  "remove_always_parameters = bindM (readM global_function_parameter_map_head) (\<lambda>m.
     seqM (modM (\<lambda>s. s\<lparr>global_function_parameter_map_head := fst (remove_always_return_values 2 m)\<rparr>))
          (forM (snd (remove_always_return_values 2 m)) free_object))"

definition has_leftover_values :: "bool cm" where
  "has_leftover_values =
     seqM remove_always_results
    (bindM (report_leftover_map global_function_result_map_head ''Has remaining non-returned values'' 1) (\<lambda>k1.
     seqM remove_always_parameters
    (bindM (report_leftover_map global_function_parameter_map_head
              ''Parameter still has values that haven't been checked'' 2) (\<lambda>k2.
     seqM remove_always_return_values_from_list
    (bindM (check_for_leftover_values_list ''Function was expected to be called but was not'') (\<lambda>k3.
     retM (k1 \<noteq> 0 \<or> k2 \<noteq> 0 \<or> k3 \<noteq> 0)))))))"

definition fail_if_leftover_values :: "unit cm" where
  "fail_if_leftover_values = bindM has_leftover_values (\<lambda>b. whenM b (exit_test True))"

definition teardown_testing :: "unit cm" where
  "teardown_testing = bindM (readM (\<lambda>s. s)) (\<lambda>s.
     seqM (forM (free_symbol_map 0 (global_function_result_map_head s)) free_object)
    (seqM (modM (\<lambda>s. s\<lparr>global_function_result_map_head := [],
                        global_last_mock_value_location := initialize_source_location\<rparr>))
    (seqM (forM (free_symbol_map 1 (global_function_parameter_map_head s)) free_object)
    (seqM (modM (\<lambda>s. s\<lparr>global_function_parameter_map_head := [],
                        global_last_parameter_location := initialize_source_location\<rparr>))
    (seqM (forM (map snd (global_call_ordering_head s)) free_object)
          (modM (\<lambda>s. s\<lparr>global_call_ordering_head := [],
                        global_last_call_ordering_location := initialize_source_location\<rparr>)))))))"

section \<open>Ownership\<close>

declare wf_map.simps [simp del] add_symbol_value.simps [simp del] get_symbol_value.simps [simp del]
  queue_at.simps [simp del] remove_always_return_values.simps [simp del]

text \<open>The facts on maps at the two depths that occur.\<close>

lemma depth_simps: "length [f] = 1" "length [f, a] = 2"
  by simp_all

lemmas add_at_depth =
  add_symbol_value_queue [where names = "[f]" for f, unfolded depth_simps, simplified]
  add_symbol_value_queue [where names = "[f, a]" for f a, unfolded depth_simps, simplified]

lemmas leaves_add_at_depth =
  leaves_add [where names = "[f]" for f, unfolded depth_simps, simplified]
  leaves_add [where names = "[f, a]" for f a, unfolded depth_simps, simplified]

definition owned :: "cm_state \<Rightarrow> nat list" where
  "owned s = leaves (global_function_result_map_head s) @ leaves (global_function_parameter_map_head s)
     @ map snd (global_call_ordering_head s)"

definition is_symbol :: "heap_obj option \<Rightarrow> bool" where
  "is_symbol ob \<longleftrightarrow> (case ob of Some (Obj_symbol sv) \<Rightarrow> True | _ \<Rightarrow> False)"

definition is_event :: "heap_obj option \<Rightarrow> bool" where
  "is_event ob \<longleftrightarrow> (case ob of Some (Obj_event ev) \<Rightarrow> True | _ \<Rightarrow> False)"

definition is_order :: "heap_obj option \<Rightarrow> bool" where
  "is_order ob \<longleftrightarrow> (case ob of Some (Obj_order o') \<Rightarrow> True | _ \<Rightarrow> False)"

definition kinds_ok :: "cm_state \<Rightarrow> bool" where
  "kinds_ok s \<longleftrightarrow>
     (\<forall>p \<in> set (leaves (global_function_result_map_head s)). is_symbol (heap_objs s p))
     \<and> (\<forall>p \<in> set (leaves (global_function_parameter_map_head s)). is_event (heap_objs s p))
     \<and> (\<forall>p \<in> set (map snd (global_call_ordering_head s)). is_order (heap_objs s p))"

lemma not_None_kinds [simp]: "\<not> is_symbol None" "\<not> is_event None" "\<not> is_order None"
  by (simp_all add: is_symbol_def is_event_def is_order_def)

lemma kinds_ok_live:
  assumes "kinds_ok s" "p \<in> set (owned s)"
  shows "heap_objs s p \<noteq> None"
proof
  assume "heap_objs s p = None"
  with assms show False unfolding kinds_ok_def owned_def by (metis Un_iff not_None_kinds set_append)
qed

definition counts_ok :: "cm_state \<Rightarrow> bool" where
  "counts_ok s \<longleftrightarrow> (\<forall>f. \<forall>e \<in> set (queue_at (global_function_result_map_head s) [f]). fst e \<noteq> 0)
     \<and> (\<forall>e \<in> set (global_call_ordering_head s). fst e \<noteq> 0)"

definition mock_inv :: "cm_state \<Rightarrow> bool" where
  "mock_inv s \<longleftrightarrow> wf_map 1 (global_function_result_map_head s) \<and> wf_map 2 (global_function_parameter_map_head s)
     \<and> distinct (owned s) \<and> kinds_ok s \<and> counts_ok s \<and> (\<forall>p. heap_objs s p \<noteq> None \<longrightarrow> p < next_obj s)"

text \<open>
  The objects in \<open>H\<close> are in the hands of a function of the library: allocated at some time
  and not (or no longer) owned by a map. Code that runs meanwhile cannot make them owned
  again, so the function may release them.
\<close>

definition held_inv :: "nat set \<Rightarrow> cm_state \<Rightarrow> bool" where
  "held_inv H s \<longleftrightarrow> mock_inv s \<and> (\<forall>p \<in> H. p \<notin> set (owned s) \<and> p < next_obj s)"

lemma held_inv_empty [simp]: "held_inv {} s = mock_inv s"
  by (simp add: held_inv_def)

lemma msg_frame_owned: "msg_frame s t \<Longrightarrow> owned t = owned s"
  by (simp add: owned_def msg_frame_fields)

lemma msg_frame_held: "msg_frame s t \<Longrightarrow> held_inv H t = held_inv H s"
  by (simp add: held_inv_def mock_inv_def kinds_ok_def counts_ok_def msg_frame_owned msg_frame_fields)

interpretation mocks: message_blind "held_inv H" for H
  by unfold_locales (simp add: msg_frame_held)

lemmas keeps_mock_messages [cm_mono] = mocks.keeps_framed

text \<open>Releasing a list of live, distinct objects.\<close>

definition clear_objs :: "nat set \<Rightarrow> cm_state \<Rightarrow> cm_state" where
  "clear_objs F s = s\<lparr>heap_objs := (\<lambda>p. if p \<in> F then None else heap_objs s p)\<rparr>"

lemma clear_objs_sel [simp]:
  "heap_objs (clear_objs F s) = (\<lambda>p. if p \<in> F then None else heap_objs s p)"
  "global_function_result_map_head (clear_objs F s) = global_function_result_map_head s"
  "global_function_parameter_map_head (clear_objs F s) = global_function_parameter_map_head s"
  "global_call_ordering_head (clear_objs F s) = global_call_ordering_head s"
  "next_obj (clear_objs F s) = next_obj s"
  by (simp_all add: clear_objs_def)

lemma free_all:
  "distinct ps \<Longrightarrow> (\<And>p. p \<in> set ps \<Longrightarrow> heap_objs s p \<noteq> None) \<Longrightarrow>
   forM ps free_object s = (Ret (), clear_objs (set ps) s)"
proof (induction ps arbitrary: s)
  case Nil
  then show ?case by (simp add: clear_objs_def)
next
  case (Cons p ps)
  have "heap_objs s p \<noteq> None" using Cons.prems(2) by simp
  then have p: "free_object p s = (Ret (), s\<lparr>heap_objs := (heap_objs s)(p := None)\<rparr>)"
    by (simp add: free_object_def)
  have "forM ps free_object (s\<lparr>heap_objs := (heap_objs s)(p := None)\<rparr>)
      = (Ret (), clear_objs (set ps) (s\<lparr>heap_objs := (heap_objs s)(p := None)\<rparr>))"
    using Cons.prems by (intro Cons.IH) auto
  then show ?case
    using p by (simp add: seqM_apply bindM_apply clear_objs_def) (auto simp: fun_eq_iff intro!: arg_cong [where f = "\<lambda>h. s\<lparr>heap_objs := h\<rparr>"])
qed

text \<open>
  The two ways an operation changes what is owned: it gives up the objects \<open>F\<close> and releases
  (some of) them, or it takes over a new one.
\<close>

definition gives_up :: "nat multiset \<Rightarrow> cm_state \<Rightarrow> cm_state \<Rightarrow> bool" where
  "gives_up F s t \<longleftrightarrow> (\<exists>A B C. F = A + B + C
     \<and> mset (leaves (global_function_result_map_head s)) = mset (leaves (global_function_result_map_head t)) + A
     \<and> mset (leaves (global_function_parameter_map_head s)) = mset (leaves (global_function_parameter_map_head t)) + B
     \<and> mset (map snd (global_call_ordering_head s)) = mset (map snd (global_call_ordering_head t)) + C)"

lemma gives_up_owned: "gives_up F s t \<Longrightarrow> mset (owned s) = mset (owned t) + F"
  by (auto simp: gives_up_def owned_def)

lemma gives_up_distinct:
  assumes "gives_up F s t" "distinct (owned s)"
  shows "distinct (owned t)" "set_mset F \<inter> set (owned t) = {}" "set (owned t) \<subseteq> set (owned s)"
proof -
  have le: "\<And>p. Multiset.count (mset (owned t)) p + Multiset.count F p \<le> 1"
    using gives_up_owned [OF assms(1)] assms(2) by (metis count_union distinct_count_atmost_1 le_refl zero_le)
  show "distinct (owned t)"
    using le by (metis (no_types, lifting) add_leD1 count_mset_0_iff distinct_count_atmost_1 le_antisym
        count_greater_eq_one_iff in_multiset_in_set not_one_le_zero nat_le_linear set_mset_mset)
  show "set_mset F \<inter> set (owned t) = {}"
  proof (rule ccontr)
    assume "set_mset F \<inter> set (owned t) \<noteq> {}"
    then obtain p where "p \<in># F" "p \<in># mset (owned t)" by auto
    then have "Multiset.count F p \<ge> 1" "Multiset.count (mset (owned t)) p \<ge> 1"
      by (simp_all add: count_greater_eq_one_iff)
    with le [of p] show False by linarith
  qed
  show "set (owned t) \<subseteq> set (owned s)"
    using gives_up_owned [OF assms(1)] by (metis mset_subset_eq_add_left set_mset_mono set_mset_mset)
qed

lemma held_give_up:
  assumes inv: "held_inv H s" and up: "gives_up F s t"
    and wf: "wf_map 1 (global_function_result_map_head t)" "wf_map 2 (global_function_parameter_map_head t)"
    and counts: "counts_ok t" and nxt: "next_obj t = next_obj s"
    and heap: "\<And>p. heap_objs t p = heap_objs s p \<or> p \<in># F \<and> heap_objs t p = None
        \<or> p \<in> H \<and> heap_objs t p = None"
  shows "held_inv (H \<union> set_mset F) t"
proof -
  have d: "distinct (owned s)" using inv by (simp add: held_inv_def mock_inv_def)
  note gu = gives_up_distinct [OF up d]
  have same: "heap_objs t p = heap_objs s p" if "p \<in> set (owned t)" for p
    using heap [of p] that gu inv by (auto simp: held_inv_def)
  have sub: "set (leaves (global_function_result_map_head t)) \<subseteq> set (leaves (global_function_result_map_head s))"
    "set (leaves (global_function_parameter_map_head t)) \<subseteq> set (leaves (global_function_parameter_map_head s))"
    "set (map snd (global_call_ordering_head t)) \<subseteq> set (map snd (global_call_ordering_head s))"
    using up unfolding gives_up_def by (metis mset_subset_eq_add_left set_mset_mono set_mset_mset)+
  have ksk: "kinds_ok s" using inv by (simp add: held_inv_def mock_inv_def)
  have "kinds_ok t" unfolding kinds_ok_def
  proof (intro conjI ballI)
    fix p
    show "is_symbol (heap_objs t p)" if "p \<in> set (leaves (global_function_result_map_head t))"
      using same [of p] sub that ksk unfolding owned_def kinds_ok_def by fastforce
    show "is_event (heap_objs t p)" if "p \<in> set (leaves (global_function_parameter_map_head t))"
      using same [of p] sub that ksk unfolding owned_def kinds_ok_def by fastforce
    show "is_order (heap_objs t p)" if "p \<in> set (map snd (global_call_ordering_head t))"
      using same [of p] sub(3) that ksk unfolding owned_def kinds_ok_def by (metis UnCI set_append subset_eq)
  qed
  moreover have "\<forall>p. heap_objs t p \<noteq> None \<longrightarrow> p < next_obj t"
    using heap inv nxt by (metis held_inv_def mock_inv_def)
  moreover have "p < next_obj s" if "p \<in># F" for p
  proof -
    have "p \<in> set (owned s)" using gives_up_owned [OF up] that by (metis set_mset_mset union_iff)
    then have "heap_objs s p \<noteq> None" by (rule kinds_ok_live [OF ksk])
    then show ?thesis using inv by (simp add: held_inv_def mock_inv_def)
  qed
  ultimately show ?thesis
    using inv wf counts nxt gu by (auto simp: held_inv_def mock_inv_def)
qed

lemma held_inv_mono: "held_inv H s \<Longrightarrow> G \<subseteq> H \<Longrightarrow> held_inv G s"
  by (auto simp: held_inv_def)

lemma held_inv_live:
  assumes "held_inv H s" "p \<in> set (owned s)"
  shows "heap_objs s p \<noteq> None"
  using assms kinds_ok_live by (auto simp: held_inv_def mock_inv_def)

text \<open>An allocation, and an object put into one of the structures.\<close>

lemma held_new_object:
  assumes "held_inv H s" "new_object ob s = (Ret p, t)"
  shows "held_inv (insert p H) t" "p \<notin> H" "heap_objs t p = Some ob" "owned t = owned s"
proof -
  have p: "p = next_obj s" and t: "t = s\<lparr>heap_objs := (heap_objs s)(p \<mapsto> ob), next_obj := Suc p\<rparr>"
    using assms(2) by (auto simp: new_object_def)
  have fresh: "heap_objs s p = None" using assms(1) p by (auto simp: held_inv_def mock_inv_def)
  then have no: "p \<notin> set (owned s)" using held_inv_live [OF assms(1)] by blast
  show "p \<notin> H" using assms(1) p by (auto simp: held_inv_def)
  show "heap_objs t p = Some ob" "owned t = owned s" using t by (simp_all add: owned_def)
  have "kinds_ok t" using assms(1) no t
    by (auto simp: held_inv_def mock_inv_def kinds_ok_def owned_def)
  then show "held_inv (insert p H) t"
    using assms(1) no t p by (auto simp: held_inv_def mock_inv_def counts_ok_def owned_def less_SucI)
qed

lemma held_write:
  assumes "held_inv H s" "p \<in> H"
  shows "held_inv H (s\<lparr>heap_objs := (heap_objs s)(p \<mapsto> ob)\<rparr>)"
  using assms by (auto simp: held_inv_def mock_inv_def kinds_ok_def counts_ok_def owned_def)

lemma held_free:
  assumes "held_inv H s" "p \<in> H"
  shows "held_inv H (snd (free_object p s))"
  using assms by (auto simp: free_object_def held_inv_def mock_inv_def kinds_ok_def counts_ok_def owned_def)

lemma held_add_result:
  assumes inv: "held_inv (insert p H) s" and p: "p \<notin> H" "is_symbol (heap_objs s p)" and cnt: "cnt \<noteq> 0"
  shows "held_inv H (s\<lparr>global_function_result_map_head :=
      add_symbol_value (global_function_result_map_head s) [f] p cnt\<rparr>)" (is "held_inv H ?t")
proof -
  let ?R = "global_function_result_map_head s"
  have wf: "wf_map 1 ?R" using inv by (simp add: held_inv_def mock_inv_def)
  have q: "wf_map 1 (add_symbol_value ?R [f] p cnt)"
    "\<And>g. queue_at (add_symbol_value ?R [f] p cnt) [g] =
       (if [g] = [f] then queue_at ?R [f] @ [(cnt, p)] else queue_at ?R [g])"
    using add_at_depth(1) [of ?R f p cnt] wf by auto
  have m: "mset (leaves (add_symbol_value ?R [f] p cnt)) = add_mset p (mset (leaves ?R))"
    using leaves_add_at_depth(1) [of ?R f p cnt] wf by simp
  then have o: "mset (owned ?t) = add_mset p (mset (owned s))" by (simp add: owned_def)
  have "distinct (owned ?t) = distinct (p # owned s)" by (rule mset_eq_imp_distinct_iff) (simp add: o)
  moreover have st: "set (owned ?t) = insert p (set (owned s))" using o by (metis set_mset_add_mset_insert set_mset_mset)
  moreover have "set (leaves (add_symbol_value ?R [f] p cnt)) = insert p (set (leaves ?R))"
    using m by (metis set_mset_add_mset_insert set_mset_mset)
  ultimately show ?thesis
    using inv p cnt q by (auto simp: held_inv_def mock_inv_def kinds_ok_def counts_ok_def)
qed

lemma held_add_parameter:
  assumes inv: "held_inv (insert p H) s" and p: "p \<notin> H" "is_event (heap_objs s p)"
  shows "held_inv H (s\<lparr>global_function_parameter_map_head :=
      add_symbol_value (global_function_parameter_map_head s) [f, a] p cnt\<rparr>)" (is "held_inv H ?t")
proof -
  let ?R = "global_function_parameter_map_head s"
  have wf: "wf_map 2 ?R" using inv by (simp add: held_inv_def mock_inv_def)
  have q: "wf_map 2 (add_symbol_value ?R [f, a] p cnt)"
    using add_at_depth(2) [of ?R f a p cnt] wf by auto
  have m: "mset (leaves (add_symbol_value ?R [f, a] p cnt)) = add_mset p (mset (leaves ?R))"
    using leaves_add_at_depth(2) [of ?R f a p cnt] wf by simp
  then have o: "mset (owned ?t) = add_mset p (mset (owned s))" by (simp add: owned_def)
  have "distinct (owned ?t) = distinct (p # owned s)" by (rule mset_eq_imp_distinct_iff) (simp add: o)
  moreover have "set (owned ?t) = insert p (set (owned s))" using o by (metis set_mset_add_mset_insert set_mset_mset)
  moreover have "set (leaves (add_symbol_value ?R [f, a] p cnt)) = insert p (set (leaves ?R))"
    using m by (metis set_mset_add_mset_insert set_mset_mset)
  ultimately show ?thesis
    using inv p q by (auto simp: held_inv_def mock_inv_def kinds_ok_def counts_ok_def)
qed

lemma held_add_order:
  assumes "held_inv (insert p H) s" "p \<notin> H" "is_order (heap_objs s p)" "cnt \<noteq> 0"
  shows "held_inv H (s\<lparr>global_call_ordering_head := global_call_ordering_head s @ [(cnt, p)]\<rparr>)"
  using assms by (auto simp: held_inv_def mock_inv_def kinds_ok_def counts_ok_def owned_def)

section \<open>Runs of the operations\<close>

lemma assert_true_run [simp]: "r \<noteq> 0 \<Longrightarrow> cm_assert_true r e fl ln s = (Ret (), s)"
  by (simp add: cm_assert_true_def)

lemma framesM_assert_true [cm_mono]: "framesM (cm_assert_true r e fl ln)"
  unfolding cm_assert_true_def by (intro cm_mono)

lemma assert_true_fails: "failsM (cm_assert_true 0 e fl ln)"
  unfolding cm_assert_true_def whenM_def by (simp, intro cm_mono)

lemma will_return_run:
  "cnt \<noteq> 0 \<Longrightarrow> cm_will_return f fl ln name v cnt s =
     (Ret (), s\<lparr>heap_objs := (heap_objs s)(next_obj s \<mapsto>
          Obj_symbol \<lparr>sv_name = name, sv_location = set_source_location fl ln, sv_value = v\<rparr>),
        next_obj := Suc (next_obj s),
        global_function_result_map_head :=
          add_symbol_value (global_function_result_map_head s) [f] (next_obj s) cnt\<rparr>)"
  by (simp add: cm_will_return_def new_object_def run_simps)

lemma keeps_will_return [cm_mono]: "keepsM (held_inv H) (cm_will_return f fl ln name v cnt)"
proof (rule keepsMI)
  fix s assume inv: "held_inv H s"
  show "held_inv H (snd (cm_will_return f fl ln name v cnt s))"
  proof (cases "cnt = 0")
    case True
    let ?ob = "Obj_symbol \<lparr>sv_name = None, sv_location = initialize_source_location, sv_value = 0\<rparr>"
    obtain p t where n: "new_object ?ob s = (Ret p, t)" by (simp add: new_object_def)
    let ?fail = "cm_assert_true 0 ''count != 0'' cmocka_c 1141"
    have held: "held_inv H t" using held_new_object(1) [OF inv n] by (rule held_inv_mono) auto
    have "fst (?fail t) = failure_outcome t" using assert_true_fails by (simp add: failsM_def)
    then have "snd (cm_will_return f fl ln name v cnt s) = snd (?fail t)"
      using True n by (cases "?fail t") (auto simp: cm_will_return_def run_simps failure_outcome_def)
    then show ?thesis
      using held keepsMD [OF mocks.keeps_framed [OF framesM_assert_true]] by simp
  next
    case False
    let ?ob = "Obj_symbol \<lparr>sv_name = name, sv_location = set_source_location fl ln, sv_value = v\<rparr>"
    obtain p t where n: "new_object ?ob s = (Ret p, t)" by (simp add: new_object_def)
    have "is_symbol (heap_objs t p)" using held_new_object(3) [OF inv n] by (simp add: is_symbol_def)
    from held_add_result [OF held_new_object(1,2) [OF inv n] this False]
    show ?thesis using n False by (auto simp: will_return_run new_object_def)
  qed
qed

lemma get_value_run:
  assumes "wf_map (length names) (gh s)" "names \<noteq> []"
  shows "\<exists>res. get_symbol_value (gh s) names = Inr res \<and> gsv_spec (gh s) names res
    \<and> call_get_symbol_value gh sh names s = (Ret (gsv_ret res, gsv_out res),
        case gsv_missing res of None \<Rightarrow> sh (gsv_map res) s
        | Some n \<Rightarrow> said (sh (gsv_map res) s)
            (let m = ''No entries for symbol '' @ n @ ''.'' @ nl in if length m < 256 then m else take (length m - 1) m))"
proof -
  obtain res where res: "get_symbol_value (gh s) names = Inr res" "gsv_spec (gh s) names res"
    using get_symbol_value_correct [OF assms] by auto
  then show ?thesis
    by (auto simp: call_get_symbol_value_def run_simps cmocka_print_error_def cm_error_message_enabled_def
        vcmocka_print_error_def said_def pending_def Let_def split: option.splits)
qed

lemma queue_leaf: "length path = d \<Longrightarrow> wf_map d ns \<Longrightarrow> e \<in> set (queue_at ns path) \<Longrightarrow> snd e \<in> set (leaves ns)"
proof (induction path arbitrary: ns d)
  case Nil
  have "e \<in> set (concat (map node_entry ns)) \<Longrightarrow> snd e \<in> set (leaves ns)" for ns
  proof (induction ns)
    case (Cons x ns)
    then show ?case by (cases x) auto
  qed simp
  then show ?case using Nil by (simp add: queue_at.simps)
next
  case (Cons n path)
  then obtain d' where d: "d = Suc d'" "length path = d'" by auto
  have "set (leaves (children_of ns n)) \<subseteq> set (leaves ns)" for ns
  proof (induction ns)
    case (Cons x ns)
    then show ?case by (cases x) (auto simp: children_of_def)
  qed simp
  moreover have "snd e \<in> set (leaves (children_of ns n))"
    using Cons.IH [OF d(2) children_of_wf] Cons.prems d by (simp add: queue_at.simps)
  ultimately show ?case by blast
qed

text \<open>One step of a queue, as the two maps see it.\<close>

definition queue_step :: "nat \<Rightarrow> sym_node list \<Rightarrow> string list \<Rightarrow> int \<Rightarrow> nat \<Rightarrow> sym_node list \<Rightarrow> bool" where
  "queue_step d m path r p m' \<longleftrightarrow> wf_map d m' \<and> p \<in> set (leaves m)
     \<and> mset (leaves m) = mset (leaves m') + (if r = 1 then {#p#} else {#})
     \<and> (\<forall>path'. length path' = d \<longrightarrow>
          queue_at m' path' = (if path' = path then pop_entry (queue_at m path) else queue_at m path'))"

lemma get_value_cases:
  assumes wf: "wf_map (length names) (gh s)" and ne: "names \<noteq> []" and same: "sh (gh s) s = s"
  shows "(queue_at (gh s) names = [] \<and> (\<exists>x. call_get_symbol_value gh sh names s = (Ret (0, None), said s x)))
    \<or> (\<exists>r p q m. queue_at (gh s) names = (r, p) # q \<and> queue_step (length names) (gh s) names r p m
         \<and> call_get_symbol_value gh sh names s = (Ret (r, Some p), sh m s))"
proof -
  obtain res where res: "get_symbol_value (gh s) names = Inr res" "gsv_spec (gh s) names res"
    "call_get_symbol_value gh sh names s = (Ret (gsv_ret res, gsv_out res),
        case gsv_missing res of None \<Rightarrow> sh (gsv_map res) s
        | Some n \<Rightarrow> said (sh (gsv_map res) s)
            (let m = ''No entries for symbol '' @ n @ ''.'' @ nl in if length m < 256 then m else take (length m - 1) m))"
    using get_value_run [where gh = gh and s = s and sh = sh, OF wf ne] by blast
  show ?thesis
  proof (cases "queue_at (gh s) names")
    case Nil
    then have "gsv_ret res = 0" "gsv_out res = None" "gsv_missing res \<noteq> None" "gsv_map res = gh s"
      using res(2) by (simp_all add: gsv_spec_def)
    then show ?thesis using Nil res(3) same by auto
  next
    case (Cons e q)
    obtain r p where e: "e = (r, p)" by (cases e)
    have g: "gsv_ret res = r" "gsv_out res = Some p" "gsv_missing res = None"
      using res(2) Cons e by (simp_all add: gsv_spec_def)
    have "p \<in> set (leaves (gh s))" using queue_leaf [OF _ wf, of names e] Cons e by simp
    then have "queue_step (length names) (gh s) names r p (gsv_map res)"
      using res(2) leaves_get [OF wf res(1)] g by (simp add: queue_step_def gsv_spec_def)
    then show ?thesis
      using Cons e res(3) g by (intro disjI2 exI [of _ r] exI [of _ p] exI [of _ q] exI [of _ "gsv_map res"]) simp
  qed
qed

lemma result_cases:
  assumes "mock_inv s"
  shows "(queue_at (global_function_result_map_head s) [f] = []
        \<and> (\<exists>x. get_result_value f s = (Ret (0, None), said s x)))
    \<or> (\<exists>r p q m sv. queue_at (global_function_result_map_head s) [f] = (r, p) # q \<and> r \<noteq> 0
         \<and> queue_step 1 (global_function_result_map_head s) [f] r p m \<and> heap_objs s p = Some (Obj_symbol sv)
         \<and> get_result_value f s = (Ret (r, Some p), s\<lparr>global_function_result_map_head := m\<rparr>))"
proof -
  let ?R = "global_function_result_map_head"
  have wf: "wf_map (length [f]) (?R s)" and k: "kinds_ok s" "counts_ok s"
    using assms by (simp_all add: mock_inv_def)
  have "(queue_at (?R s) [f] = [] \<and> (\<exists>x. get_result_value f s = (Ret (0, None), said s x)))
    \<or> (\<exists>r p q m. queue_at (?R s) [f] = (r, p) # q \<and> queue_step (length [f]) (?R s) [f] r p m
         \<and> get_result_value f s = (Ret (r, Some p), s\<lparr>global_function_result_map_head := m\<rparr>))"
    unfolding get_result_value_def
    by (rule get_value_cases [where gh = ?R and s = s, OF wf]) simp_all
  then show ?thesis
  proof (elim disjE exE conjE)
    fix r p q m
    assume q: "queue_at (?R s) [f] = (r, p) # q" "queue_step (length [f]) (?R s) [f] r p m"
      and g: "get_result_value f s = (Ret (r, Some p), s\<lparr>global_function_result_map_head := m\<rparr>)"
    have "is_symbol (heap_objs s p)" using k q(2) by (simp add: kinds_ok_def queue_step_def)
    then obtain sv where "heap_objs s p = Some (Obj_symbol sv)"
      by (auto simp: is_symbol_def split: option.splits heap_obj.splits)
    moreover have "r \<noteq> 0" using k q(1) unfolding counts_ok_def by (metis fst_conv list.set_intros(1))
    moreover have "queue_step 1 (?R s) [f] r p m" using q(2) by simp
    ultimately show ?thesis using q(1) g by blast
  qed blast
qed

lemma parameter_cases:
  assumes "mock_inv s"
  shows "(queue_at (global_function_parameter_map_head s) [f, a] = []
        \<and> (\<exists>x. get_parameter_value f a s = (Ret (0, None), said s x)))
    \<or> (\<exists>r p q m ev. queue_at (global_function_parameter_map_head s) [f, a] = (r, p) # q
         \<and> queue_step 2 (global_function_parameter_map_head s) [f, a] r p m \<and> heap_objs s p = Some (Obj_event ev)
         \<and> get_parameter_value f a s = (Ret (r, Some p), s\<lparr>global_function_parameter_map_head := m\<rparr>))"
proof -
  let ?R = "global_function_parameter_map_head"
  have wf: "wf_map (length [f, a]) (?R s)" and k: "kinds_ok s"
    using assms by (simp_all only: mock_inv_def depth_simps)
  have "(queue_at (?R s) [f, a] = [] \<and> (\<exists>x. get_parameter_value f a s = (Ret (0, None), said s x)))
    \<or> (\<exists>r p q m. queue_at (?R s) [f, a] = (r, p) # q \<and> queue_step (length [f, a]) (?R s) [f, a] r p m
         \<and> get_parameter_value f a s = (Ret (r, Some p), s\<lparr>global_function_parameter_map_head := m\<rparr>))"
    unfolding get_parameter_value_def
    by (rule get_value_cases [where gh = ?R and s = s, OF wf]) simp_all
  then show ?thesis
  proof (elim disjE exE conjE)
    fix r p q m
    assume q: "queue_at (?R s) [f, a] = (r, p) # q" "queue_step (length [f, a]) (?R s) [f, a] r p m"
      and g: "get_parameter_value f a s = (Ret (r, Some p), s\<lparr>global_function_parameter_map_head := m\<rparr>)"
    have "is_event (heap_objs s p)" using k q(2) by (simp add: kinds_ok_def queue_step_def)
    then obtain ev where "heap_objs s p = Some (Obj_event ev)"
      by (auto simp: is_event_def split: option.splits heap_obj.splits)
    moreover have "queue_step 2 (?R s) [f, a] r p m" using q(2) by (simp only: depth_simps)
    ultimately show ?thesis using q(1) g by blast
  qed blast
qed

text \<open>What a successful step leaves behind, for the map that was read.\<close>

lemma pop_entry_counts: "\<forall>e \<in> set q. fst e \<noteq> 0 \<Longrightarrow> e \<in> set (pop_entry q) \<Longrightarrow> fst e \<noteq> 0"
  by (cases q) (auto simp: pop_entry_def split: if_splits)

lemma held_after_result:
  assumes inv: "held_inv H s" and q: "queue_at (global_function_result_map_head s) [f] = (r, p) # q"
    and st: "queue_step 1 (global_function_result_map_head s) [f] r p m"
  shows "held_inv (H \<union> (if r = 1 then {p} else {})) (s\<lparr>global_function_result_map_head := m\<rparr>)"
proof -
  let ?t = "s\<lparr>global_function_result_map_head := m\<rparr>" and ?F = "if r = 1 then {#p#} else {#}"
  have c: "counts_ok s" using inv by (simp add: held_inv_def mock_inv_def)
  have qm: "queue_at m [g] = (if g = f then pop_entry ((r, p) # q) else queue_at (global_function_result_map_head s) [g])" for g
    using st q by (simp add: queue_step_def)
  have "e \<in> set (pop_entry ((r, p) # q)) \<Longrightarrow> fst e \<noteq> 0" for e
    using c q unfolding counts_ok_def by (metis pop_entry_counts)
  then have "counts_ok ?t" using c qm by (auto simp: counts_ok_def)
  moreover have "gives_up ?F s ?t" using st unfolding gives_up_def queue_step_def
    by (intro exI [of _ ?F] exI [of _ "{#}"]) simp
  moreover have "wf_map 1 m" "wf_map 2 (global_function_parameter_map_head s)"
    using st inv by (simp_all add: queue_step_def held_inv_def mock_inv_def)
  ultimately have "held_inv (H \<union> set_mset ?F) ?t" by (intro held_give_up [OF inv]) simp_all
  then show ?thesis by (cases "r = 1") simp_all
qed

lemma held_after_parameter:
  assumes inv: "held_inv H s"
    and st: "queue_step 2 (global_function_parameter_map_head s) path r p m"
  shows "held_inv (H \<union> (if r = 1 then {p} else {})) (s\<lparr>global_function_parameter_map_head := m\<rparr>)"
proof -
  let ?t = "s\<lparr>global_function_parameter_map_head := m\<rparr>" and ?F = "if r = 1 then {#p#} else {#}"
  have "counts_ok ?t" using inv by (simp add: held_inv_def mock_inv_def counts_ok_def)
  moreover have "gives_up ?F s ?t" using st unfolding gives_up_def queue_step_def
    by (intro exI [of _ "{#}"] exI [of _ ?F]) simp
  moreover have "wf_map 1 (global_function_result_map_head s)" "wf_map 2 m"
    using st inv by (simp_all add: queue_step_def held_inv_def mock_inv_def)
  ultimately have "held_inv (H \<union> set_mset ?F) ?t" by (intro held_give_up [OF inv]) simp_all
  then show ?thesis by (cases "r = 1") simp_all
qed

lemma returnsM_print_location_or [cm_mono]: "returnsM (print_location_or loc a b)"
  unfolding print_location_or_def by (intro cm_mono)

lemma failsM_after_get:
  assumes "m s = (Ret x, said s y)" and "failsM (f x)"
  shows "fst (bindM m f s) = failure_outcome s" "msg_frame s (snd (bindM m f s))"
proof -
  have b: "bindM m f s = f x (said s y)" using assms(1) by (simp add: bindM_apply)
  show "fst (bindM m f s) = failure_outcome s"
    using assms(2) failure_outcome_frame [OF said_frame] by (simp add: b failsM_def)
  show "msg_frame s (snd (bindM m f s))"
    using msg_frame_trans [OF said_frame] framesMD [OF failsM_framesM [OF assms(2)]] b by (metis prod.collapse)
qed

lemma mock_run_empty:
  assumes "mock_inv s" "queue_at (global_function_result_map_head s) [f] = []"
  shows "fst (cm_mock f fl ln name s) = failure_outcome s" "msg_frame s (snd (cm_mock f fl ln name s))"
proof -
  obtain x where x: "get_result_value f s = (Ret (0, None), said s x)"
    using result_cases [OF assms(1), of f] assms(2) by auto
  show "fst (cm_mock f fl ln name s) = failure_outcome s" "msg_frame s (snd (cm_mock f fl ln name s))"
    unfolding cm_mock_def by (rule failsM_after_get [where m = "get_result_value f" and s = s, OF x]; simp; intro cm_mono)+
qed

lemma mock_run_value:
  assumes inv: "mock_inv s" and q: "queue_at (global_function_result_map_head s) [f] = (r, p) # q"
    and sv: "heap_objs s p = Some (Obj_symbol sv)" and ty: "\<not> type_mismatch name sv"
  shows "\<exists>m. queue_step 1 (global_function_result_map_head s) [f] r p m
    \<and> cm_mock f fl ln name s = (Ret (sv_value sv),
        (if r = 1 then clear_objs {p} else (\<lambda>s. s))
          (s\<lparr>global_function_result_map_head := m, global_last_mock_value_location := sv_location sv\<rparr>))"
proof -
  obtain m where m: "r \<noteq> 0" "queue_step 1 (global_function_result_map_head s) [f] r p m"
    "get_result_value f s = (Ret (r, Some p), s\<lparr>global_function_result_map_head := m\<rparr>)"
    using result_cases [OF inv, of f] q by auto
  have "cm_mock f fl ln name s = (Ret (sv_value sv),
        (if r = 1 then clear_objs {p} else (\<lambda>s. s))
          (s\<lparr>global_function_result_map_head := m, global_last_mock_value_location := sv_location sv\<rparr>))"
    using m(1,3) sv ty
    by (simp add: cm_mock_def bindM_apply seqM_apply load_symbol_def free_object_def clear_objs_def fun_upd_def
        cong: if_cong)
  then show ?thesis using m(2) by blast
qed

lemma held_last_location:
  "held_inv H (s\<lparr>global_last_mock_value_location := loc\<rparr>) = held_inv H s"
  "held_inv H (s\<lparr>global_last_parameter_location := loc\<rparr>) = held_inv H s"
  by (simp_all add: held_inv_def mock_inv_def kinds_ok_def counts_ok_def owned_def)

lemma held_clear:
  assumes "held_inv H s" "F \<subseteq> H"
  shows "held_inv H (clear_objs F s)"
  using assms by (auto simp: held_inv_def mock_inv_def kinds_ok_def counts_ok_def owned_def clear_objs_def)

lemma held_mock_value:
  assumes inv: "held_inv H s" and q: "queue_at (global_function_result_map_head s) [f] = (r, p) # q"
    and st: "queue_step 1 (global_function_result_map_head s) [f] r p m"
  shows "held_inv H ((if r = 1 then clear_objs {p} else (\<lambda>s. s))
          (s\<lparr>global_function_result_map_head := m, global_last_mock_value_location := loc\<rparr>))"
proof -
  let ?t = "s\<lparr>global_function_result_map_head := m\<rparr>"
  have t: "held_inv (H \<union> (if r = 1 then {p} else {})) ?t" by (rule held_after_result [OF inv q st])
  have u: "held_inv (H \<union> (if r = 1 then {p} else {}))
      (s\<lparr>global_function_result_map_head := m, global_last_mock_value_location := loc\<rparr>)"
    using t held_last_location(1) [where s = ?t and loc = loc] by simp
  show ?thesis
  proof (cases "r = 1")
    case True
    then show ?thesis using held_inv_mono [OF held_clear [OF u, of "{p}"], of H] by auto
  next
    case False
    then show ?thesis using u by simp
  qed
qed

text \<open>The types agree: what is at the front of the queue was stored under the name asked for.\<close>

definition types_agree :: "cm_state \<Rightarrow> string \<Rightarrow> string option \<Rightarrow> bool" where
  "types_agree s f name \<longleftrightarrow> (case queue_at (global_function_result_map_head s) [f] of
       [] \<Rightarrow> True
     | (r, p) # q \<Rightarrow> (case heap_objs s p of Some (Obj_symbol sv) \<Rightarrow> \<not> type_mismatch name sv | _ \<Rightarrow> True))"

lemma held_mock:
  assumes inv: "held_inv H s" and ty: "types_agree s f name"
  shows "held_inv H (snd (cm_mock f fl ln name s))"
proof -
  have mi: "mock_inv s" using inv by (simp add: held_inv_def)
  show ?thesis
  proof (cases "queue_at (global_function_result_map_head s) [f]")
    case Nil
    then show ?thesis using mocks.blind [OF mock_run_empty(2) [OF mi Nil] inv] by simp
  next
    case (Cons e q)
    obtain r p where e: "e = (r, p)" by (cases e)
    obtain sv where sv: "heap_objs s p = Some (Obj_symbol sv)"
      using result_cases [OF mi, of f] Cons e by auto
    have "\<not> type_mismatch name sv" using ty Cons e sv by (simp add: types_agree_def)
    then obtain m where m: "queue_step 1 (global_function_result_map_head s) [f] r p m"
      "cm_mock f fl ln name s = (Ret (sv_value sv),
        (if r = 1 then clear_objs {p} else (\<lambda>s. s))
          (s\<lparr>global_function_result_map_head := m, global_last_mock_value_location := sv_location sv\<rparr>))"
      using mock_run_value [OF mi _ sv, of f r q name fl ln] Cons e by auto
    then show ?thesis using held_mock_value [OF inv _ m(1)] Cons e by (simp only: snd_conv)
  qed
qed

lemma keeps_mock [cm_mono]: "keepsM (held_inv H) (cm_mock f fl ln None)"
  by (rule keepsMI, rule held_mock)
     (simp_all add: types_agree_def type_mismatch_def split: list.split prod.split option.split heap_obj.split)

section \<open>The queue of return values\<close>

definition symbol_at :: "cm_state \<Rightarrow> nat \<Rightarrow> SymbolValue" where
  "symbol_at s p = (case heap_objs s p of Some (Obj_symbol sv) \<Rightarrow> sv
     | _ \<Rightarrow> \<lparr>sv_name = None, sv_location = initialize_source_location, sv_value = 0\<rparr>)"

definition result_queue :: "cm_state \<Rightarrow> string \<Rightarrow> (int \<times> CMockaValueData) list" where
  "result_queue s f = map (\<lambda>(r, p). (r, sv_value (symbol_at s p))) (queue_at (global_function_result_map_head s) [f])"

text \<open>The state after a call that queues a value, and a call of \<^verbatim>\<open>mock()\<close> with its result.\<close>

definition will_return_st :: "string \<Rightarrow> int \<Rightarrow> cm_state \<Rightarrow> string \<Rightarrow> CMockaValueData \<Rightarrow> int \<Rightarrow> cm_state" where
  "will_return_st fl ln s f v cnt = snd (cm_will_return f fl ln None v cnt s)"

definition mock_st :: "string \<Rightarrow> int \<Rightarrow> cm_state \<Rightarrow> string \<Rightarrow> (CMockaValueData option \<times> cm_state) option" where
  "mock_st fl ln s f = (case cm_mock f fl ln None s of (Ret v, t) \<Rightarrow> Some (Some v, t) | (_, t) \<Rightarrow> Some (None, t))"

lemma result_queue_Nil: "result_queue s f = [] \<longleftrightarrow> queue_at (global_function_result_map_head s) [f] = []"
  by (simp add: result_queue_def)

lemma pop_entry_map: "pop_entry (map (\<lambda>(r, p). (r, g p)) q) = map (\<lambda>(r, p). (r, g p)) (pop_entry q)"
  by (cases q) (auto simp: pop_entry_def)

lemma queue_owned:
  assumes "mock_inv s" "e \<in> set (queue_at (global_function_result_map_head s) [f])"
  shows "snd e \<in> set (owned s)"
  using assms queue_leaf [of "[f]" 1 "global_function_result_map_head s" e]
  by (auto simp: mock_inv_def owned_def)

lemma will_return_queue:
  assumes "mock_inv s" "cnt \<noteq> 0"
  shows "result_queue (will_return_st fl ln s f v cnt) g =
    (if g = f then result_queue s f @ [(cnt, v)] else result_queue s g)"
proof -
  let ?R = "global_function_result_map_head s"
  have q: "queue_at (add_symbol_value ?R [f] (next_obj s) cnt) [g] =
       (if g = f then queue_at ?R [f] @ [(cnt, next_obj s)] else queue_at ?R [g])"
    using add_at_depth(1) [of ?R f "next_obj s" cnt] assms(1) by (simp add: mock_inv_def)
  have old: "snd e \<noteq> next_obj s" if "e \<in> set (queue_at ?R [h])" for e h
    using queue_owned [OF assms(1) that] held_inv_live [of "{}" s "snd e"] assms(1)
    by (auto simp: mock_inv_def)
  have "map (\<lambda>(r, p). (r, sv_value (symbol_at (will_return_st fl ln s f v cnt) p))) (queue_at ?R [h])
      = result_queue s h" for h
    unfolding result_queue_def by (rule map_cong) (use old assms(2) in \<open>auto simp: will_return_st_def will_return_run symbol_at_def\<close>)
  then show ?thesis
    using q assms(2) by (simp add: result_queue_def will_return_st_def will_return_run symbol_at_def)
qed

lemma queue_step_symbols:
  assumes inv: "mock_inv s" and st: "queue_step 1 (global_function_result_map_head s) [f] r p m"
    and heap: "heap_objs t = (\<lambda>x. if r = 1 \<and> x = p then None else heap_objs s x)"
    and e: "e \<in> set (queue_at m [g])"
  shows "symbol_at t (snd e) = symbol_at s (snd e)"
proof -
  have "distinct (leaves (global_function_result_map_head s))" using inv by (simp add: mock_inv_def owned_def)
  moreover have "mset (leaves (global_function_result_map_head s)) = mset (p # leaves m)" if "r = 1"
    using st that by (simp add: queue_step_def)
  ultimately have "r = 1 \<Longrightarrow> p \<notin> set (leaves m)"
    by (metis distinct.simps(2) mset_eq_imp_distinct_iff)
  moreover have "snd e \<in> set (leaves m)"
    using queue_leaf [of "[g]" 1 m e] st e by (simp add: queue_step_def)
  ultimately show ?thesis by (auto simp: symbol_at_def heap)
qed

lemma mock_queue:
  assumes inv: "mock_inv s"
  shows "\<exists>t. mock_st fl ln s f = Some (case result_queue s f of [] \<Rightarrow> None | (r, v) # _ \<Rightarrow> Some v, t)
    \<and> mock_inv t
    \<and> (\<forall>g. result_queue t g = (if g = f then pop_entry (result_queue s f) else result_queue s g))"
proof (cases "queue_at (global_function_result_map_head s) [f]")
  case Nil
  obtain o' t where run: "cm_mock f fl ln None s = (o', t)" by fastforce
  have o: "o' = failure_outcome s" "msg_frame s t" using mock_run_empty [OF inv Nil, of fl ln None] run by simp_all
  have "mock_st fl ln s f = Some (None, t)"
    using run o(1) by (simp add: mock_st_def failure_outcome_def)
  moreover have "mock_inv t" using mocks.blind [OF o(2), of "{}"] inv by simp
  moreover have "result_queue t g = result_queue s g" for g
    by (simp add: result_queue_def symbol_at_def msg_frame_fields [OF o(2)])
  ultimately show ?thesis using Nil result_queue_Nil [of s f] by (auto simp: pop_entry_def)
next
  case (Cons e q)
  obtain r p where e: "e = (r, p)" by (cases e)
  obtain sv where sv: "heap_objs s p = Some (Obj_symbol sv)" using result_cases [OF inv, of f] Cons e by auto
  obtain m where st: "queue_step 1 (global_function_result_map_head s) [f] r p m"
    and run: "cm_mock f fl ln None s = (Ret (sv_value sv),
        (if r = 1 then clear_objs {p} else (\<lambda>s. s))
          (s\<lparr>global_function_result_map_head := m, global_last_mock_value_location := sv_location sv\<rparr>))"
    using mock_run_value [OF inv _ sv, of f r q None fl ln] Cons e by (auto simp: type_mismatch_def)
  define t where "t = (if r = 1 then clear_objs {p} else (\<lambda>s. s))
          (s\<lparr>global_function_result_map_head := m, global_last_mock_value_location := sv_location sv\<rparr>)"
  have "held_inv {} t" unfolding t_def using held_mock_value [OF _ _ st, of "{}" q] inv Cons e by simp
  then have "mock_inv t" by simp
  moreover have m: "global_function_result_map_head t = m"
    and h: "heap_objs t = (\<lambda>x. if r = 1 \<and> x = p then None else heap_objs s x)"
    by (simp_all add: t_def cong: if_cong)
  have "result_queue t g = map (\<lambda>(r, p). (r, sv_value (symbol_at s p))) (queue_at m [g])" for g
    unfolding result_queue_def m using queue_step_symbols [OF inv st h] by (auto intro!: map_cong)
  then have "result_queue t g = (if g = f then pop_entry (result_queue s f) else result_queue s g)" for g
    using st by (auto simp: queue_step_def result_queue_def pop_entry_map)
  moreover have "mock_st fl ln s f = Some (Some (sv_value sv), t)"
    using run by (simp add: mock_st_def t_def)
  moreover have "result_queue s f = (r, sv_value sv) # map (\<lambda>(r, p). (r, sv_value (symbol_at s p))) q"
    using Cons e sv by (simp add: result_queue_def symbol_at_def)
  ultimately show ?thesis by auto
qed

interpretation mock_values: queue_store mock_inv "\<lambda>_. True" result_queue "will_return_st fl ln" "mock_st fl' ln'"
  for fl ln fl' ln'
proof
  show "mock_inv (will_return_st fl ln m p v r)" if "mock_inv m" for m p v r
    using keepsMD [OF keeps_will_return [of "{}"]] that by (simp add: will_return_st_def)
qed (use will_return_queue mock_queue in auto)

section \<open>Every operation keeps the invariant\<close>

definition fresh_event :: "nat set \<Rightarrow> nat \<Rightarrow> cm_state \<Rightarrow> bool" where
  "fresh_event H p s \<longleftrightarrow> held_inv (insert p H) s \<and> p \<notin> H \<and> is_event (heap_objs s p)"

lemma fresh_event_held: "fresh_event H p s \<Longrightarrow> held_inv H s"
  unfolding fresh_event_def by (blast intro: held_inv_mono)

interpretation fresh_events: message_blind "fresh_event H p" for H p
  by unfold_locales (simp add: fresh_event_def msg_frame_held msg_frame_fields)

lemma new_event_triple: "tripleM (held_inv H) new_event (fresh_event H) (held_inv H)"
proof (rule tripleMI)
  fix s assume inv: "held_inv H s"
  obtain p t where n: "new_event s = (Ret p, t)" by (simp add: new_event_def new_object_def)
  note h = held_new_object [OF inv n [unfolded new_event_def]]
  show "ends (fresh_event H) (held_inv H) (new_event s)"
    using n h by (simp add: fresh_event_def is_event_def)
qed

lemma fresh_frame: "framesM m \<Longrightarrow> tripleM (fresh_event H p) m (\<lambda>_. fresh_event H p) (held_inv H)"
  by (rule keepsM_triple) (auto intro: fresh_events.keeps_framed fresh_event_held)

lemma expect_check_event:
  "tripleM (fresh_event H p) (cm_expect_check f a fl ln cf d (Some p) cnt) (\<lambda>_. held_inv H) (held_inv H)"
proof (rule tripleMI)
  fix s assume s: "fresh_event H p s"
  let ?ob = "Obj_event \<lparr>ev_location = set_source_location fl ln, ev_parameter_name = a,
               ev_check_value = cf, ev_check_value_data = d\<rparr>"
  have "held_inv (insert p H) (s\<lparr>heap_objs := (heap_objs s)(p \<mapsto> ?ob)\<rparr>)"
    using s by (intro held_write) (auto simp: fresh_event_def)
  from held_add_parameter [OF this, of f a cnt] s
  show "ends (\<lambda>_. held_inv H) (held_inv H) (cm_expect_check f a fl ln cf d (Some p) cnt s)"
    by (simp add: cm_expect_check_def run_simps fresh_event_def is_event_def)
qed

lemma expect_check_None:
  "cm_expect_check f a fl ln cf d None cnt = bindM new_event (\<lambda>p. cm_expect_check f a fl ln cf d (Some p) cnt)"
  by (simp add: cm_expect_check_def)

lemma keeps_expect_check [cm_mono]: "keepsM (held_inv H) (cm_expect_check f a fl ln cf d None cnt)"
  unfolding expect_check_None tripleM_keeps [symmetric]
  by (rule tripleM_bind [OF new_event_triple expect_check_event])

lemma framesM_memory_at [cm_mono]: "framesM (memory_at a n)"
  by (simp add: framesM_def memory_at_def split: option.split)

lemma framesM_string_at [cm_mono]: "framesM (string_at a)"
  by (simp add: framesM_def string_at_def split: option.split)

lemma framesM_ptr [cm_mono]: "framesM (ptr_values_equal_display_error a b)"
    "framesM (ptr_values_not_equal_display_error a b)"
  unfolding ptr_values_equal_display_error_def ptr_values_not_equal_display_error_def display_if_not_def
  by (intro cm_mono)+

lemma framesM_assert_non_null [cm_mono]: "framesM (assert_non_null p fl ln)"
  unfolding assert_non_null_def cm_assert_ptr_not_equal_msg_def by (simp, intro cm_mono)

lemma keeps_expect_set_with [cm_mono]: "keepsM (held_inv H) (expect_set_with al f a fl ln vals cf cnt)"
  unfolding expect_set_with_def tripleM_keeps [symmetric]
  by (intro tripleM_bind [OF new_event_triple] tripleM_seq [OF fresh_frame expect_check_event] cm_mono)

lemma keeps_expect_memory_setup [cm_mono]:
  "keepsM (held_inv H) (expect_memory_setup f a fl ln mem sz cf cnt)"
  unfolding expect_memory_setup_def tripleM_keeps [symmetric]
  by (intro tripleM_bind [OF new_event_triple] tripleM_seq [OF fresh_frame]
      tripleM_bind [OF fresh_frame expect_check_event] cm_mono)

lemma keeps_expect_range [cm_mono]: "keepsM (held_inv H) (expect_range f a fl ln mn mx cf cnt)"
  unfolding expect_range_def tripleM_keeps [symmetric]
  by (intro tripleM_bind [OF new_event_triple expect_check_event])

lemmas expect_defs = cm_expect_int_in_set_def cm_expect_uint_in_set_def cm_expect_not_in_set_def
  expect_set_def expect_int_in_set_impl_def expect_uint_in_set_impl_def cm_expect_in_range_def
  cm_expect_not_in_range_def cm_expect_value_def cm_expect_not_value_def cm_expect_string_def
  cm_expect_not_string_def cm_expect_memory_def cm_expect_not_memory_def cm_expect_any_def

lemma keeps_expect [cm_mono]:
  "keepsM (held_inv H) (cm_expect_int_in_set f a fl ln vals cnt)"
  "keepsM (held_inv H) (cm_expect_uint_in_set f a fl ln vals cnt)"
  "keepsM (held_inv H) (cm_expect_not_in_set f a fl ln vals cnt)"
  "keepsM (held_inv H) (cm_expect_in_range f a fl ln mn mx cnt)"
  "keepsM (held_inv H) (cm_expect_not_in_range f a fl ln mn mx cnt)"
  "keepsM (held_inv H) (cm_expect_value f a fl ln v cnt)"
  "keepsM (held_inv H) (cm_expect_not_value f a fl ln v cnt)"
  "keepsM (held_inv H) (cm_expect_string f a fl ln str cnt)"
  "keepsM (held_inv H) (cm_expect_not_string f a fl ln str cnt)"
  "keepsM (held_inv H) (cm_expect_memory f a fl ln mem sz cnt)"
  "keepsM (held_inv H) (cm_expect_not_memory f a fl ln mem sz cnt)"
  "keepsM (held_inv H) (cm_expect_any f a fl ln cnt)"
  unfolding expect_defs
  by (rule keeps_expect_set_with keeps_expect_range keeps_expect_check keeps_expect_memory_setup)+

lemma expect_function_call_run:
  "cnt \<noteq> 0 \<Longrightarrow> cm_expect_function_call f fl ln cnt s =
     (Ret (), s\<lparr>heap_objs := (heap_objs s)(next_obj s \<mapsto>
          Obj_order \<lparr>fo_location = set_source_location fl ln, fo_function = f\<rparr>),
        next_obj := Suc (next_obj s),
        global_call_ordering_head := global_call_ordering_head s @ [(cnt, next_obj s)]\<rparr>)"
  by (simp add: cm_expect_function_call_def new_object_def run_simps)

lemma keeps_expect_function_call [cm_mono]: "keepsM (held_inv H) (cm_expect_function_call f fl ln cnt)"
proof (rule keepsMI)
  fix s assume inv: "held_inv H s"
  show "held_inv H (snd (cm_expect_function_call f fl ln cnt s))"
  proof (cases "cnt = 0")
    case True
    let ?fail = "cm_assert_true 0 ''count != 0'' cmocka_c 1194"
    have "fst (?fail s) = failure_outcome s" using assert_true_fails by (simp add: failsM_def)
    then have "snd (cm_expect_function_call f fl ln cnt s) = snd (?fail s)"
      using True by (cases "?fail s") (auto simp: cm_expect_function_call_def run_simps failure_outcome_def)
    then show ?thesis
      using inv keepsMD [OF mocks.keeps_framed [OF framesM_assert_true]] by simp
  next
    case False
    let ?ob = "Obj_order \<lparr>fo_location = set_source_location fl ln, fo_function = f\<rparr>"
    obtain p t where n: "new_object ?ob s = (Ret p, t)" by (simp add: new_object_def)
    have "is_order (heap_objs t p)" using held_new_object(3) [OF inv n] by (simp add: is_order_def)
    from held_add_order [OF held_new_object(1,2) [OF inv n] this False]
    show ?thesis using n False by (auto simp: expect_function_call_run new_object_def)
  qed
qed

lemma reportsM_framesM:
  assumes "reportsM P m"
  shows "framesM m"
proof (rule framesMI)
  fix s
  have r: "P s = None \<Longrightarrow> m s = (Undefined, s)" "P s = Some True \<Longrightarrow> m s = (Ret True, s)"
    "P s = Some False \<Longrightarrow> \<exists>x. x \<noteq> [] \<and> m s = (Ret False, said s x)"
    using assms unfolding reportsM_def by blast+
  show "msg_frame s (snd (m s))"
  proof (cases "P s")
    case (Some b)
    then show ?thesis using r(2,3) by (cases b) auto
  qed (use r(1) in simp)
qed

lemma framesM_display [cm_mono]:
  "framesM (int_value_in_set_display_error v xs b)" "framesM (uint_value_in_set_display_error v xs b)"
  "framesM (value_in_set_display_error v xs b)" "framesM (uint_in_range_display_error v mn mx)"
  "framesM (integer_not_in_range_display_error v mn mx)" "framesM (uint_values_equal_display_error v w)"
  "framesM (uint_values_not_equal_display_error v w)" "framesM (string_equal_display_error v w)"
  "framesM (string_not_equal_display_error v w)" "framesM (memory_equal_bytes x y)"
  by (rule reportsM_framesM, rule reports_set reports reports_memory_bytes)+

lemma framesM_memory_not_equal_bytes [cm_mono]: "framesM (memory_not_equal_bytes x y a b)"
  unfolding memory_not_equal_bytes_def Let_def by (intro cm_mono)

lemma framesM_int_of_bool [cm_mono]: "framesM m \<Longrightarrow> framesM (int_of_bool m)"
  unfolding int_of_bool_def by (intro cm_mono)

lemma keeps_run_check:
  assumes "\<And>n v w. keepsM (held_inv H) (uc n v w)"
  shows "keepsM (held_inv H) (run_check uc p cf v d)"
proof (cases "\<exists>n w. cf = Check_user n \<and> d = Data_value w")
  case True
  then show ?thesis using assms by auto
next
  case False
  then have "framesM (run_check uc p cf v d)"
    by (cases cf; cases d; simp add: check_defs cm_mono)
  then show ?thesis by (rule mocks.keeps_framed)
qed

lemma keeps_free_held: "p \<in> H \<Longrightarrow> keepsM (held_inv H) (free_object p)"
  by (rule keepsMI) (rule held_free)

lemma check_expected_after_get:
  assumes "\<And>H n v w. keepsM (held_inv H) (uc n v w)"
    and "held_inv (H \<union> (if rc = 1 then {p} else {})) s" and "heap_objs s p = Some (Obj_event ev)"
    and g: "\<And>c e. framesM (g c e)"
  shows "held_inv H (snd ((bindM (load_event (Some p)) (\<lambda>(check, ev).
       seqM (modM (\<lambda>s. s\<lparr>global_last_parameter_location := ev_location ev\<rparr>))
      (bindM (run_check uc check (ev_check_value ev) v (ev_check_value_data ev)) (\<lambda>ok.
       seqM (whenM (rc = 1) (free_object check)) (whenM (ok = 0) (g check ev)))))) s))"
    (is "held_inv H (snd (?m s))")
proof -
  let ?H = "H \<union> (if rc = 1 then {p} else {})"
  let ?rest = "seqM (modM (\<lambda>s. s\<lparr>global_last_parameter_location := ev_location ev\<rparr>))
      (bindM (run_check uc p (ev_check_value ev) v (ev_check_value_data ev)) (\<lambda>ok.
       seqM (whenM (rc = 1) (free_object p)) (whenM (ok = 0) (g p ev))))"
  have load: "load_event (Some p) s = (Ret (p, ev), s)" using assms(3) by (simp add: load_event_def)
  have "?m s = ?rest s" unfolding bindM_Ret [where m = "load_event (Some p)", OF load] case_prod_conv ..
  moreover have fr: "keepsM (held_inv ?H) (whenM (rc = 1) (free_object p))"
    by (cases "rc = 1") (simp_all add: whenM_def keeps_free_held keepsM_retM)
  have "keepsM (held_inv ?H) (whenM b (g p ev))" for b
    by (intro keepsM_whenM mocks.keeps_framed g)
  then have "keepsM (held_inv ?H) (seqM (whenM (rc = 1) (free_object p)) (whenM (ok = 0) (g p ev)))" for ok :: int
    by (rule keepsM_seqM [OF fr])
  then have "keepsM (held_inv ?H) ?rest"
    by (rule keepsM_seqM [OF keepsM_modM keepsM_bindM [OF keeps_run_check [OF assms(1)]], rotated])
       (simp add: held_last_location)
  then have "held_inv ?H (snd (?rest s))" using assms(2) by (rule keepsMD)
  then have "held_inv H (snd (?rest s))" by (rule held_inv_mono) auto
  ultimately show ?thesis by (simp only:)
qed

lemma keeps_check_expected:
  assumes "\<And>H n v w. keepsM (held_inv H) (uc n v w)"
  shows "keepsM (held_inv H) (cm_check_expected uc f a fl ln v)"
proof (rule keepsMI)
  fix s assume inv: "held_inv H s"
  then have mi: "mock_inv s" by (simp add: held_inv_def)
  from parameter_cases [OF mi, of f a] show "held_inv H (snd (cm_check_expected uc f a fl ln v s))"
  proof (elim disjE exE conjE)
    fix x assume g: "get_parameter_value f a s = (Ret (0, None), said s x)"
    have "msg_frame s (snd (cm_check_expected uc f a fl ln v s))"
      unfolding cm_check_expected_def
      by (rule failsM_after_get [where m = "get_parameter_value f a" and s = s, OF g]) (simp, intro cm_mono)
    then show ?thesis using inv by (rule mocks.blind)
  next
    fix r p q m ev
    assume st: "queue_step 2 (global_function_parameter_map_head s) [f, a] r p m"
      and ev: "heap_objs s p = Some (Obj_event ev)"
      and g: "get_parameter_value f a s = (Ret (r, Some p), s\<lparr>global_function_parameter_map_head := m\<rparr>)"
    have h: "held_inv (H \<union> (if r = 1 then {p} else {})) (s\<lparr>global_function_parameter_map_head := m\<rparr>)"
      by (rule held_after_parameter [OF inv st])
    show ?thesis
    proof (cases "r = 0")
      case True
      have "framesM (seqM (cmocka_print_error (fmt_loc (Some fl) ln @ '': error: Could not get value to check parameter '' @
               a @ '' of function '' @ f @ nl))
          (bindM (readM global_last_parameter_location) (\<lambda>loc.
           seqM (print_location_or loc ('': note: Previously declared parameter value was declared here'' @ nl)
               (''There were no previously declared parameter values for this test.'' @ nl))
            (exit_test True))))"
        by (intro cm_mono returnsM_framesM [OF returnsM_print_location_or])
      from keepsMD [OF mocks.keeps_framed [OF this], of H "s\<lparr>global_function_parameter_map_head := m\<rparr>"] h True g
      show ?thesis by (simp add: cm_check_expected_def bindM_apply)
    next
      case False
      then show ?thesis
        unfolding cm_check_expected_def bindM_Ret [where m = "get_parameter_value f a", OF g] case_prod_conv if_P [OF False]
        by (intro check_expected_after_get [OF assms h] failsM_framesM failsM_check_failed) (simp add: ev)
    qed
  qed
qed

section \<open>The order of calls\<close>

text \<open>
  The expected calls as counts and names. The specification: a call is compared with the
  first entry that is not an \<^verbatim>\<open>ignore\<close> entry (count below -1); an entry that names the
  function may come earlier only among the ignored ones.
\<close>

definition order_name :: "(nat \<rightharpoonup> heap_obj) \<Rightarrow> nat \<Rightarrow> string" where
  "order_name h p = (case h p of Some (Obj_order o') \<Rightarrow> fo_function o' | _ \<Rightarrow> [])"

definition order_view :: "(nat \<rightharpoonup> heap_obj) \<Rightarrow> (int \<times> nat) list \<Rightarrow> (int \<times> string) list" where
  "order_view h q = map (\<lambda>(r, p). (r, order_name h p)) q"

definition call_queue :: "cm_state \<Rightarrow> (int \<times> string) list" where
  "call_queue s = order_view (heap_objs s) (global_call_ordering_head s)"

fun accept_call :: "string \<Rightarrow> (int \<times> string) list \<Rightarrow> (int \<times> string) list option" where
  "accept_call f [] = None"
| "accept_call f ((r, g) # q) =
     (if g = f then Some (if r < -1 then (r, g) # q else if r = 1 then q else (r - 1, g) # q)
      else if r < -1 then map_option ((#) (r, g)) (accept_call f q) else None)"

text \<open>The list after the entry \<open>j\<close> was counted.\<close>

definition counted :: "nat \<Rightarrow> (int \<times> nat) list \<Rightarrow> (int \<times> nat) list" where
  "counted j q = (let (r, p) = q ! j in
     if r < -1 then q else if r = 1 then take j q @ drop (Suc j) q else q[j := (r - 1, p)])"

lemma counted_Suc: "counted (Suc j) (e # q) = e # counted j q"
  by (auto simp: counted_def split: prod.splits)

lemma scan_calls_spec:
  assumes "\<forall>p \<in> set (map snd q). is_order (h p)"
  shows "case scan_calls h f i q of
      Scan_undefined \<Rightarrow> False
    | Scan_end \<Rightarrow> accept_call f (order_view h q) = None
    | Scan_at k found g \<Rightarrow> if found
        then \<exists>j < length q. k = i + j \<and> accept_call f (order_view h q) = Some (order_view h (counted j q))
        else accept_call f (order_view h q) = None"
  using assms
proof (induction q arbitrary: i)
  case Nil
  then show ?case by (simp add: order_view_def)
next
  case (Cons e q)
  obtain r p where e: "e = (r, p)" by (cases e)
  obtain o' where o: "h p = Some (Obj_order o')"
    using Cons.prems e by (auto simp: is_order_def split: option.splits heap_obj.splits)
  have nm: "order_name h p = fo_function o'" by (simp add: order_name_def o)
  show ?case
  proof (cases "fo_function o' = f \<or> r > -2")
    case True
    then have s: "scan_calls h f i (e # q) = Scan_at i (fo_function o' = f) (fo_function o')"
      by (simp add: e o)
    show ?thesis
    proof (cases "fo_function o' = f")
      case True
      then have "accept_call f (order_view h (e # q)) = Some (order_view h (counted 0 (e # q)))"
        by (auto simp: order_view_def e nm counted_def)
      then show ?thesis using s True by auto
    next
      case False
      then show ?thesis using s True by (simp add: order_view_def e nm)
    qed
  next
    case False
    then have s: "scan_calls h f i (e # q) = scan_calls h f (Suc i) q" by (simp add: e o)
    have IH: "case scan_calls h f (Suc i) q of
      Scan_undefined \<Rightarrow> False
    | Scan_end \<Rightarrow> accept_call f (order_view h q) = None
    | Scan_at k found g \<Rightarrow> if found
        then \<exists>j < length q. k = Suc i + j \<and> accept_call f (order_view h q) = Some (order_view h (counted j q))
        else accept_call f (order_view h q) = None"
      using Cons by simp
    have a: "accept_call f (order_view h (e # q)) = map_option ((#) (r, fo_function o')) (accept_call f (order_view h q))"
      using False by (simp add: order_view_def e nm)
    have v: "order_view h (e # q') = (r, fo_function o') # order_view h q'" for q'
      by (simp add: order_view_def e nm)
    show ?thesis
    proof (cases "scan_calls h f (Suc i) q")
      case (Scan_at k found g)
      show ?thesis
      proof (cases found)
        case True
        then obtain j where j: "j < length q" "k = Suc i + j"
          "accept_call f (order_view h q) = Some (order_view h (counted j q))"
          using IH Scan_at by auto
        have "accept_call f (order_view h (e # q)) = Some (order_view h (counted (Suc j) (e # q)))"
          unfolding a unfolding j(3) counted_Suc by (simp add: v)
        then have "\<exists>j < length (e # q). k = i + j \<and> accept_call f (order_view h (e # q)) = Some (order_view h (counted j (e # q)))"
          using j(1,2) by (intro exI [of _ "Suc j"]) simp
        then show ?thesis using s Scan_at True by simp
      next
        case False
        then show ?thesis using s a IH Scan_at by simp
      qed
    qed (use s a IH in simp_all)
  qed
qed

lemma count_call_run:
  assumes "mock_inv s" "j < length (global_call_ordering_head s)"
  shows "count_call j s = (Ret (), let q = global_call_ordering_head s in
     (if fst (q ! j) = 1 then clear_objs {snd (q ! j)} else (\<lambda>s. s)) (s\<lparr>global_call_ordering_head := counted j q\<rparr>))"
proof -
  let ?q = "global_call_ordering_head s"
  obtain r p where e: "?q ! j = (r, p)" by (cases "?q ! j")
  then have "(r, p) \<in> set ?q" using assms(2) nth_mem by metis
  then have "is_order (heap_objs s p)" "r \<noteq> 0"
    using assms(1) unfolding mock_inv_def kinds_ok_def counts_ok_def by force+
  then obtain ob where "heap_objs s p = Some ob" by (cases "heap_objs s p") auto
  then show ?thesis
    using e by (auto simp: count_call_def counted_def Let_def run_simps free_object_def clear_objs_def fun_upd_def
        cong: if_cong)
qed

lemma counted_owned:
  "j < length q \<Longrightarrow> mset (map snd q) = mset (map snd (counted j q)) + (if fst (q ! j) = 1 then {#snd (q ! j)#} else {#})"
proof (induction q arbitrary: j)
  case (Cons e q)
  obtain r p where e: "e = (r, p)" by (cases e)
  show ?case
  proof (cases j)
    case 0
    then show ?thesis by (auto simp: counted_def e)
  next
    case (Suc i)
    then show ?thesis using Cons by (simp add: counted_Suc)
  qed
qed simp

lemma counted_counts:
  "j < length q \<Longrightarrow> \<forall>e \<in> set q. fst e \<noteq> 0 \<Longrightarrow> \<forall>e \<in> set (counted j q). fst e \<noteq> 0"
proof (induction q arbitrary: j)
  case (Cons e q)
  obtain r p where e: "e = (r, p)" by (cases e)
  show ?case
  proof (cases j)
    case 0
    then show ?thesis using Cons.prems by (auto simp: counted_def e)
  next
    case (Suc i)
    then show ?thesis using Cons by (simp add: counted_Suc)
  qed
qed simp

lemma held_counted:
  assumes inv: "held_inv H s" and j: "j < length (global_call_ordering_head s)"
    and q: "q = global_call_ordering_head s"
    and t: "t = (if fst (q ! j) = 1 then clear_objs {snd (q ! j)} else (\<lambda>s. s)) (s\<lparr>global_call_ordering_head := counted j q\<rparr>)"
  shows "held_inv H t" "call_queue t = order_view (heap_objs s) (counted j q)"
proof -
  let ?F = "if fst (q ! j) = 1 then {#snd (q ! j)#} else {#}"
  have sel: "global_function_result_map_head t = global_function_result_map_head s"
    "global_function_parameter_map_head t = global_function_parameter_map_head s"
    "global_call_ordering_head t = counted j q" "next_obj t = next_obj s"
    "heap_objs t = (\<lambda>x. if x \<in># ?F then None else heap_objs s x)"
    using t by (simp_all cong: if_cong)
  have up: "gives_up ?F s t"
    unfolding gives_up_def sel using counted_owned [of j q] j q
    by (intro exI [of _ "{#}"] exI [of _ ?F]) simp
  have ok: "counts_ok t"
    using inv counted_counts [of j q] j q by (simp add: held_inv_def mock_inv_def counts_ok_def sel)
  have "held_inv (H \<union> set_mset ?F) t"
    using inv by (intro held_give_up [OF inv up _ _ ok]) (simp_all add: sel held_inv_def mock_inv_def)
  then show "held_inv H t" by (rule held_inv_mono) simp
  have "p \<notin># ?F" if "p \<in> set (map snd (counted j q))" for p
  proof -
    have "distinct (owned s)" using inv by (simp add: held_inv_def mock_inv_def)
    moreover have "p \<in> set (owned t)" using that by (simp add: owned_def sel)
    ultimately show ?thesis using gives_up_distinct(2) [OF up] by blast
  qed
  then show "call_queue t = order_view (heap_objs s) (counted j q)"
    unfolding call_queue_def order_view_def sel
    by (intro map_cong refl) (force simp: order_name_def split: prod.splits)
qed

lemma function_called_accepts:
  assumes inv: "held_inv H s"
  shows "case accept_call f (call_queue s) of
      Some q \<Rightarrow> \<exists>t. cm_function_called f fl ln s = (Ret (), t) \<and> held_inv H t \<and> call_queue t = q
    | None \<Rightarrow> fst (cm_function_called f fl ln s) = failure_outcome s \<and> msg_frame s (snd (cm_function_called f fl ln s))"
proof -
  have mi: "mock_inv s" using inv by (simp add: held_inv_def)
  let ?q = "global_call_ordering_head s"
  have k: "\<forall>p \<in> set (map snd ?q). is_order (heap_objs s p)" using mi by (simp add: mock_inv_def kinds_ok_def)
  note spec = scan_calls_spec [OF k, where f = f and i = 0]
  have rej: "fst (seqM (cmocka_print_error m) (exit_test True) s) = failure_outcome s
      \<and> msg_frame s (snd (seqM (cmocka_print_error m) (exit_test True) s))" for m
  proof -
    have "failsM (seqM (cmocka_print_error m) (exit_test True))" by (intro cm_mono)
    then show ?thesis by (simp add: failsM_def framesM_def)
  qed
  show ?thesis
  proof (cases "?q = []")
    case True
    then show ?thesis using rej by (simp add: cm_function_called_def call_queue_def order_view_def)
  next
    case False
    show ?thesis
    proof (cases "scan_calls (heap_objs s) f 0 ?q")
      case (Scan_at k found g)
      show ?thesis
      proof (cases found)
        case True
        then obtain j where j: "j < length ?q" "k = j"
          "accept_call f (call_queue s) = Some (order_view (heap_objs s) (counted j ?q))"
          using spec Scan_at by (auto simp: call_queue_def)
        have "cm_function_called f fl ln s = count_call j s"
          using False Scan_at True j(2) by (simp add: cm_function_called_def)
        then show ?thesis
          using count_call_run [OF mi j(1)] held_counted [OF inv j(1) refl refl] j(3) by (simp add: Let_def)
      next
        case False
        then show ?thesis using spec Scan_at rej \<open>?q \<noteq> []\<close> by (simp add: cm_function_called_def call_queue_def)
      qed
    qed (use spec rej False in \<open>simp_all add: cm_function_called_def call_queue_def\<close>)
  qed
qed

lemma keeps_function_called [cm_mono]: "keepsM (held_inv H) (cm_function_called f fl ln)"
proof (rule keepsMI)
  fix s assume inv: "held_inv H s"
  show "held_inv H (snd (cm_function_called f fl ln s))"
    using function_called_accepts [OF inv, of f fl ln] mocks.blind [OF _ inv]
    by (cases "accept_call f (call_queue s)") auto
qed

end
