(* ===== verification/Mock_Lifecycle.thy ===== *)
theory Mock_Lifecycle
  imports Mock_Objects
begin

text \<open>
  What the runner does with the mock objects when a test ends: the values that may stay are
  dropped, anything else that is left makes the test fail, and teardown releases all objects.
  The properties of the mock objects follow: queues of return values, checked parameters,
  the order of calls, leftovers, ownership.
\<close>

section \<open>The end of a test\<close>

lemmas remove_always_at_depth =
  remove_always_queue [of 0, unfolded One_nat_def [symmetric]]
  remove_always_queue [of 1, unfolded Suc_1]

lemma drop_always_subset: "set (drop_always q) \<subseteq> set q"
  by (auto simp: drop_always_def split: list.splits if_splits)

text \<open>Giving up the objects \<open>F\<close> of the maps and releasing all of them.\<close>

lemma held_release:
  assumes inv: "held_inv H s" and up: "gives_up (mset F) s t"
    and wf: "wf_map 1 (global_function_result_map_head t)" "wf_map 2 (global_function_parameter_map_head t)"
    and ok: "counts_ok t" and same: "heap_objs t = heap_objs s" "next_obj t = next_obj s"
  shows "forM F free_object t = (Ret (), clear_objs (set F) t)" "held_inv H (clear_objs (set F) t)"
proof -
  have "distinct (owned s)" using inv by (simp add: held_inv_def mock_inv_def)
  then have d: "distinct F"
    using gives_up_owned [OF up] by (metis distinct_append mset_append mset_eq_imp_distinct_iff)
  have "set F \<subseteq> set (owned s)"
    using gives_up_owned [OF up] by (metis mset_subset_eq_add_right set_mset_mono set_mset_mset)
  then have "\<And>p. p \<in> set F \<Longrightarrow> heap_objs t p \<noteq> None" using held_inv_live [OF inv] same by auto
  then show "forM F free_object t = (Ret (), clear_objs (set F) t)" using free_all [OF d] by simp
  have "held_inv (H \<union> set_mset (mset F)) t"
    using same by (intro held_give_up [OF inv up wf ok]) simp_all
  then have "held_inv (H \<union> set F) (clear_objs (set F) t)" by (intro held_clear) auto
  then show "held_inv H (clear_objs (set F) t)" by (rule held_inv_mono) auto
qed

lemma remove_always_results_run:
  assumes inv: "held_inv H s"
  shows "\<exists>t. remove_always_results s = (Ret (), t) \<and> held_inv H t
    \<and> (\<forall>f. queue_at (global_function_result_map_head t) [f] = drop_always (queue_at (global_function_result_map_head s) [f]))
    \<and> global_function_parameter_map_head t = global_function_parameter_map_head s
    \<and> global_call_ordering_head t = global_call_ordering_head s"
proof -
  let ?R = "global_function_result_map_head s"
  let ?m = "fst (remove_always_return_values 1 ?R)" and ?F = "snd (remove_always_return_values 1 ?R)"
  let ?u = "s\<lparr>global_function_result_map_head := ?m\<rparr>"
  have "wf_map 1 ?R" using inv by (simp add: held_inv_def mock_inv_def)
  note r = remove_always_at_depth(1) [OF this]
  have q: "queue_at ?m [f] = drop_always (queue_at ?R [f])" for f using r by simp
  have c: "counts_ok s" using inv by (simp add: held_inv_def mock_inv_def)
  have "fst e \<noteq> 0" if "e \<in> set (queue_at ?m [f])" for e f
    using that c drop_always_subset unfolding q counts_ok_def by blast
  then have "counts_ok ?u" using c by (simp add: counts_ok_def)
  moreover have "gives_up (mset ?F) s ?u"
    using r unfolding gives_up_def by (intro exI [of _ "mset ?F"] exI [of _ "{#}"]) simp
  moreover have "wf_map 1 ?m" "wf_map 2 (global_function_parameter_map_head s)"
    using r inv by (simp_all add: held_inv_def mock_inv_def)
  ultimately have "forM ?F free_object ?u = (Ret (), clear_objs (set ?F) ?u)" "held_inv H (clear_objs (set ?F) ?u)"
    by (intro held_release [OF inv]; simp)+
  then show ?thesis using q by (simp add: remove_always_results_def run_simps)
qed

lemma remove_always_parameters_run:
  assumes inv: "held_inv H s"
  shows "\<exists>t. remove_always_parameters s = (Ret (), t) \<and> held_inv H t
    \<and> (\<forall>f a. queue_at (global_function_parameter_map_head t) [f, a]
          = drop_always (queue_at (global_function_parameter_map_head s) [f, a]))
    \<and> global_function_result_map_head t = global_function_result_map_head s
    \<and> global_call_ordering_head t = global_call_ordering_head s"
proof -
  let ?R = "global_function_parameter_map_head s"
  let ?m = "fst (remove_always_return_values 2 ?R)" and ?F = "snd (remove_always_return_values 2 ?R)"
  let ?u = "s\<lparr>global_function_parameter_map_head := ?m\<rparr>"
  have "wf_map 2 ?R" using inv by (simp add: held_inv_def mock_inv_def)
  note r = remove_always_at_depth(2) [OF this]
  have q: "queue_at ?m [f, a] = drop_always (queue_at ?R [f, a])" for f a using r by simp
  have "counts_ok ?u" using inv by (simp add: held_inv_def mock_inv_def counts_ok_def)
  moreover have "gives_up (mset ?F) s ?u"
    using r unfolding gives_up_def by (intro exI [of _ "{#}"] exI [of _ "mset ?F"]) simp
  moreover have "wf_map 2 ?m" "wf_map 1 (global_function_result_map_head s)"
    using r inv by (simp_all add: held_inv_def mock_inv_def)
  ultimately have "forM ?F free_object ?u = (Ret (), clear_objs (set ?F) ?u)" "held_inv H (clear_objs (set ?F) ?u)"
    by (intro held_release [OF inv]; simp)+
  then show ?thesis using q by (simp add: remove_always_parameters_def run_simps)
qed

lemma mset_snd_filter:
  "mset (map snd q) = mset (map snd (filter (\<lambda>(r, p). \<not> P r) q)) + mset (map snd (filter (\<lambda>(r, p). P r) q))"
  by (induction q) auto

lemma remove_always_calls_run:
  assumes inv: "held_inv H s"
  shows "\<exists>t. remove_always_return_values_from_list s = (Ret (), t) \<and> held_inv H t
    \<and> global_call_ordering_head t = filter (\<lambda>(r, p). \<not> r < -1) (global_call_ordering_head s)
    \<and> global_function_result_map_head t = global_function_result_map_head s
    \<and> global_function_parameter_map_head t = global_function_parameter_map_head s"
proof -
  let ?q = "global_call_ordering_head s"
  let ?k = "filter (\<lambda>(r, p). \<not> r < -1) ?q" and ?F = "map snd (filter (\<lambda>(r, p). r < -1) ?q)"
  let ?u = "s\<lparr>global_call_ordering_head := ?k\<rparr>"
  have "counts_ok ?u" using inv by (auto simp: held_inv_def mock_inv_def counts_ok_def)
  moreover have "mset (map snd ?q) = mset (map snd ?k) + mset ?F"
    by (rule mset_snd_filter)
  then have "gives_up (mset ?F) s ?u"
    unfolding gives_up_def by (intro exI [of _ "{#}"] exI [of _ "mset ?F"]) simp
  moreover have "wf_map 1 (global_function_result_map_head s)" "wf_map 2 (global_function_parameter_map_head s)"
    using inv by (simp_all add: held_inv_def mock_inv_def)
  ultimately have "forM ?F free_object ?u = (Ret (), clear_objs (set ?F) ?u)" "held_inv H (clear_objs (set ?F) ?u)"
    by (intro held_release [OF inv]; simp)+
  then show ?thesis by (simp add: remove_always_return_values_from_list_def run_simps)
qed

lemma forM_framed_returns:
  "(\<And>x. returnsM (f x)) \<Longrightarrow> \<exists>t. forM xs f s = (Ret (), t) \<and> msg_frame s t"
proof -
  assume "\<And>x. returnsM (f x)"
  then have r: "returnsM (forM xs f)" by (rule returnsM_forM)
  then obtain u where "fst (forM xs f s) = Ret u" unfolding returnsM_def by blast
  moreover have "msg_frame s (snd (forM xs f s))" using r by (simp add: returnsM_def framesM_def)
  ultimately show ?thesis by (cases "forM xs f s") auto
qed

lemma report_leftover_map_run:
  assumes "wf_map (Suc d) (gh s)" "\<And>p. p \<in> set (leaves (gh s)) \<Longrightarrow> heap_objs s p \<noteq> None"
  shows "\<exists>t. report_leftover_map gh msg n s = (Ret (length (gh s)), t) \<and> msg_frame s t"
proof -
  have live: "all_live s (leaves (gh s))" using assms(2) by (auto simp: all_live_def list_all_iff)
  obtain t where "forM (snd (check_for_leftover_values (decl_text s) msg n (gh s))) cmocka_print_error s = (Ret (), t)"
    "msg_frame s t" using forM_framed_returns [of cmocka_print_error, OF returnsM_print] by blast
  then show ?thesis
    using live by (simp add: report_leftover_map_def run_simps leftover_count [OF assms(1)])
qed

lemma load_order_frame:
  assumes "is_order (heap_objs s p)" "\<And>o'. returnsM (g o')"
  shows "\<exists>t. bindM (load_object p) (\<lambda>ob. case ob of Obj_order o' \<Rightarrow> g o' | _ \<Rightarrow> throwM Undefined) s = (Ret (), t)
    \<and> msg_frame s t"
proof -
  obtain o' where o: "heap_objs s p = Some (Obj_order o')"
    using assms(1) by (auto simp: is_order_def split: option.splits heap_obj.splits)
  obtain u t where "g o' s = (u, t)" "fst (g o' s) = Ret ()" "msg_frame s t"
    using assms(2) [of o'] unfolding returnsM_def framesM_def by (metis (full_types) old.unit.exhaust prod.collapse snd_conv)
  then show ?thesis using o by (simp add: bindM_apply load_object_def)
qed

lemma leftover_calls_run:
  assumes "\<forall>p \<in> set (map snd (global_call_ordering_head s)). is_order (heap_objs s p)"
  shows "\<exists>t. check_for_leftover_values_list msg s = (Ret (length (global_call_ordering_head s)), t) \<and> msg_frame s t"
proof -
  let ?f = "\<lambda>(r :: int, p). bindM (load_object p) (\<lambda>ob. case ob of
             Obj_order o' \<Rightarrow>
               seqM (cmocka_print_error (msg @ '': '' @ fo_function o' @ nl))
                    (cmocka_print_error (fmt_loc (loc_file (fo_location o')) (loc_line (fo_location o')) @
                       '': note: remaining item was declared here'' @ nl))
           | _ \<Rightarrow> throwM Undefined)"
  have "\<forall>p \<in> set (map snd q). is_order (heap_objs s p) \<Longrightarrow> \<exists>t. forM q ?f s = (Ret (), t) \<and> msg_frame s t"
    for q s
  proof (induction q arbitrary: s)
    case (Cons e q)
    obtain r p where e: "e = (r, p)" by (cases e)
    have "is_order (heap_objs s p)" using Cons.prems e by simp
    then have "\<exists>t. ?f e s = (Ret (), t) \<and> msg_frame s t"
      unfolding e prod.case by (rule load_order_frame) (intro cm_mono)
    then obtain t where t: "?f e s = (Ret (), t)" "msg_frame s t" by blast
    have "\<forall>p \<in> set (map snd q). is_order (heap_objs t p)"
      using Cons.prems msg_frame_fields(5) [OF t(2)] by simp
    from Cons.IH [OF this] obtain u where u: "forM q ?f t = (Ret (), u)" "msg_frame t u" by blast
    have "forM (e # q) ?f s = (Ret (), u)"
      unfolding forM.simps seqM_Ret [where m = "?f e" and s = s, OF t(1)] by (rule u(1))
    then show ?case using msg_frame_trans [OF t(2) u(2)] by blast
  qed simp
  from this [OF assms] obtain t where t: "forM (global_call_ordering_head s) ?f s = (Ret (), t)" "msg_frame s t"
    by blast
  have "check_for_leftover_values_list msg s = (Ret (length (global_call_ordering_head s)), t)"
    unfolding check_for_leftover_values_list_def bindM_readM
      seqM_Ret [where m = "forM (global_call_ordering_head s) ?f" and s = s, OF t(1)] by simp
  then show ?thesis using t(2) by blast
qed

text \<open>
  The leftovers that make a test fail: a queue that still has an entry after a used-up
  \<^verbatim>\<open>always\<close> or \<^verbatim>\<open>maybe\<close> entry at its front was dropped, or an expected call that
  is not an ignored one.
\<close>

definition leftover :: "cm_state \<Rightarrow> bool" where
  "leftover s \<longleftrightarrow> (\<exists>f. drop_always (queue_at (global_function_result_map_head s) [f]) \<noteq> [])
     \<or> (\<exists>f a. drop_always (queue_at (global_function_parameter_map_head s) [f, a]) \<noteq> [])
     \<or> (\<exists>(r, p) \<in> set (global_call_ordering_head s). r \<ge> -1)"

lemma map_empty_at_depth:
  "wf_map 1 m \<Longrightarrow> m = [] \<longleftrightarrow> (\<forall>f. queue_at m [f] = [])"
  "wf_map 2 m \<Longrightarrow> m = [] \<longleftrightarrow> (\<forall>f a. queue_at m [f, a] = [])"
proof -
  have "length p = 1 \<Longrightarrow> \<exists>f. p = [f]" "length p = 2 \<Longrightarrow> \<exists>f a. p = [f, a]" for p :: "string list"
    by (auto simp: length_Suc_conv numeral_2_eq_2)
  then show "wf_map 1 m \<Longrightarrow> m = [] \<longleftrightarrow> (\<forall>f. queue_at m [f] = [])"
    "wf_map 2 m \<Longrightarrow> m = [] \<longleftrightarrow> (\<forall>f a. queue_at m [f, a] = [])"
    using wf_map_empty_iff [of 0 m, unfolded One_nat_def [symmetric]] wf_map_empty_iff [of 1 m, unfolded Suc_1]
    by (metis depth_simps)+
qed

lemma has_leftover_values_run:
  assumes inv: "held_inv H s"
  shows "\<exists>t. has_leftover_values s = (Ret (leftover s), t) \<and> held_inv H t"
proof -
  obtain s1 where s1: "remove_always_results s = (Ret (), s1)" "held_inv H s1"
    "\<And>f. queue_at (global_function_result_map_head s1) [f] = drop_always (queue_at (global_function_result_map_head s) [f])"
    "global_function_parameter_map_head s1 = global_function_parameter_map_head s"
    "global_call_ordering_head s1 = global_call_ordering_head s"
    using remove_always_results_run [OF inv] by blast
  have w1: "wf_map 1 (global_function_result_map_head s1)" using s1(2) by (simp add: held_inv_def mock_inv_def)
  have "\<exists>t. report_leftover_map global_function_result_map_head ''Has remaining non-returned values'' 1 s1
      = (Ret (length (global_function_result_map_head s1)), t) \<and> msg_frame s1 t"
    by (rule report_leftover_map_run [of 0]) (use w1 held_inv_live [OF s1(2)] in \<open>auto simp: owned_def\<close>)
  then obtain s2 where s2: "report_leftover_map global_function_result_map_head ''Has remaining non-returned values'' 1 s1
      = (Ret (length (global_function_result_map_head s1)), s2)" "msg_frame s1 s2" by blast
  have h2: "held_inv H s2" using mocks.blind [OF s2(2) s1(2)] .
  obtain s3 where s3: "remove_always_parameters s2 = (Ret (), s3)" "held_inv H s3"
    "\<And>f a. queue_at (global_function_parameter_map_head s3) [f, a]
        = drop_always (queue_at (global_function_parameter_map_head s) [f, a])"
    "global_call_ordering_head s3 = global_call_ordering_head s"
    using remove_always_parameters_run [OF h2] s1(4,5) msg_frame_fields [OF s2(2)] by auto
  have w3: "wf_map 2 (global_function_parameter_map_head s3)" using s3(2) by (simp add: held_inv_def mock_inv_def)
  have "\<exists>t. report_leftover_map global_function_parameter_map_head
      ''Parameter still has values that haven't been checked'' 2 s3
      = (Ret (length (global_function_parameter_map_head s3)), t) \<and> msg_frame s3 t"
    by (rule report_leftover_map_run [of 1, unfolded Suc_1])
       (use w3 held_inv_live [OF s3(2)] in \<open>auto simp: owned_def\<close>)
  then obtain s4 where s4: "report_leftover_map global_function_parameter_map_head
      ''Parameter still has values that haven't been checked'' 2 s3
      = (Ret (length (global_function_parameter_map_head s3)), s4)" "msg_frame s3 s4" by blast
  have h4: "held_inv H s4" using mocks.blind [OF s4(2) s3(2)] .
  obtain s5 where s5: "remove_always_return_values_from_list s4 = (Ret (), s5)" "held_inv H s5"
    "global_call_ordering_head s5 = filter (\<lambda>(r, p). \<not> r < -1) (global_call_ordering_head s)"
    using remove_always_calls_run [OF h4] s3(4) msg_frame_fields [OF s4(2)] by auto
  have "\<forall>p \<in> set (map snd (global_call_ordering_head s5)). is_order (heap_objs s5 p)"
    using s5(2) by (simp add: held_inv_def mock_inv_def kinds_ok_def)
  from leftover_calls_run [OF this, of "''Function was expected to be called but was not''"]
  obtain s6 where s6: "check_for_leftover_values_list ''Function was expected to be called but was not'' s5
      = (Ret (length (global_call_ordering_head s5)), s6)" "msg_frame s5 s6" by blast
  have "has_leftover_values s = (Ret (length (global_function_result_map_head s1) \<noteq> 0
      \<or> length (global_function_parameter_map_head s3) \<noteq> 0 \<or> length (global_call_ordering_head s5) \<noteq> 0), s6)"
    by (simp only: has_leftover_values_def seqM_def bindM_apply retM_apply
        s1(1) s2(1) s3(1) s4(1) s5(1) s6(1) prod.case outcome.case)
  moreover have "length (global_function_result_map_head s1) \<noteq> 0
      \<or> length (global_function_parameter_map_head s3) \<noteq> 0 \<or> length (global_call_ordering_head s5) \<noteq> 0 \<longleftrightarrow> leftover s"
    using map_empty_at_depth(1) [OF w1] map_empty_at_depth(2) [OF w3] s1(3) s3(3)
    by (auto simp: leftover_def s5(3) filter_empty_conv not_less)
  ultimately show ?thesis using mocks.blind [OF s6(2) s5(2)] by simp
qed

lemma fail_if_leftover_run:
  assumes "held_inv H s"
  shows "if leftover s then fst (fail_if_leftover_values s) = failure_outcome (snd (has_leftover_values s))
     else fst (fail_if_leftover_values s) = Ret ()"
    and "held_inv H (snd (fail_if_leftover_values s))"
proof -
  obtain t where t: "has_leftover_values s = (Ret (leftover s), t)" "held_inv H t"
    using has_leftover_values_run [OF assms] by blast
  then show "if leftover s then fst (fail_if_leftover_values s) = failure_outcome (snd (has_leftover_values s))
     else fst (fail_if_leftover_values s) = Ret ()"
    using failsM_outcome [OF failsM_exit_test, of t] by (simp add: fail_if_leftover_values_def bindM_apply)
  show "held_inv H (snd (fail_if_leftover_values s))"
    using t keepsMD [OF mocks.keeps_exit, of H t True] by (simp add: fail_if_leftover_values_def bindM_apply)
qed

text \<open>The check does not change what decides how a test is left.\<close>

lemma framesM_load_object: "framesM (load_object p)"
  by (simp add: framesM_def load_object_def split: option.split)

lemma framesM_leftover_calls: "framesM (check_for_leftover_values_list msg)"
  unfolding check_for_leftover_values_list_def
  by (auto intro!: framesM_bindM framesM_seqM framesM_forM framesM_basic framesM_load_object framesM_print
      split: heap_obj.split prod.split)

lemma keeps_control_leftover: "keepsM (\<lambda>s. control s = c) has_leftover_values"
proof -
  note k = keepsM_bindM keepsM_seqM keepsM_forM keepsM_readM keepsM_retM keepsM_throwM
  have u: "keepsM (\<lambda>s. control s = c) (modM (\<lambda>s. s\<lparr>global_function_result_map_head := m\<rparr>))"
    "keepsM (\<lambda>s. control s = c) (modM (\<lambda>s. s\<lparr>global_function_parameter_map_head := m\<rparr>))"
    "keepsM (\<lambda>s. control s = c) (modM (\<lambda>s. s\<lparr>global_call_ordering_head := q\<rparr>))"
    "keepsM (\<lambda>s. control s = c) (free_object p)" for m q p
    by (simp_all add: keepsM_def control_def free_object_def)
  have "keepsM (\<lambda>s. control s = c) (report_leftover_map g msg n)" for g msg n
    unfolding report_leftover_map_def by (intro k keepsM_if controls.keeps_framed [OF framesM_print(4)])
  moreover have "keepsM (\<lambda>s. control s = c) (check_for_leftover_values_list msg)" for msg
    by (rule controls.keeps_framed) (rule framesM_leftover_calls)
  moreover have "keepsM (\<lambda>s. control s = c) remove_always_results"
    "keepsM (\<lambda>s. control s = c) remove_always_parameters"
    "keepsM (\<lambda>s. control s = c) remove_always_return_values_from_list"
    unfolding remove_always_results_def remove_always_parameters_def remove_always_return_values_from_list_def
    by (intro k u)+
  ultimately show ?thesis unfolding has_leftover_values_def by (intro k)
qed

lemma fail_if_leftover_outcome:
  assumes "mock_inv s"
  shows "fst (fail_if_leftover_values s) = (if leftover s then failure_outcome s else Ret ())"
proof -
  have "control (snd (has_leftover_values s)) = control s" by (rule keepsMD [OF keeps_control_leftover]) (rule refl)
  from failure_outcome_control [OF this] show ?thesis
    using fail_if_leftover_run(1) [of "{}" s] assms by (simp split: if_splits)
qed

text \<open>Teardown: every owned object is released once, and nothing is owned afterwards.\<close>

definition torn_down :: "cm_state \<Rightarrow> cm_state" where
  "torn_down s = s\<lparr>
     heap_objs := (\<lambda>p. if p \<in> set (owned s) then None else heap_objs s p),
     global_function_result_map_head := [], global_last_mock_value_location := initialize_source_location,
     global_function_parameter_map_head := [], global_last_parameter_location := initialize_source_location,
     global_call_ordering_head := [], global_last_call_ordering_location := initialize_source_location\<rparr>"

lemma teardown_run:
  assumes "mock_inv s"
  shows "teardown_testing s = (Ret (), torn_down s)"
proof -
  let ?A = "leaves (global_function_result_map_head s)"
    and ?B = "leaves (global_function_parameter_map_head s)"
    and ?C = "map snd (global_call_ordering_head s)"
  have fr: "free_symbol_map 0 (global_function_result_map_head s) = ?A"
    "free_symbol_map 1 (global_function_parameter_map_head s) = ?B"
    using assms free_symbol_map_leaves [of 0, unfolded One_nat_def [symmetric]] free_symbol_map_leaves [of 1, unfolded Suc_1]
    by (simp_all add: mock_inv_def)
  have d: "distinct (?A @ ?B @ ?C)" using assms by (simp add: mock_inv_def owned_def)
  have live: "\<And>p. p \<in> set (?A @ ?B @ ?C) \<Longrightarrow> heap_objs s p \<noteq> None"
    using held_inv_live [of "{}" s] assms by (simp add: owned_def)
  let ?s1 = "clear_objs (set ?A) s"
  let ?s2 = "?s1\<lparr>global_function_result_map_head := [], global_last_mock_value_location := initialize_source_location\<rparr>"
  let ?s3 = "clear_objs (set ?B) ?s2"
  let ?s4 = "?s3\<lparr>global_function_parameter_map_head := [], global_last_parameter_location := initialize_source_location\<rparr>"
  have 1: "forM ?A free_object s = (Ret (), ?s1)" using d live by (intro free_all) auto
  have 2: "forM ?B free_object ?s2 = (Ret (), ?s3)" using d live by (intro free_all) auto
  have 3: "forM ?C free_object ?s4 = (Ret (), clear_objs (set ?C) ?s4)" using d live by (intro free_all) force+
  have "teardown_testing s = (Ret (), (clear_objs (set ?C) ?s4)
      \<lparr>global_call_ordering_head := [], global_last_call_ordering_location := initialize_source_location\<rparr>)"
    by (simp only: teardown_testing_def readM_apply seqM_def bindM_apply modM_apply fr 1 2 3 prod.case outcome.case)
  also have "(clear_objs (set ?C) ?s4)
      \<lparr>global_call_ordering_head := [], global_last_call_ordering_location := initialize_source_location\<rparr> = torn_down s"
    unfolding torn_down_def clear_objs_def owned_def
    by (auto simp: fun_eq_iff intro!: cm_state.equality)
  finally show ?thesis .
qed

lemma torn_down_inv: "mock_inv s \<Longrightarrow> mock_inv (torn_down s)" "owned (torn_down s) = []"
  by (auto simp: mock_inv_def torn_down_def owned_def kinds_ok_def counts_ok_def wf_map.simps numeral_2_eq_2)

lemma initialize_testing_inv:
  "(\<forall>p. heap_objs s p \<noteq> None \<longrightarrow> p < next_obj s) \<Longrightarrow> mock_inv (snd (initialize_testing s))"
  by (simp add: initialize_testing_def mock_inv_def owned_def kinds_ok_def counts_ok_def wf_map.simps numeral_2_eq_2)

section \<open>A call with another type name\<close>

lemma mock_mismatch_run:
  assumes inv: "mock_inv s" and q: "queue_at (global_function_result_map_head s) [f] = (r, p) # q"
    and sv: "heap_objs s p = Some (Obj_symbol sv)" and ty: "type_mismatch name sv"
  shows "\<exists>m u. queue_step 1 (global_function_result_map_head s) [f] r p m
    \<and> msg_frame (s\<lparr>global_function_result_map_head := m\<rparr>) u
    \<and> msg_frame (clear_objs {p} u) (snd (cm_mock f fl ln name s))
    \<and> fst (cm_mock f fl ln name s) = failure_outcome s"
proof -
  obtain m where m: "r \<noteq> 0" "queue_step 1 (global_function_result_map_head s) [f] r p m"
    "get_result_value f s = (Ret (r, Some p), s\<lparr>global_function_result_map_head := m\<rparr>)"
    using result_cases [OF inv, of f] q by auto
  let ?s1 = "s\<lparr>global_function_result_map_head := m\<rparr>"
  let ?say = "say_type_mismatch f fl ln name sv"
  have "returnsM ?say" unfolding say_type_mismatch_def by (intro cm_mono)
  then obtain u where u: "?say ?s1 = (Ret (), u)" "msg_frame ?s1 u" using returnsM_run [of ?say ?s1] by auto
  let ?u = "clear_objs {p} u"
  have hu: "heap_objs u p = Some (Obj_symbol sv)" using sv msg_frame_fields(5) [OF u(2)] by simp
  then have fr: "free_object p u = (Ret (), ?u)" by (simp add: free_object_def clear_objs_def fun_upd_def)
  have ex: "exit_test True ?u = (failure_outcome ?u, snd (exit_test True ?u))"
    using failsM_outcome [OF failsM_exit_test, of ?u] by (metis prod.collapse)
  let ?rest = "seqM (modM (\<lambda>s. s\<lparr>global_last_mock_value_location := sv_location sv\<rparr>))
        (seqM (whenM (r = 1) (free_object p)) (retM (sv_value sv)))"
  have "cm_mock f fl ln name s = seqM (seqM ?say (seqM (free_object p) (exit_test True))) ?rest ?s1"
    using m(1,3) sv ty by (simp add: cm_mock_def bindM_apply seqM_apply load_symbol_def)
  also have "\<dots> = seqM (exit_test True) ?rest ?u"
    using u(1) fr by (simp add: seqM_apply bindM_apply)
  also have "\<dots> = (failure_outcome ?u, snd (exit_test True ?u))"
    by (subst seqM_apply, subst bindM_apply, subst ex) (simp add: failure_outcome_def)
  finally have run: "cm_mock f fl ln name s = (failure_outcome ?u, snd (exit_test True ?u))" .
  have "failure_outcome ?u = (failure_outcome u :: CMockaValueData outcome)" "failure_outcome u = (failure_outcome ?s1 :: CMockaValueData outcome)"
    "failure_outcome ?s1 = (failure_outcome s :: CMockaValueData outcome)"
    using failure_outcome_frame [OF u(2)] by (simp_all add: failure_outcome_def test_abort_def clear_objs_def)
  moreover have "msg_frame ?u (snd (exit_test True ?u))" using framesM_exit_test by (simp add: framesM_def)
  ultimately show ?thesis using m(2) u(2) run by (intro exI [of _ m] exI [of _ u]) simp
qed

text \<open>
  The calls of \<^verbatim>\<open>_mock\<close> that keep the invariant: the types agree, or the value of the
  other type leaves the queue with this call.
\<close>

definition mock_call_safe :: "cm_state \<Rightarrow> string \<Rightarrow> string option \<Rightarrow> bool" where
  "mock_call_safe s f name \<longleftrightarrow> types_agree s f name
     \<or> (case queue_at (global_function_result_map_head s) [f] of [] \<Rightarrow> True | (r, p) # q \<Rightarrow> r = 1)"

lemma mismatch_dangles:
  assumes inv: "mock_inv s" and q: "queue_at (global_function_result_map_head s) [f] = (r, p) # q"
    and sv: "heap_objs s p = Some (Obj_symbol sv)" and ty: "type_mismatch name sv" and r: "r \<noteq> 1"
  shows "p \<in> set (leaves (global_function_result_map_head (snd (cm_mock f fl ln name s))))"
    "heap_objs (snd (cm_mock f fl ln name s)) p = None"
    "wf_map 1 (global_function_result_map_head (snd (cm_mock f fl ln name s)))"
proof -
  obtain m u where m: "queue_step 1 (global_function_result_map_head s) [f] r p m"
    "msg_frame (s\<lparr>global_function_result_map_head := m\<rparr>) u" "msg_frame (clear_objs {p} u) (snd (cm_mock f fl ln name s))"
    using mock_mismatch_run [OF inv q sv ty, of fl ln] by blast
  have g: "global_function_result_map_head (snd (cm_mock f fl ln name s)) = m"
    using msg_frame_fields(6) [OF m(2)] msg_frame_fields(6) [OF m(3)] by simp
  have "mset (leaves (global_function_result_map_head s)) = mset (leaves m)"
    using m(1) r by (simp add: queue_step_def)
  then show "p \<in> set (leaves (global_function_result_map_head (snd (cm_mock f fl ln name s))))"
    unfolding g using m(1) by (metis queue_step_def set_mset_mset)
  show "heap_objs (snd (cm_mock f fl ln name s)) p = None"
    using msg_frame_fields(5) [OF m(3)] by simp
  show "wf_map 1 (global_function_result_map_head (snd (cm_mock f fl ln name s)))"
    unfolding g using m(1) by (simp add: queue_step_def)
qed

lemma held_mock_safe:
  assumes inv: "held_inv H s" and safe: "mock_call_safe s f name"
  shows "held_inv H (snd (cm_mock f fl ln name s))"
proof (cases "types_agree s f name")
  case True
  then show ?thesis by (rule held_mock [OF inv])
next
  case False
  then obtain p q sv where q: "queue_at (global_function_result_map_head s) [f] = (1, p) # q"
      "heap_objs s p = Some (Obj_symbol sv)" "type_mismatch name sv"
    using safe by (auto simp: mock_call_safe_def types_agree_def split: list.splits option.splits heap_obj.splits)
  have mi: "mock_inv s" using inv by (simp add: held_inv_def)
  obtain m u where m: "queue_step 1 (global_function_result_map_head s) [f] 1 p m"
    "msg_frame (s\<lparr>global_function_result_map_head := m\<rparr>) u" "msg_frame (clear_objs {p} u) (snd (cm_mock f fl ln name s))"
    using mock_mismatch_run [OF mi q, of fl ln] by blast
  have "held_inv (H \<union> {p}) u" using held_after_result [OF inv q(1) m(1)] mocks.blind [OF m(2)] by simp
  from held_clear [OF this, of "{p}"] have "held_inv (H \<union> {p}) (clear_objs {p} u)" by simp
  then have "held_inv H (clear_objs {p} u)" by (rule held_inv_mono) blast
  then show ?thesis by (rule mocks.blind [OF m(3)])
qed

lemma mock_safe_iff:
  assumes "mock_inv s"
  shows "mock_inv (snd (cm_mock f fl ln name s)) \<longleftrightarrow> mock_call_safe s f name"
proof
  show "mock_inv (snd (cm_mock f fl ln name s))" if "mock_call_safe s f name"
    using held_mock_safe [of "{}", OF _ that] assms by simp
  show "mock_call_safe s f name" if "mock_inv (snd (cm_mock f fl ln name s))"
  proof (rule ccontr)
    assume "\<not> mock_call_safe s f name"
    then obtain r p q sv where q: "queue_at (global_function_result_map_head s) [f] = (r, p) # q"
        "heap_objs s p = Some (Obj_symbol sv)" "type_mismatch name sv" "r \<noteq> 1"
      by (auto simp: mock_call_safe_def types_agree_def split: list.splits option.splits heap_obj.splits)
    note d = mismatch_dangles [OF assms q, of fl ln]
    then show False using held_inv_live [of "{}" "snd (cm_mock f fl ln name s)" p] that by (simp add: owned_def)
  qed
qed

section \<open>The interface as a state machine\<close>

text \<open>
  A test is any sequence of calls of the interface; the calls that do not return end it, with
  the state they leave. A call of \<^verbatim>\<open>_mock\<close> with any type name is a step, unless it asks for
  a value of another type that stays in the queue: these calls, which leave a released value queued, are the
  subject of \<open>type_mismatch_double_free\<close> below.
\<close>

inductive mock_step :: "user_checks \<Rightarrow> cm_state \<Rightarrow> cm_state \<Rightarrow> bool" for uc where
  step_initialize: "mock_step uc s (snd (initialize_testing s))"
| step_will_return: "mock_step uc s (snd (cm_will_return f fl ln name v cnt s))"
| step_mock: "mock_call_safe s f name \<Longrightarrow> mock_step uc s (snd (cm_mock f fl ln name s))"
| step_expect_check: "mock_step uc s (snd (cm_expect_check f a fl ln cf d None cnt s))"
| step_expect_set: "mock_step uc s (snd (expect_set_with al f a fl ln vals cf cnt s))"
| step_expect_range: "mock_step uc s (snd (expect_range f a fl ln mn mx cf cnt s))"
| step_expect_memory: "mock_step uc s (snd (expect_memory_setup f a fl ln mem sz cf cnt s))"
| step_check_expected: "mock_step uc s (snd (cm_check_expected uc f a fl ln v s))"
| step_expect_call: "mock_step uc s (snd (cm_expect_function_call f fl ln cnt s))"
| step_function_called: "mock_step uc s (snd (cm_function_called f fl ln s))"
| step_assertion: "mock_step uc s (snd (run_assertion se a fl ln s))"
| step_leftover: "mock_step uc s (snd (fail_if_leftover_values s))"
| step_teardown: "mock_step uc s (snd (teardown_testing s))"

lemma framesM_assertion: "framesM (run_assertion se a fl ln)"
proof (rule framesMI)
  fix s
  have c: "asserted a s = None \<Longrightarrow> run_assertion se a fl ln s = (Undefined, s)"
    "asserted a s = Some True \<Longrightarrow> run_assertion se a fl ln s = (Ret (), s)"
    "asserted a s = Some False \<Longrightarrow> \<exists>x f. x \<noteq> [] \<and> failsM f \<and> run_assertion se a fl ln s = f (said s x)"
    using run_assertion_asserts [of a se fl ln, unfolded assertsM_def, rule_format, of s] by blast+
  show "msg_frame s (snd (run_assertion se a fl ln s))"
  proof (cases "asserted a s")
    case (Some b)
    show ?thesis
    proof (cases b)
      case False
      then have "asserted a s = Some False" using Some by simp
      from c(3) [OF this] obtain x f where f: "failsM f" "run_assertion se a fl ln s = f (said s x)" by blast
      have "msg_frame (said s x) (snd (f (said s x)))"
        using failsM_framesM [OF f(1)] by (simp add: framesM_def)
      then show ?thesis unfolding f(2) by (rule msg_frame_trans [OF said_frame])
    qed (use c(2) Some in simp)
  qed (use c(1) in simp)
qed

lemma mock_step_inv:
  assumes "mock_step uc s t" and "mock_inv s" and uc: "\<And>H n v w. keepsM (held_inv H) (uc n v w)"
  shows "mock_inv t"
proof -
  have s: "held_inv {} s" using assms(2) by simp
  have "held_inv {} t"
    using assms(1)
  proof cases
    case step_initialize
    then show ?thesis using initialize_testing_inv assms(2) by (simp add: mock_inv_def)
  next
    case (step_mock f name fl ln)
    then show ?thesis using held_mock_safe [OF s] by blast
  next
    case step_leftover
    then show ?thesis using fail_if_leftover_run(2) [OF s] by simp
  next
    case step_teardown
    then show ?thesis using torn_down_inv(1) [OF assms(2)] teardown_run [OF assms(2)] by simp
  next
    case (step_check_expected f a fl ln v)
    show ?thesis unfolding step_check_expected by (rule keepsMD [OF keeps_check_expected [where uc = uc, OF uc] s])
  next
    case (step_assertion se a fl ln)
    show ?thesis unfolding step_assertion by (rule keepsMD [OF mocks.keeps_framed [OF framesM_assertion] s])
  next
    case step_will_return
    show ?thesis unfolding step_will_return by (rule keepsMD [OF keeps_will_return s])
  next
    case step_expect_check
    show ?thesis unfolding step_expect_check by (rule keepsMD [OF keeps_expect_check s])
  next
    case step_expect_set
    show ?thesis unfolding step_expect_set by (rule keepsMD [OF keeps_expect_set_with s])
  next
    case step_expect_range
    show ?thesis unfolding step_expect_range by (rule keepsMD [OF keeps_expect_range s])
  next
    case step_expect_memory
    show ?thesis unfolding step_expect_memory by (rule keepsMD [OF keeps_expect_memory_setup s])
  next
    case step_expect_call
    show ?thesis unfolding step_expect_call by (rule keepsMD [OF keeps_expect_function_call s])
  next
    case step_function_called
    show ?thesis unfolding step_function_called by (rule keepsMD [OF keeps_function_called s])
  qed
  then show ?thesis by simp
qed

section \<open>Properties\<close>

definition sample_state :: cm_state where
  "sample_state = (initial_state (\<lambda>_. None) (\<lambda>_. ''0x0'') (\<lambda>_. 4096) (\<lambda>_. 0) (\<lambda>_ _. 0) Map.empty)
     \<lparr>global_running_test := True\<rparr>"

lemma sample_sel [simp]:
  "global_function_result_map_head sample_state = []" "global_function_parameter_map_head sample_state = []"
  "global_call_ordering_head sample_state = []" "heap_objs sample_state = Map.empty"
  "next_obj sample_state = 0" "global_running_test sample_state" "\<not> global_skip_test sample_state"
  "env_vars sample_state = (\<lambda>_. None)" "\<not> global_expecting_assert sample_state"
  by (simp_all add: sample_state_def initial_state_def)

lemma sample_inv: "mock_inv sample_state"
  by (simp add: mock_inv_def owned_def kinds_ok_def counts_ok_def wf_map.simps numeral_2_eq_2)

lemma sample_queue: "result_queue sample_state f = []"
  by (simp add: result_queue_def)

text \<open>
  C1. Return values come back in the order they were queued: after \<^verbatim>\<open>will_return\<close> for each
  of the values \<open>vs\<close>, that many calls of \<^verbatim>\<open>mock()\<close> in the function return exactly \<open>vs\<close>,
  the queue is empty again and the queues of all other functions are as before.
\<close>

theorem mock_returns_in_order:
  assumes "mock_inv s" and "result_queue s f = []"
  shows "\<exists>t. fetch_many (mock_st fl' ln') (add_once (will_return_st fl ln) s f vs) f (length vs) = Some (vs, t)
    \<and> mock_inv t \<and> result_queue t f = [] \<and> (\<forall>g. g \<noteq> f \<longrightarrow> result_queue t g = result_queue s g)"
  using mock_values.fifo_round_trip [OF assms(1) _ assms(2), of fl' ln' fl ln vs] by simp

theorem mock_returns_in_order_witness:
  "\<exists>t. fetch_many (mock_st ''m.c'' 7) (add_once (will_return_st ''t.c'' 3) sample_state ''f'' [5, 6]) ''f'' 2
      = Some ([5, 6], t) \<and> result_queue t ''f'' = []"
proof -
  have "length [5 :: 64 word, 6] = 2" by simp
  from mock_returns_in_order [OF sample_inv sample_queue, of "''m.c''" 7 "''t.c''" 3 "''f''" "[5, 6]", unfolded this]
  show ?thesis by blast
qed

text \<open>
  \<^verbatim>\<open>will_return_always\<close> (count -1) and \<^verbatim>\<open>will_return_maybe\<close> (count -2): once such a
  value is at the front of the queue, every call of \<^verbatim>\<open>mock()\<close> returns it, however often
  it is called, and the values queued behind it are never reached.
\<close>

lemma mock_returns_always:
  assumes "mock_inv s" and "result_queue s f = (r, v) # q" and "r \<le> -1"
  shows "\<exists>t. fetch_many (mock_st fl ln) s f n = Some (replicate n v, t) \<and> mock_inv t
    \<and> result_queue t f = (if n = 0 then r else min r (-2), v) # q"
proof -
  have "r = -1 \<or> r < -1" using assms(3) by linarith
  from mock_values.fetch_always [OF assms(1) TrueI assms(2) this, of fl ln n]
  obtain t where t: "fetch_many (mock_st fl ln) s f n = Some (replicate n v, t)" "mock_inv t"
    "result_queue t f = (if n = 0 \<or> r < -1 then (r, v) else (-2, v)) # q" by blast
  then have "result_queue t f = (if n = 0 then r else min r (-2), v) # q" using assms(3) by (auto simp: min_def)
  then show ?thesis using t(1,2) by blast
qed

lemma mock_returns_always_example:
  "\<exists>t. fetch_many (mock_st ''m.c'' 7) (will_return_st ''t.c'' 3 sample_state ''f'' 9 (-1)) ''f'' 4
      = Some ([9, 9, 9, 9], t)"
proof -
  have "mock_inv (will_return_st ''t.c'' 3 sample_state ''f'' 9 (-1))"
    using mock_values.add_wf [OF sample_inv] by simp
  moreover have "result_queue (will_return_st ''t.c'' 3 sample_state ''f'' 9 (-1)) ''f'' = (-1, 9) # []"
    by (simp add: will_return_queue [OF sample_inv] sample_queue)
  ultimately show ?thesis
    using mock_returns_always [of _ "''f''" "-1" 9 "[]" "''m.c''" 7 4] by (auto simp: numeral_eq_Suc)
qed

text \<open>
  A value queued with a positive count is returned exactly that many times; then the next
  one is at the front.
\<close>

lemma mock_returns_counted:
  assumes "mock_inv s" and "result_queue s f = (int (Suc n), v) # q"
  shows "\<exists>t. fetch_many (mock_st fl ln) s f (Suc n) = Some (replicate (Suc n) v, t)
    \<and> mock_inv t \<and> result_queue t f = q"
  using mock_values.fetch_counted [OF assms(1) _ assms(2)] by simp

lemma mock_returns_counted_example:
  "\<exists>t. fetch_many (mock_st ''m.c'' 7) (will_return_st ''t.c'' 3 sample_state ''f'' 9 2) ''f'' 2
      = Some ([9, 9], t) \<and> result_queue t ''f'' = []"
proof -
  have "mock_inv (will_return_st ''t.c'' 3 sample_state ''f'' 9 2)"
    using mock_values.add_wf [OF sample_inv] by simp
  moreover have "result_queue (will_return_st ''t.c'' 3 sample_state ''f'' 9 2) ''f'' = (int (Suc 1), 9) # []"
    by (simp add: will_return_queue [OF sample_inv] sample_queue)
  ultimately show ?thesis
    using mock_returns_counted [of _ "''f''" 1 9 "[]" "''m.c''" 7] by (auto simp: numeral_eq_Suc)
qed

text \<open>
  A call of \<^verbatim>\<open>mock()\<close> with nothing queued for the function does not return: it leaves
  the test, and apart from messages the state is unchanged.
\<close>

lemma mock_without_value:
  assumes "mock_inv s" and "result_queue s f = []"
  shows "fst (cm_mock f fl ln name s) = failure_outcome s \<and> msg_frame s (snd (cm_mock f fl ln name s))"
  using mock_run_empty [OF assms(1)] assms(2) result_queue_Nil by blast

lemma mock_without_value_example:
  "fst (cm_mock ''f'' ''m.c'' 7 None sample_state) = Longjmp"
  using mock_without_value [OF sample_inv sample_queue, of "''f''" "''m.c''" 7 None]
  by (simp add: failure_outcome_def test_abort_def)

text \<open>
  C2. Ownership: from a state that satisfies the invariant, take any sequence of calls of the
  interface, with user check functions that respect the objects the library holds, and without
  calls of \<^verbatim>\<open>_mock\<close> for a value of another type that stays in the queue (a type mismatch on a value whose
  count is 1 is allowed). In every state this reaches, each object in the maps and in the call list is live, of the
  right kind and owned once. The exclusion is exact: from each of these states a call of \<^verbatim>\<open>_mock\<close>
  keeps the invariant if and only if it is not one of the excluded calls.
\<close>

theorem mock_objects_invariant:
  assumes "(mock_step uc)\<^sup>*\<^sup>* s t" and "mock_inv s" and "\<And>H n v w. keepsM (held_inv H) (uc n v w)"
  shows "mock_inv t \<and> (\<forall>f fl ln name. mock_inv (snd (cm_mock f fl ln name t)) \<longleftrightarrow> mock_call_safe t f name)"
proof -
  have "mock_inv t"
    using assms(1,2) by (induction rule: rtranclp_induct) (auto intro: mock_step_inv [OF _ _ assms(3)])
  then show ?thesis using mock_safe_iff by blast
qed

theorem mock_objects_invariant_witness:
  "mock_inv (snd (cm_mock ''f'' ''m.c'' 9 (Some ''uintmax_t'') (snd (cm_will_return ''f'' ''t.c'' 3 None 5 1 sample_state))))
   \<and> \<not> mock_inv (snd (cm_mock ''f'' ''m.c'' 9 (Some ''uintmax_t'') (snd (cm_will_return ''f'' ''t.c'' 3 None 5 2 sample_state))))"
proof -
  let ?uc = "\<lambda>n v w. retM 1" and ?s = "\<lambda>c. snd (cm_will_return ''f'' ''t.c'' 3 None 5 c sample_state)"
  have "(mock_step ?uc)\<^sup>*\<^sup>* sample_state (?s c)" for c
    by (rule r_into_rtranclp, rule step_will_return)
  then have m: "mock_inv (snd (cm_mock ''f'' ''m.c'' 9 (Some ''uintmax_t'') (?s c))) \<longleftrightarrow> mock_call_safe (?s c) ''f'' (Some ''uintmax_t'')" for c
    by (rule mock_objects_invariant [OF _ sample_inv keepsM_retM, THEN conjunct2, rule_format])
  show ?thesis
    unfolding m by (simp add: mock_call_safe_def types_agree_def type_mismatch_def will_return_run add_symbol_value.simps
        queue_at.simps children_of_def)
qed

text \<open>
  C3. \<^verbatim>\<open>teardown_testing\<close> releases every object that is still owned, each exactly once (a
  second release would be undefined), leaves all other objects alone, and leaves nothing
  owned.
\<close>

theorem teardown_releases_all:
  assumes "mock_inv s"
  shows "teardown_testing s = (Ret (), torn_down s) \<and> owned (torn_down s) = []
    \<and> heap_objs (torn_down s) = heap_objs s |` (- set (owned s))"
  using teardown_run [OF assms] torn_down_inv by (auto simp: torn_down_def restrict_map_def fun_eq_iff)

theorem teardown_releases_all_witness:
  "heap_objs (torn_down (snd (cm_will_return ''f'' ''t.c'' 3 None 5 1 sample_state))) 0 = None"
proof -
  let ?s = "snd (cm_will_return ''f'' ''t.c'' 3 None 5 1 sample_state)"
  have "mock_inv ?s" using keepsMD [OF keeps_will_return [of "{}"]] sample_inv by simp
  from teardown_releases_all [OF this] show ?thesis
    by (simp add: will_return_run owned_def add_symbol_value.simps restrict_map_def)
qed

text \<open>
  C4. The order of calls: \<^verbatim>\<open>_function_called\<close> refines the specification \<open>accept_call\<close>
  on the list of expected calls. It returns exactly when the specification accepts the call,
  and then the list is the one specified; otherwise it leaves the test with the list
  unchanged.
\<close>

theorem function_called_refines:
  assumes "mock_inv s"
  shows "case accept_call f (call_queue s) of
      Some q \<Rightarrow> \<exists>t. cm_function_called f fl ln s = (Ret (), t) \<and> mock_inv t \<and> call_queue t = q
    | None \<Rightarrow> fst (cm_function_called f fl ln s) = failure_outcome s
        \<and> call_queue (snd (cm_function_called f fl ln s)) = call_queue s"
proof (cases "accept_call f (call_queue s)")
  case None
  then have c: "fst (cm_function_called f fl ln s) = failure_outcome s"
    "msg_frame s (snd (cm_function_called f fl ln s))"
    using function_called_accepts [of "{}" s f fl ln] assms by simp_all
  then show ?thesis using None by (simp add: call_queue_def msg_frame_fields [OF c(2)])
next
  case (Some q)
  then show ?thesis using function_called_accepts [of "{}" s f fl ln] assms by simp
qed

theorem function_called_refines_witness:
  "\<exists>t. cm_function_called ''f'' ''m.c'' 7 (snd (cm_expect_function_call ''f'' ''t.c'' 3 1 sample_state))
      = (Ret (), t) \<and> call_queue t = []"
proof -
  let ?s = "snd (cm_expect_function_call ''f'' ''t.c'' 3 1 sample_state)"
  have "mock_inv ?s" using keepsMD [OF keeps_expect_function_call [of "{}"]] sample_inv by simp
  moreover have "accept_call ''f'' (call_queue ?s) = Some []"
    by (simp add: expect_function_call_run call_queue_def order_view_def order_name_def)
  ultimately show ?thesis using function_called_refines [of ?s "''f''" "''m.c''" 7] by auto
qed

text \<open>The calls of a sequence, up to the first that is not accepted.\<close>

fun call_all :: "string list \<Rightarrow> string \<Rightarrow> int \<Rightarrow> unit cm" where
  "call_all [] fl ln = retM ()"
| "call_all (f # fs) fl ln = seqM (cm_function_called f fl ln) (call_all fs fl ln)"

fun expect_all :: "string list \<Rightarrow> string \<Rightarrow> int \<Rightarrow> unit cm" where
  "expect_all [] fl ln = retM ()"
| "expect_all (f # fs) fl ln = seqM (cm_expect_function_call f fl ln 1) (expect_all fs fl ln)"

lemma expect_call_queue:
  assumes "mock_inv s" "cnt \<noteq> 0"
  shows "\<exists>t. cm_expect_function_call f fl ln cnt s = (Ret (), t) \<and> mock_inv t \<and> call_queue t = call_queue s @ [(cnt, f)]"
proof -
  let ?t = "snd (cm_expect_function_call f fl ln cnt s)"
  have "mock_inv ?t" using keepsMD [OF keeps_expect_function_call [of "{}"]] assms(1) by simp
  moreover have "snd e \<noteq> next_obj s" if "e \<in> set (global_call_ordering_head s)" for e
    using held_inv_live [of "{}" s "snd e"] assms(1) that by (force simp: owned_def mock_inv_def)
  then have "call_queue ?t = call_queue s @ [(cnt, f)]"
    using assms(2) by (force simp: expect_function_call_run call_queue_def order_view_def order_name_def)
  ultimately show ?thesis using expect_function_call_run [OF assms(2)] by simp
qed

lemma expect_all_queue:
  "mock_inv s \<Longrightarrow> \<exists>t. expect_all fs fl ln s = (Ret (), t) \<and> mock_inv t
     \<and> call_queue t = call_queue s @ map (\<lambda>f. (1, f)) fs"
proof (induction fs arbitrary: s)
  case (Cons f fs)
  obtain t where t: "cm_expect_function_call f fl ln 1 s = (Ret (), t)" "mock_inv t"
    "call_queue t = call_queue s @ [(1, f)]" using expect_call_queue [OF Cons.prems, of 1 f fl ln] by auto
  from Cons.IH [OF t(2)] obtain u where u: "expect_all fs fl ln t = (Ret (), u)" "mock_inv u"
    "call_queue u = call_queue t @ map (\<lambda>f. (1, f)) fs" by blast
  have "expect_all (f # fs) fl ln s = (Ret (), u)"
    unfolding expect_all.simps seqM_Ret [where m = "cm_expect_function_call f fl ln 1" and s = s, OF t(1)] by (rule u(1))
  then show ?case using u t(3) by simp
qed simp

text \<open>What decides how a test is left does not change while calls are counted.\<close>

lemma keeps_control_called: "keepsM (\<lambda>s. control s = c) (cm_function_called f fl ln)"
proof -
  have "keepsM (\<lambda>s. control s = c) (free_object p)" for p
    by (simp add: keepsM_def free_object_def control_def)
  moreover have "keepsM (\<lambda>s. control s = c) (modM (\<lambda>s. s\<lparr>global_call_ordering_head := q\<rparr>))" for q
    by (simp add: keepsM_def control_def)
  ultimately have "keepsM (\<lambda>s. control s = c) (count_call i)" for i
    unfolding count_call_def Let_def by (auto intro!: cm_mono split: prod.split)
  then show ?thesis
    unfolding cm_function_called_def
    by (auto intro!: keepsM_bindM keepsM_readM keepsM_if keepsM_seqM keepsM_throwM
        controls.keeps_print controls.keeps_exit split: scan_result.split)
qed

lemma failure_after_call: "cm_function_called f fl ln s = (Ret (), t) \<Longrightarrow> failure_outcome t = failure_outcome s"
proof -
  assume run: "cm_function_called f fl ln s = (Ret (), t)"
  have "control (snd (cm_function_called f fl ln s)) = control s"
    by (rule keepsMD [OF keeps_control_called]) (rule refl)
  then show ?thesis unfolding run snd_conv by (rule failure_outcome_control)
qed

lemma call_all_strict:
  "mock_inv s \<Longrightarrow> call_queue s = map (\<lambda>f. (1, f)) fs \<Longrightarrow>
   if \<exists>rest. fs = gs @ rest
   then \<exists>t. call_all gs fl ln s = (Ret (), t) \<and> mock_inv t \<and> call_queue t = map (\<lambda>f. (1, f)) (drop (length gs) fs)
   else fst (call_all gs fl ln s) = failure_outcome s"
proof (induction gs arbitrary: s fs)
  case (Cons g gs)
  show ?case
  proof (cases "accept_call g (call_queue s)")
    case None
    then have no: "\<not> (\<exists>rest. fs = (g # gs) @ rest)" using Cons.prems(2) by (cases fs) auto
    have "fst (cm_function_called g fl ln s) = failure_outcome s"
      using function_called_accepts [of "{}" s g fl ln] None Cons.prems(1) by simp
    then have "fst (call_all (g # gs) fl ln s) = failure_outcome s"
      by (cases "cm_function_called g fl ln s") (auto simp: seqM_apply bindM_apply failure_outcome_def)
    then show ?thesis using no by simp
  next
    case (Some q)
    then obtain fs' where fs: "fs = g # fs'" "q = map (\<lambda>f. (1, f)) fs'"
      using Cons.prems(2) by (cases fs) (auto split: if_splits)
    obtain t where t: "cm_function_called g fl ln s = (Ret (), t)" "mock_inv t" "call_queue t = q"
      using function_called_accepts [of "{}" s g fl ln] Some Cons.prems(1) by auto
    have run: "call_all (g # gs) fl ln s = call_all gs fl ln t" using t(1) by (simp add: seqM_apply bindM_apply)
    have "fst (call_all gs fl ln t) = failure_outcome s" if "\<not> (\<exists>rest. fs' = gs @ rest)"
      using Cons.IH [OF t(2), of fs'] t(3) fs that failure_after_call [OF t(1)] by simp
    then show ?thesis using Cons.IH [OF t(2), of fs'] t(3) fs run by (cases "\<exists>rest. fs' = gs @ rest") auto
  qed
qed simp

text \<open>
  C11. Strict order: after \<^verbatim>\<open>expect_function_call\<close> for each of \<open>fs\<close>, a sequence of calls
  \<open>gs\<close> runs to its end exactly when it is an initial part of \<open>fs\<close>, and the rest of \<open>fs\<close> is
  still expected. Any other sequence is stopped: control leaves the test.
\<close>

theorem calls_in_strict_order:
  assumes "mock_inv s" and "call_queue s = []"
  shows "\<exists>u. expect_all fs fl ln s = (Ret (), u) \<and>
    (if \<exists>rest. fs = gs @ rest
     then \<exists>t. call_all gs fl' ln' u = (Ret (), t) \<and> mock_inv t
        \<and> call_queue t = map (\<lambda>f. (1, f)) (drop (length gs) fs)
     else fst (call_all gs fl' ln' u) = failure_outcome u)"
proof -
  obtain u where u: "expect_all fs fl ln s = (Ret (), u)" "mock_inv u"
    "call_queue u = map (\<lambda>f. (1, f)) fs" using expect_all_queue [OF assms(1), of fs fl ln] assms(2) by auto
  show ?thesis using u(1) call_all_strict [OF u(2,3), of gs fl' ln'] by blast
qed

theorem calls_in_strict_order_witness:
  "\<exists>u. expect_all [''f'', ''g''] ''t.c'' 3 sample_state = (Ret (), u)
     \<and> fst (call_all [''g''] ''m.c'' 7 u) = failure_outcome u"
  using calls_in_strict_order [OF sample_inv, of "[''f'', ''g'']" "''t.c''" 3 "[''g'']" "''m.c''" 7]
  by (simp add: call_queue_def order_view_def)

text \<open>
  C10. Leftovers: at the end of a test, \<^verbatim>\<open>fail_if_leftover_values\<close> leaves the test exactly
  when some queue of return values or parameter checks still has an entry after the front
  entry with a count below -1 (if it has one) was dropped, or when an expected call with a
  count of -1 or more is left. It never reads or releases a dead object.
\<close>

theorem leftovers_fail_the_test:
  assumes "mock_inv s"
  shows "(if leftover s then fst (fail_if_leftover_values s) = failure_outcome (snd (has_leftover_values s))
     else fst (fail_if_leftover_values s) = Ret ()) \<and> mock_inv (snd (fail_if_leftover_values s))"
  using fail_if_leftover_run [of "{}" s] assms by simp_all

theorem leftovers_fail_the_test_witness:
  "fst (fail_if_leftover_values sample_state) = Ret ()"
proof -
  have "\<not> leftover sample_state" by (simp add: leftover_def)
  then show ?thesis using leftovers_fail_the_test [OF sample_inv] by simp
qed

section \<open>A value of another type\<close>

lemma free_dead:
  "p \<in> set ps \<Longrightarrow> heap_objs s p = None \<Longrightarrow> fst (forM ps free_object s) = Undefined"
  by (induction ps arbitrary: s) (auto simp: seqM_apply bindM_apply free_object_def)

text \<open>
  C37. A value queued under another type name (or under none, as \<^verbatim>\<open>will_return_count\<close> does)
  and asked for with a type name, as \<^verbatim>\<open>mock_uint()\<close> does: \<^verbatim>\<open>_mock\<close> releases the value and
  leaves the test, but when the count of the value is not 1 the value is still in the queue.
  \<^verbatim>\<open>teardown_testing\<close>, which the runner calls next, releases it a second time: undefined
  behaviour.
\<close>

theorem type_mismatch_double_free:
  assumes "mock_inv s" and "queue_at (global_function_result_map_head s) [f] = (r, p) # q"
    and "heap_objs s p = Some (Obj_symbol sv)" and "type_mismatch name sv" and "r \<noteq> 1"
  shows "fst (cm_mock f fl ln name s) = failure_outcome s
    \<and> fst (teardown_testing (snd (cm_mock f fl ln name s))) = Undefined"
proof -
  let ?t = "snd (cm_mock f fl ln name s)"
  note d = mismatch_dangles [OF assms, of fl ln]
  have "free_symbol_map 0 (global_function_result_map_head ?t) = leaves (global_function_result_map_head ?t)"
    using free_symbol_map_leaves [of 0] d(3) by simp
  then have "fst (forM (free_symbol_map 0 (global_function_result_map_head ?t)) free_object ?t) = Undefined"
    using d(1,2) free_dead by simp
  then have "fst (teardown_testing ?t) = Undefined"
    by (cases "forM (free_symbol_map 0 (global_function_result_map_head ?t)) free_object ?t")
       (simp add: teardown_testing_def seqM_apply bindM_apply)
  then show ?thesis using mock_mismatch_run [OF assms(1-4), of fl ln] by blast
qed

theorem type_mismatch_double_free_witness:
  "fst (teardown_testing (snd (cm_mock ''f'' ''m.c'' 7 (Some ''uintmax_t'')
     (snd (cm_will_return ''f'' ''t.c'' 3 None 5 2 sample_state))))) = Undefined"
proof -
  let ?s = "snd (cm_will_return ''f'' ''t.c'' 3 None 5 2 sample_state)"
  let ?sv = "\<lparr>sv_name = None, sv_location = set_source_location ''t.c'' 3, sv_value = 5\<rparr> :: SymbolValue"
  have "mock_inv ?s" using keepsMD [OF keeps_will_return [of "{}"]] sample_inv by simp
  moreover have "queue_at (global_function_result_map_head ?s) [''f''] = (2, 0) # []"
    by (simp add: will_return_run add_symbol_value.simps queue_at.simps children_of_def)
  moreover have "heap_objs ?s 0 = Some (Obj_symbol ?sv)" by (simp add: will_return_run)
  moreover have "type_mismatch (Some ''uintmax_t'') ?sv" by (simp add: type_mismatch_def)
  ultimately show ?thesis by (rule type_mismatch_double_free [THEN conjunct2]) simp
qed

section \<open>Checked parameters\<close>

text \<open>What each of the library's checks decides, over integers and the contents of memory.\<close>

fun check_relation :: "check_fn \<Rightarrow> CMockaValueData \<Rightarrow> check_data \<Rightarrow> cm_state \<Rightarrow> bool option" where
  "check_relation Check_int_in_set v (Data_set xs) s = Some (v \<in> set xs)"
| "check_relation Check_uint_in_set v (Data_set xs) s = Some (v \<in> set xs)"
| "check_relation Check_not_in_set v (Data_set xs) s = Some (v \<notin> set xs)"
| "check_relation Check_in_range v (Data_range mn mx) s = Some (mn \<le> v \<and> v \<le> mx)"
| "check_relation Check_not_in_range v (Data_range mn mx) s = Some (\<not> (mn \<le> v \<and> v \<le> mx))"
| "check_relation Check_value v (Data_value w) s = Some (v = w)"
| "check_relation Check_not_value v (Data_value w) s = Some (v \<noteq> w)"
| "check_relation Check_string v (Data_value w) s = both_strings (=) v w s"
| "check_relation Check_not_string v (Data_value w) s = both_strings (\<noteq>) v w s"
| "check_relation Check_memory v (Data_memory bs) s =
     map_option (\<lambda>x. x = bs) (bytes_at (memory s) v (length bs))"
| "check_relation Check_not_memory v (Data_memory bs) s =
     map_option (\<lambda>x. x \<noteq> bs) (bytes_at (memory s) v (length bs))"
| "check_relation Check_any v d s = Some True"
| "check_relation cf v d s = None"

definition decidesM :: "(cm_state \<Rightarrow> bool option) \<Rightarrow> int cm \<Rightarrow> bool" where
  "decidesM P m \<longleftrightarrow> (\<forall>s. (P s = None \<longrightarrow> m s = (Undefined, s)) \<and> (P s = Some True \<longrightarrow> m s = (Ret 1, s))
     \<and> (P s = Some False \<longrightarrow> (\<exists>x. x \<noteq> [] \<and> m s = (Ret 0, said s x))))"

lemma decidesMD:
  assumes "decidesM P m"
  shows "P s = None \<Longrightarrow> m s = (Undefined, s)" "P s = Some True \<Longrightarrow> m s = (Ret 1, s)"
    "P s = Some False \<Longrightarrow> \<exists>x. x \<noteq> [] \<and> m s = (Ret 0, said s x)"
  using assms unfolding decidesM_def by blast+

lemma decidesM_int_of_bool: "reportsM P m \<Longrightarrow> decidesM P (int_of_bool m)"
  unfolding decidesM_def
proof (intro allI conjI impI)
  fix s assume r: "reportsM P m"
  show "int_of_bool m s = (Undefined, s)" if n: "P s = None"
  proof -
    have "m s = (Undefined, s)" using r [unfolded reportsM_def] n by blast
    then show ?thesis by (simp add: int_of_bool_def bindM_apply)
  qed
  show "int_of_bool m s = (Ret 1, s)" if n: "P s = Some True"
  proof -
    have "m s = (Ret True, s)" using r [unfolded reportsM_def] n by blast
    then show ?thesis by (simp add: int_of_bool_def bindM_apply)
  qed
  show "\<exists>x. x \<noteq> [] \<and> int_of_bool m s = (Ret 0, said s x)" if n: "P s = Some False"
  proof -
    obtain x where "x \<noteq> []" "m s = (Ret False, said s x)" using r [unfolded reportsM_def] n by blast
    then have "x \<noteq> []" "int_of_bool m s = (Ret 0, said s x)" by (simp_all add: int_of_bool_def bindM_apply)
    then show ?thesis by blast
  qed
qed

lemma decidesM_Undefined: "decidesM (\<lambda>s. None) (throwM Undefined)"
  by (simp add: decidesM_def)

lemma decidesM_readM: "(\<And>v. decidesM P (f v)) \<Longrightarrow> decidesM P (bindM (readM g) f)"
  by (auto simp: decidesM_def)

lemma reportsM_bytes:
  assumes "\<And>x. length x = n \<Longrightarrow> reportsM (\<lambda>s. Some (R x)) (f x)"
  shows "reportsM (\<lambda>s. map_option R (bytes_at (memory s) a n)) (bindM (memory_at a n) f)"
  using assms unfolding reportsM_def memory_at_def
  by (auto simp: bindM_apply bytes_at_length split: option.splits)

lemma reports_value_not_in_set: "reportsM (\<lambda>s. Some (v \<notin> set xs)) (value_in_set_display_error v xs True)"
  using reports_set(3) [of True v xs] by simp

lemma run_check_decides:
  assumes "\<forall>n. cf \<noteq> Check_user n"
  shows "decidesM (check_relation cf v d) (run_check uc p cf v d)"
proof -
  have sets: "decidesM (check_relation cf v d) (run_check uc p cf v d)" if "cf \<in> {Check_int_in_set, Check_uint_in_set, Check_not_in_set}"
    using that by (cases d) (auto simp: check_defs check_relation.simps [abs_def]
        intro!: decidesM_int_of_bool decidesM_Undefined reports_in_set reports_value_not_in_set)
  have ranges: "decidesM (check_relation cf v d) (run_check uc p cf v d)" if "cf \<in> {Check_in_range, Check_not_in_range}"
    using that by (cases d) (auto simp only: run_check.simps check_defs check_relation.simps [abs_def] check_data.case insert_iff empty_iff
        intro!: decidesM_int_of_bool decidesM_Undefined reports)
  have vals: "decidesM (check_relation cf v d) (run_check uc p cf v d)"
    if "cf \<in> {Check_value, Check_not_value, Check_string, Check_not_string}"
    using that by (cases d) (auto simp only: run_check.simps check_defs check_relation.simps [abs_def] check_data.case insert_iff empty_iff
        intro!: decidesM_int_of_bool decidesM_Undefined reports)
  have mem: "decidesM (check_relation cf v d) (run_check uc p cf v d)"
    if "cf \<in> {Check_memory, Check_not_memory}"
    using that by (cases d) (auto simp only: run_check.simps check_defs check_relation.simps [abs_def] check_data.case insert_iff empty_iff
        intro!: decidesM_int_of_bool decidesM_Undefined decidesM_readM reportsM_bytes reports_memory_bytes)
  have any: "decidesM (check_relation Check_any v d) (run_check uc p Check_any v d)"
    by (cases d) (simp_all add: decidesM_def check_any_def)
  show ?thesis using assms sets ranges vals mem any by (cases cf) auto
qed

lemma check_relation_memory: "memory t = memory s \<Longrightarrow> check_relation cf v d t = check_relation cf v d s"
  by (induction cf v d s rule: check_relation.induct) (simp_all add: both_strings_def)

lemma check_expected_run:
  assumes inv: "mock_inv s" and q: "queue_at (global_function_parameter_map_head s) [f, a] = (r, p) # q"
    and r: "r \<noteq> 0" and ev: "heap_objs s p = Some (Obj_event ev)"
  shows "\<exists>m. queue_step 2 (global_function_parameter_map_head s) [f, a] r p m
    \<and> cm_check_expected uc f a fl ln v s =
       bindM (run_check uc p (ev_check_value ev) v (ev_check_value_data ev)) (\<lambda>ok.
         seqM (whenM (r = 1) (free_object p))
            (whenM (ok = 0) (check_failed f a fl ln)))
         (s\<lparr>global_function_parameter_map_head := m, global_last_parameter_location := ev_location ev\<rparr>)"
proof -
  obtain m where m: "queue_step 2 (global_function_parameter_map_head s) [f, a] r p m"
    "get_parameter_value f a s = (Ret (r, Some p), s\<lparr>global_function_parameter_map_head := m\<rparr>)"
    using parameter_cases [OF inv, of f a] q by auto
  let ?s1 = "s\<lparr>global_function_parameter_map_head := m\<rparr>"
  have load: "load_event (Some p) ?s1 = (Ret (p, ev), ?s1)" using ev by (simp add: load_event_def)
  show ?thesis
    unfolding cm_check_expected_def bindM_Ret [where m = "get_parameter_value f a" and s = s, OF m(2)]
      case_prod_conv if_P [OF r] bindM_Ret [where m = "load_event (Some p)" and s = ?s1, OF load]
      seqM_Ret [where m = "modM (\<lambda>s. s\<lparr>global_last_parameter_location := ev_location ev\<rparr>)", OF modM_apply]
    using m(1) by blast
qed

lemma check_expected_decides:
  assumes inv: "mock_inv s" and q: "queue_at (global_function_parameter_map_head s) [f, a] = (r, p) # q"
    and r: "r \<noteq> 0" and ev: "heap_objs s p = Some (Obj_event ev)" and lib: "\<forall>n. ev_check_value ev \<noteq> Check_user n"
  shows "case check_relation (ev_check_value ev) v (ev_check_value_data ev) s of
      None \<Rightarrow> fst (cm_check_expected uc f a fl ln v s) = Undefined
    | Some True \<Rightarrow> \<exists>t. cm_check_expected uc f a fl ln v s = (Ret (), t)
        \<and> queue_at (global_function_parameter_map_head t) [f, a] = pop_entry ((r, p) # q)
    | Some False \<Rightarrow> fst (cm_check_expected uc f a fl ln v s) = failure_outcome s"
proof -
  obtain m where m: "queue_step 2 (global_function_parameter_map_head s) [f, a] r p m"
    and run: "cm_check_expected uc f a fl ln v s =
       bindM (run_check uc p (ev_check_value ev) v (ev_check_value_data ev)) (\<lambda>ok.
         seqM (whenM (r = 1) (free_object p))
            (whenM (ok = 0) (check_failed f a fl ln)))
         (s\<lparr>global_function_parameter_map_head := m, global_last_parameter_location := ev_location ev\<rparr>)"
    using check_expected_run [OF inv q r ev, where uc = uc and fl = fl and ln = ln and v = v] by blast
  let ?u = "s\<lparr>global_function_parameter_map_head := m, global_last_parameter_location := ev_location ev\<rparr>"
  let ?c = "run_check uc p (ev_check_value ev) v (ev_check_value_data ev)"
  let ?fail = "check_failed f a fl ln"
  let ?rel = "check_relation (ev_check_value ev) v (ev_check_value_data ev)"
  have rel: "?rel ?u = ?rel s" by (rule check_relation_memory) simp
  note dec = decidesMD [OF run_check_decides [OF lib, of v "ev_check_value_data ev" uc p], of ?u, unfolded rel]
  have pq: "queue_at m [f, a] = pop_entry ((r, p) # q)" using m q by (simp add: queue_step_def)
  have fr: "\<exists>t. whenM (r = 1) (free_object p) w = (Ret (), t) \<and> control t = control w
      \<and> global_function_parameter_map_head t = global_function_parameter_map_head w"
    if "heap_objs w p \<noteq> None" for w using that by (auto simp: free_object_def control_def)
  show ?thesis
  proof (cases "?rel s")
    case None
    have "cm_check_expected uc f a fl ln v s = (Undefined, ?u)"
      unfolding run by (simp only: bindM_apply dec(1) [OF None] prod.case outcome.case)
    then show ?thesis by (simp only: None option.case fst_conv)
  next
    case (Some b)
    show ?thesis
    proof (cases b)
      case True
      then have rt: "?rel s = Some True" using Some by simp
      obtain t where t: "whenM (r = 1) (free_object p) ?u = (Ret (), t)"
        "global_function_parameter_map_head t = m" using fr [of ?u] ev by auto
      have "cm_check_expected uc f a fl ln v s = (Ret (), t)"
        unfolding run bindM_Ret [where m = ?c and s = ?u, OF dec(2) [OF rt]]
          seqM_Ret [where m = "whenM (r = 1) (free_object p)", OF t(1)] by (simp only: whenM_def one_neq_zero if_False retM_apply)
      then have "\<exists>t. cm_check_expected uc f a fl ln v s = (Ret (), t)
          \<and> queue_at (global_function_parameter_map_head t) [f, a] = pop_entry ((r, p) # q)"
        using t(2) pq by blast
      then show ?thesis by (simp only: rt option.case bool.case)
    next
      case False
      then have "?rel s = Some False" using Some by simp
      from dec(3) [OF this] obtain x where c: "?c ?u = (Ret 0, said ?u x)" by blast
      obtain t where t: "whenM (r = 1) (free_object p) (said ?u x) = (Ret (), t)" "control t = control (said ?u x)"
        using fr [of "said ?u x"] ev by (auto simp: said_def)
      have "control t = control s" using t(2) by (simp add: control_def said_def)
      then have "fst (?fail t) = failure_outcome s"
        unfolding failsM_outcome [OF failsM_check_failed] by (rule failure_outcome_control)
      moreover have "cm_check_expected uc f a fl ln v s = ?fail t"
        unfolding run bindM_Ret [where m = ?c and s = ?u, OF c]
          seqM_Ret [where m = "whenM (r = 1) (free_object p)", OF t(1)] by (simp only: whenM_def refl if_True)
      ultimately show ?thesis by (simp only: \<open>?rel s = Some False\<close> option.case bool.case)
    qed
  qed
qed

text \<open>
  C5. Contract of \<^verbatim>\<open>check_expected\<close> for the library's own checks: with an event at the
  front of the parameter's queue, the call returns exactly when the relation the event stands
  for holds of the value, and the queue is advanced by the rule of the reference counts;
  otherwise it leaves the test. Sets, ranges, values, strings and memory areas are covered.
\<close>

theorem check_expected_contract:
  assumes inv: "mock_inv s" and q: "queue_at (global_function_parameter_map_head s) [f, a] = (r, p) # q"
    and r: "r \<noteq> 0" and ev: "heap_objs s p = Some (Obj_event ev)" and lib: "\<forall>n. ev_check_value ev \<noteq> Check_user n"
  shows "case check_relation (ev_check_value ev) v (ev_check_value_data ev) s of
      None \<Rightarrow> fst (cm_check_expected uc f a fl ln v s) = Undefined
    | Some True \<Rightarrow> \<exists>t. cm_check_expected uc f a fl ln v s = (Ret (), t)
        \<and> queue_at (global_function_parameter_map_head t) [f, a] = pop_entry ((r, p) # q)
    | Some False \<Rightarrow> fst (cm_check_expected uc f a fl ln v s) = failure_outcome s"
  by (rule check_expected_decides [OF assms])

theorem check_expected_contract_witness:
  "fst (cm_check_expected (\<lambda>_ _ _. retM 1) ''f'' ''x'' ''m.c'' 7 4
     (snd (cm_expect_value ''f'' ''x'' ''t.c'' 3 5 1 sample_state))) = Longjmp"
proof -
  let ?s = "snd (cm_expect_value ''f'' ''x'' ''t.c'' 3 5 1 sample_state)"
  let ?ev = "\<lparr>ev_location = set_source_location ''t.c'' 3, ev_parameter_name = ''x'',
               ev_check_value = Check_value, ev_check_value_data = Data_value 5\<rparr>"
  have inv: "mock_inv ?s" using keepsMD [OF keeps_expect(6) [of "{}"]] sample_inv by simp
  have s: "?s = sample_state\<lparr>heap_objs := [0 \<mapsto> Obj_event ?ev], next_obj := 1,
      global_function_parameter_map_head := [Map_node ''f'' [Map_node ''x'' [Value_node 1 0]]]\<rparr>"
    by (simp add: cm_expect_value_def cm_expect_check_def new_event_def new_object_def run_simps add_symbol_value.simps)
  have "queue_at (global_function_parameter_map_head ?s) [''f'', ''x''] = (1, 0) # []"
    by (simp add: s queue_at.simps children_of_def)
  from check_expected_contract [OF inv this, where ev = ?ev and v = 4 and uc = "\<lambda>_ _ _. retM 1" and fl = "''m.c''" and ln = 7] show ?thesis
    by (simp add: s failure_outcome_def test_abort_def)
qed

end
