(* ===== verification/Mock_Macros.thy ===== *)
theory Mock_Macros
  imports Mock_Lifecycle
begin

text \<open>
  The macros of \<^verbatim>\<open>include/cmocka.h\<close> with which a test queues return values, parameter
  checks and expected calls, and with which a mock function takes them. They fix the count,
  the type name and the representation of the value; \<^verbatim>\<open>__FILE__\<close>, \<^verbatim>\<open>__LINE__\<close>
  and \<^verbatim>\<open>__func__\<close> are arguments here. An integer argument is the value of the C expression, a pointer its
  address, a floating-point number its bits.
\<close>

section \<open>Values as 64 bits\<close>

definition cast_int_to_cmocka_value :: "int \<Rightarrow> CMockaValueData" where
  "cast_int_to_cmocka_value v = word_of_int v"

definition cast_ptr_to_cmocka_value :: "addr \<Rightarrow> CMockaValueData" where
  "cast_ptr_to_cmocka_value p = p"

definition assign_int_to_cmocka_value :: "int \<Rightarrow> CMockaValueData" where
  "assign_int_to_cmocka_value v = word_of_int v"

definition assign_uint_to_cmocka_value :: "int \<Rightarrow> CMockaValueData" where
  "assign_uint_to_cmocka_value v = word_of_int v"

definition assign_double_to_cmocka_value :: "double \<Rightarrow> CMockaValueData" where
  "assign_double_to_cmocka_value d = d"

definition cast_to_uintmax_type :: "int \<Rightarrow> uintmax" where
  "cast_to_uintmax_type v = word_of_int v"

section \<open>Taking a value\<close>

definition mock :: "string \<Rightarrow> string \<Rightarrow> int \<Rightarrow> int cm" where
  "mock func fl ln = bindM (cm_mock func fl ln None) (\<lambda>v. retM (uint v))"

text \<open>The conversion to the type is an argument.\<close>

definition mock_type :: "(int \<Rightarrow> 'a) \<Rightarrow> string \<Rightarrow> string \<Rightarrow> int \<Rightarrow> 'a cm" where
  "mock_type conversion func fl ln = bindM (mock func fl ln) (\<lambda>v. retM (conversion v))"

definition mock_int :: "string \<Rightarrow> string \<Rightarrow> int \<Rightarrow> int cm" where
  "mock_int func fl ln = bindM (cm_mock func fl ln None) (\<lambda>v. retM (sint v))"

definition mock_uint :: "string \<Rightarrow> string \<Rightarrow> int \<Rightarrow> int cm" where
  "mock_uint func fl ln = bindM (cm_mock func fl ln (Some ''uintmax_t'')) (\<lambda>v. retM (uint v))"

definition mock_float :: "string \<Rightarrow> string \<Rightarrow> int \<Rightarrow> double cm" where
  "mock_float func fl ln = cm_mock func fl ln None"

definition mock_ptr_type :: "string \<Rightarrow> string \<Rightarrow> string \<Rightarrow> int \<Rightarrow> addr cm" where
  "mock_ptr_type type func fl ln = cm_mock func fl ln (Some type)"

section \<open>Queueing a value\<close>

definition will_return :: "string \<Rightarrow> int \<Rightarrow> string \<Rightarrow> int \<Rightarrow> unit cm" where
  "will_return function v fl ln = cm_will_return function fl ln None (cast_int_to_cmocka_value v) 1"

definition will_return_int :: "string \<Rightarrow> int \<Rightarrow> string \<Rightarrow> int \<Rightarrow> unit cm" where
  "will_return_int function v fl ln = cm_will_return function fl ln (Some ''intmax_t'') (assign_int_to_cmocka_value v) 1"

definition will_return_uint :: "string \<Rightarrow> int \<Rightarrow> string \<Rightarrow> int \<Rightarrow> unit cm" where
  "will_return_uint function v fl ln = cm_will_return function fl ln (Some ''uintmax_t'') (assign_uint_to_cmocka_value v) 1"

definition will_return_float :: "string \<Rightarrow> double \<Rightarrow> string \<Rightarrow> int \<Rightarrow> unit cm" where
  "will_return_float function v fl ln = cm_will_return function fl ln (Some ''float'') (assign_double_to_cmocka_value v) 1"

definition will_return_count :: "string \<Rightarrow> int \<Rightarrow> int \<Rightarrow> string \<Rightarrow> int \<Rightarrow> unit cm" where
  "will_return_count function v cnt fl ln = cm_will_return function fl ln None (cast_int_to_cmocka_value v) cnt"

definition will_return_always :: "string \<Rightarrow> int \<Rightarrow> string \<Rightarrow> int \<Rightarrow> unit cm" where
  "will_return_always function v fl ln = will_return_count function v WILL_RETURN_ALWAYS fl ln"

definition will_return_maybe :: "string \<Rightarrow> int \<Rightarrow> string \<Rightarrow> int \<Rightarrow> unit cm" where
  "will_return_maybe function v fl ln = will_return_count function v WILL_RETURN_ONCE fl ln"

definition will_return_ptr :: "string \<Rightarrow> addr \<Rightarrow> string \<Rightarrow> int \<Rightarrow> unit cm" where
  "will_return_ptr function p fl ln = cm_will_return function fl ln None (cast_ptr_to_cmocka_value p) 1"

definition will_return_ptr_type :: "string \<Rightarrow> addr \<Rightarrow> string \<Rightarrow> string \<Rightarrow> int \<Rightarrow> unit cm" where
  "will_return_ptr_type function p type fl ln = cm_will_return function fl ln (Some type) (cast_ptr_to_cmocka_value p) 1"

definition will_return_ptr_count :: "string \<Rightarrow> addr \<Rightarrow> int \<Rightarrow> string \<Rightarrow> int \<Rightarrow> unit cm" where
  "will_return_ptr_count function p cnt fl ln = cm_will_return function fl ln None (cast_ptr_to_cmocka_value p) cnt"

definition will_return_ptr_always :: "string \<Rightarrow> addr \<Rightarrow> string \<Rightarrow> int \<Rightarrow> unit cm" where
  "will_return_ptr_always function p fl ln = will_return_ptr_count function p WILL_RETURN_ALWAYS fl ln"

definition will_return_ptr_maybe :: "string \<Rightarrow> addr \<Rightarrow> string \<Rightarrow> int \<Rightarrow> unit cm" where
  "will_return_ptr_maybe function p fl ln = will_return_ptr_count function p WILL_RETURN_ONCE fl ln"

section \<open>Expected parameters\<close>

text \<open>The length of an array argument, \<^verbatim>\<open>sizeof(a) / sizeof(a[0])\<close>, is the length of the list.\<close>

definition expect_check_count ::
  "string \<Rightarrow> string \<Rightarrow> check_fn \<Rightarrow> check_data \<Rightarrow> int \<Rightarrow> string \<Rightarrow> int \<Rightarrow> unit cm" where
  "expect_check_count function parameter check_function data cnt fl ln =
     cm_expect_check function parameter fl ln check_function data None cnt"

definition expect_check :: "string \<Rightarrow> string \<Rightarrow> check_fn \<Rightarrow> check_data \<Rightarrow> string \<Rightarrow> int \<Rightarrow> unit cm" where
  "expect_check function parameter check_function data fl ln =
     cm_expect_check function parameter fl ln check_function data None 1"

definition expect_in_set_count :: "string \<Rightarrow> string \<Rightarrow> uintmax list \<Rightarrow> int \<Rightarrow> string \<Rightarrow> int \<Rightarrow> unit cm" where
  "expect_in_set_count function parameter vals cnt fl ln = cm_expect_uint_in_set function parameter fl ln vals cnt"

definition expect_in_set :: "string \<Rightarrow> string \<Rightarrow> uintmax list \<Rightarrow> string \<Rightarrow> int \<Rightarrow> unit cm" where
  "expect_in_set function parameter vals fl ln = expect_in_set_count function parameter vals 1 fl ln"

definition expect_int_in_set_count :: "string \<Rightarrow> string \<Rightarrow> uintmax list \<Rightarrow> int \<Rightarrow> string \<Rightarrow> int \<Rightarrow> unit cm" where
  "expect_int_in_set_count function parameter vals cnt fl ln = cm_expect_int_in_set function parameter fl ln vals cnt"

definition expect_int_in_set :: "string \<Rightarrow> string \<Rightarrow> uintmax list \<Rightarrow> string \<Rightarrow> int \<Rightarrow> unit cm" where
  "expect_int_in_set function parameter vals fl ln = expect_int_in_set_count function parameter vals 1 fl ln"

definition expect_uint_in_set_count :: "string \<Rightarrow> string \<Rightarrow> uintmax list \<Rightarrow> int \<Rightarrow> string \<Rightarrow> int \<Rightarrow> unit cm" where
  "expect_uint_in_set_count function parameter vals cnt fl ln = cm_expect_uint_in_set function parameter fl ln vals cnt"

definition expect_uint_in_set :: "string \<Rightarrow> string \<Rightarrow> uintmax list \<Rightarrow> string \<Rightarrow> int \<Rightarrow> unit cm" where
  "expect_uint_in_set function parameter vals fl ln = expect_uint_in_set_count function parameter vals 1 fl ln"

definition expect_not_in_set_count :: "string \<Rightarrow> string \<Rightarrow> uintmax list \<Rightarrow> int \<Rightarrow> string \<Rightarrow> int \<Rightarrow> unit cm" where
  "expect_not_in_set_count function parameter vals cnt fl ln = cm_expect_not_in_set function parameter fl ln vals cnt"

definition expect_not_in_set :: "string \<Rightarrow> string \<Rightarrow> uintmax list \<Rightarrow> string \<Rightarrow> int \<Rightarrow> unit cm" where
  "expect_not_in_set function parameter vals fl ln = expect_not_in_set_count function parameter vals 1 fl ln"

definition expect_in_range_count :: "string \<Rightarrow> string \<Rightarrow> uintmax \<Rightarrow> uintmax \<Rightarrow> int \<Rightarrow> string \<Rightarrow> int \<Rightarrow> unit cm" where
  "expect_in_range_count function parameter minimum maximum cnt fl ln =
     cm_expect_in_range function parameter fl ln minimum maximum cnt"

definition expect_in_range :: "string \<Rightarrow> string \<Rightarrow> uintmax \<Rightarrow> uintmax \<Rightarrow> string \<Rightarrow> int \<Rightarrow> unit cm" where
  "expect_in_range function parameter minimum maximum fl ln = expect_in_range_count function parameter minimum maximum 1 fl ln"

definition expect_not_in_range_count :: "string \<Rightarrow> string \<Rightarrow> uintmax \<Rightarrow> uintmax \<Rightarrow> int \<Rightarrow> string \<Rightarrow> int \<Rightarrow> unit cm" where
  "expect_not_in_range_count function parameter minimum maximum cnt fl ln =
     cm_expect_not_in_range function parameter fl ln minimum maximum cnt"

definition expect_not_in_range :: "string \<Rightarrow> string \<Rightarrow> uintmax \<Rightarrow> uintmax \<Rightarrow> string \<Rightarrow> int \<Rightarrow> unit cm" where
  "expect_not_in_range function parameter minimum maximum fl ln =
     expect_not_in_range_count function parameter minimum maximum 1 fl ln"

definition expect_value_count :: "string \<Rightarrow> string \<Rightarrow> int \<Rightarrow> int \<Rightarrow> string \<Rightarrow> int \<Rightarrow> unit cm" where
  "expect_value_count function parameter v cnt fl ln =
     cm_expect_value function parameter fl ln (cast_to_uintmax_type v) cnt"

definition expect_value :: "string \<Rightarrow> string \<Rightarrow> int \<Rightarrow> string \<Rightarrow> int \<Rightarrow> unit cm" where
  "expect_value function parameter v fl ln = expect_value_count function parameter v 1 fl ln"

definition expect_not_value_count :: "string \<Rightarrow> string \<Rightarrow> int \<Rightarrow> int \<Rightarrow> string \<Rightarrow> int \<Rightarrow> unit cm" where
  "expect_not_value_count function parameter v cnt fl ln =
     cm_expect_not_value function parameter fl ln (cast_to_uintmax_type v) cnt"

definition expect_not_value :: "string \<Rightarrow> string \<Rightarrow> int \<Rightarrow> string \<Rightarrow> int \<Rightarrow> unit cm" where
  "expect_not_value function parameter v fl ln = expect_not_value_count function parameter v 1 fl ln"

definition expect_string_count :: "string \<Rightarrow> string \<Rightarrow> addr \<Rightarrow> int \<Rightarrow> string \<Rightarrow> int \<Rightarrow> unit cm" where
  "expect_string_count function parameter p cnt fl ln = cm_expect_string function parameter fl ln p cnt"

definition expect_string :: "string \<Rightarrow> string \<Rightarrow> addr \<Rightarrow> string \<Rightarrow> int \<Rightarrow> unit cm" where
  "expect_string function parameter p fl ln = expect_string_count function parameter p 1 fl ln"

definition expect_not_string_count :: "string \<Rightarrow> string \<Rightarrow> addr \<Rightarrow> int \<Rightarrow> string \<Rightarrow> int \<Rightarrow> unit cm" where
  "expect_not_string_count function parameter p cnt fl ln = cm_expect_not_string function parameter fl ln p cnt"

definition expect_not_string :: "string \<Rightarrow> string \<Rightarrow> addr \<Rightarrow> string \<Rightarrow> int \<Rightarrow> unit cm" where
  "expect_not_string function parameter p fl ln = expect_not_string_count function parameter p 1 fl ln"

definition expect_memory_count :: "string \<Rightarrow> string \<Rightarrow> addr \<Rightarrow> 64 word \<Rightarrow> int \<Rightarrow> string \<Rightarrow> int \<Rightarrow> unit cm" where
  "expect_memory_count function parameter p sz cnt fl ln = cm_expect_memory function parameter fl ln p sz cnt"

definition expect_memory :: "string \<Rightarrow> string \<Rightarrow> addr \<Rightarrow> 64 word \<Rightarrow> string \<Rightarrow> int \<Rightarrow> unit cm" where
  "expect_memory function parameter p sz fl ln = expect_memory_count function parameter p sz 1 fl ln"

definition expect_not_memory_count :: "string \<Rightarrow> string \<Rightarrow> addr \<Rightarrow> 64 word \<Rightarrow> int \<Rightarrow> string \<Rightarrow> int \<Rightarrow> unit cm" where
  "expect_not_memory_count function parameter p sz cnt fl ln = cm_expect_not_memory function parameter fl ln p sz cnt"

definition expect_not_memory :: "string \<Rightarrow> string \<Rightarrow> addr \<Rightarrow> 64 word \<Rightarrow> string \<Rightarrow> int \<Rightarrow> unit cm" where
  "expect_not_memory function parameter p sz fl ln = expect_not_memory_count function parameter p sz 1 fl ln"

definition expect_any_count :: "string \<Rightarrow> string \<Rightarrow> int \<Rightarrow> string \<Rightarrow> int \<Rightarrow> unit cm" where
  "expect_any_count function parameter cnt fl ln = cm_expect_any function parameter fl ln cnt"

definition expect_any :: "string \<Rightarrow> string \<Rightarrow> string \<Rightarrow> int \<Rightarrow> unit cm" where
  "expect_any function parameter fl ln = expect_any_count function parameter 1 fl ln"

definition expect_any_always :: "string \<Rightarrow> string \<Rightarrow> string \<Rightarrow> int \<Rightarrow> unit cm" where
  "expect_any_always function parameter fl ln = expect_any_count function parameter WILL_RETURN_ALWAYS fl ln"

definition check_expected :: "user_checks \<Rightarrow> string \<Rightarrow> string \<Rightarrow> int \<Rightarrow> string \<Rightarrow> int \<Rightarrow> unit cm" where
  "check_expected uc func parameter v fl ln = cm_check_expected uc func parameter fl ln (cast_int_to_cmocka_value v)"

definition check_expected_ptr :: "user_checks \<Rightarrow> string \<Rightarrow> string \<Rightarrow> addr \<Rightarrow> string \<Rightarrow> int \<Rightarrow> unit cm" where
  "check_expected_ptr uc func parameter p fl ln = cm_check_expected uc func parameter fl ln (cast_ptr_to_cmocka_value p)"

section \<open>Expected calls\<close>

definition function_called :: "string \<Rightarrow> string \<Rightarrow> int \<Rightarrow> unit cm" where
  "function_called func fl ln = cm_function_called func fl ln"

definition expect_function_calls :: "string \<Rightarrow> int \<Rightarrow> string \<Rightarrow> int \<Rightarrow> unit cm" where
  "expect_function_calls function n fl ln = cm_expect_function_call function fl ln n"

definition expect_function_call :: "string \<Rightarrow> string \<Rightarrow> int \<Rightarrow> unit cm" where
  "expect_function_call function fl ln = cm_expect_function_call function fl ln 1"

definition expect_function_call_any :: "string \<Rightarrow> string \<Rightarrow> int \<Rightarrow> unit cm" where
  "expect_function_call_any function fl ln = cm_expect_function_call function fl ln (-1)"

definition ignore_function_calls :: "string \<Rightarrow> string \<Rightarrow> int \<Rightarrow> unit cm" where
  "ignore_function_calls function fl ln = cm_expect_function_call function fl ln (-2)"

section \<open>Queue one value and take it\<close>

definition takes :: "unit cm \<Rightarrow> 'a cm \<Rightarrow> string \<Rightarrow> cm_state \<Rightarrow> 'a \<Rightarrow> bool" where
  "takes put get f s x \<longleftrightarrow> (\<exists>t u. put s = (Ret (), t) \<and> get t = (Ret x, u) \<and> mock_inv u \<and> result_queue u f = [])"

definition refuses :: "unit cm \<Rightarrow> 'a cm \<Rightarrow> cm_state \<Rightarrow> bool" where
  "refuses put get s \<longleftrightarrow> (\<exists>t. put s = (Ret (), t) \<and> fst (get t) = failure_outcome t)"

lemma queued_value:
  assumes "mock_inv s" "result_queue s f = []"
  shows "\<exists>t. cm_will_return f fl ln name v 1 s = (Ret (), t) \<and> mock_inv t
    \<and> queue_at (global_function_result_map_head t) [f] = [(1, next_obj s)]
    \<and> heap_objs t (next_obj s) = Some (Obj_symbol \<lparr>sv_name = name, sv_location = set_source_location fl ln, sv_value = v\<rparr>)"
proof -
  let ?t = "snd (cm_will_return f fl ln name v 1 s)"
  have "mock_inv ?t" using keepsMD [OF keeps_will_return [of "{}"]] assms(1) by simp
  moreover have "queue_at (global_function_result_map_head ?t) [f] = [(1, next_obj s)]"
    using add_at_depth(1) [of "global_function_result_map_head s" f "next_obj s" 1] assms
    by (simp add: will_return_run mock_inv_def result_queue_Nil)
  ultimately show ?thesis by (intro exI [of _ ?t]) (simp add: will_return_run)
qed

lemma typed_take:
  assumes "mock_inv s" "result_queue s f = []"
  shows "name' = None \<or> name' = name \<Longrightarrow> takes (cm_will_return f fl ln name v 1) (cm_mock f fl' ln' name') f s v"
    and "name' \<noteq> None \<Longrightarrow> name' \<noteq> name \<Longrightarrow> refuses (cm_will_return f fl ln name v 1) (cm_mock f fl' ln' name') s"
proof -
  let ?sv = "\<lparr>sv_name = name, sv_location = set_source_location fl ln, sv_value = v\<rparr> :: SymbolValue"
  obtain t where t: "cm_will_return f fl ln name v 1 s = (Ret (), t)" "mock_inv t"
    "queue_at (global_function_result_map_head t) [f] = [(1, next_obj s)]" "heap_objs t (next_obj s) = Some (Obj_symbol ?sv)"
    using queued_value [OF assms] by blast
  {
    assume "name' = None \<or> name' = name"
    then have ty: "\<not> type_mismatch name' ?sv" by (auto simp: type_mismatch_def split: option.split)
    then have "types_agree t f name'" using t(3,4) by (simp add: types_agree_def)
    from held_mock [OF _ this, of "{}" fl' ln'] t(2) have inv: "mock_inv (snd (cm_mock f fl' ln' name' t))" by simp
    obtain m where m: "queue_step 1 (global_function_result_map_head t) [f] 1 (next_obj s) m"
      "cm_mock f fl' ln' name' t = (Ret v, clear_objs {next_obj s}
          (t\<lparr>global_function_result_map_head := m, global_last_mock_value_location := set_source_location fl ln\<rparr>))"
      using mock_run_value [OF t(2-4) ty, of fl' ln'] by auto
    have "queue_at m [f] = []" using m(1) t(3) by (simp add: queue_step_def pop_entry_def)
    then have "result_queue (snd (cm_mock f fl' ln' name' t)) f = []" by (simp add: m(2) result_queue_Nil)
    then show "takes (cm_will_return f fl ln name v 1) (cm_mock f fl' ln' name') f s v"
      using t(1) m(2) inv by (auto simp: takes_def)
  next
    assume "name' \<noteq> None" "name' \<noteq> name"
    then have "type_mismatch name' ?sv" by (auto simp: type_mismatch_def split: option.split)
    from mock_mismatch_run [OF t(2-4) this, of fl' ln'] t(1)
    show "refuses (cm_will_return f fl ln name v 1) (cm_mock f fl' ln' name') s" unfolding refuses_def by blast
  }
qed

lemma takes_map: "takes put get f s v \<Longrightarrow> takes put (bindM get (\<lambda>v. retM (g v))) f s (g v)"
  by (auto simp: takes_def bindM_apply)

lemma refuses_map: "refuses put get s \<Longrightarrow> refuses put (bindM get k) s"
proof -
  assume "refuses put get s"
  then obtain t where t: "put s = (Ret (), t)" "fst (get t) = failure_outcome t" by (auto simp: refuses_def)
  moreover obtain r u where "get t = (r, u)" by (cases "get t")
  ultimately show ?thesis by (auto simp: refuses_def bindM_apply failure_outcome_def split: if_splits)
qed

text \<open>
  C35. Values keep their meaning on the way through the 64 bits of the queue. Signed values
  come back from \<^verbatim>\<open>mock_int\<close>, unsigned ones from \<^verbatim>\<open>mock_uint\<close>, floating-point
  numbers from \<^verbatim>\<open>mock_float\<close>, pointers from \<^verbatim>\<open>mock_ptr_type\<close> of the same type, and
  \<^verbatim>\<open>mock\<close> returns every value modulo \<open>2\<^sup>6\<^sup>4\<close>. Type names are compared only by \<^verbatim>\<open>mock_uint\<close> and
  \<^verbatim>\<open>mock_ptr_type\<close>: \<^verbatim>\<open>mock_uint\<close> refuses a value queued without a type name, as a signed
  integer or as a floating-point number, \<^verbatim>\<open>mock_ptr_type\<close> one of another type. \<^verbatim>\<open>mock_int\<close>
  and \<^verbatim>\<open>mock_float\<close> take a value of every type, signed, unsigned, floating-point, pointer or
  without a type name, and read its bits.
\<close>

theorem typed_mock_values:
  assumes "mock_inv s" and "result_queue s f = []" and "- (2 ^ 63) \<le> i" and "i < 2 ^ 63" and "0 \<le> n" and "n < 2 ^ 64"
  shows "takes (will_return_int f i fl ln) (mock_int f fl' ln') f s i
    \<and> takes (will_return_uint f n fl ln) (mock_uint f fl' ln') f s n
    \<and> takes (will_return f v fl ln) (mock f fl' ln') f s (v mod 2 ^ 64)
    \<and> takes (will_return_ptr_type f p ty fl ln) (mock_ptr_type ty f fl' ln') f s p
    \<and> takes (will_return_float f d fl ln) (mock_float f fl' ln') f s d
    \<and> refuses (will_return f v fl ln) (mock_uint f fl' ln') s
    \<and> refuses (will_return_int f i fl ln) (mock_uint f fl' ln') s
    \<and> refuses (will_return_float f d fl ln) (mock_uint f fl' ln') s
    \<and> (ty' \<noteq> ty \<longrightarrow> refuses (will_return_ptr_type f p ty fl ln) (mock_ptr_type ty' f fl' ln') s)
    \<and> takes (will_return_float f d fl ln) (mock_int f fl' ln') f s (sint d)
    \<and> takes (will_return_uint f n fl ln) (mock_int f fl' ln') f s (sint (word_of_int n :: 64 word))
    \<and> takes (will_return_ptr_type f p ty fl ln) (mock_int f fl' ln') f s (sint p)
    \<and> takes (will_return f v fl ln) (mock_int f fl' ln') f s (sint (word_of_int v :: 64 word))
    \<and> takes (will_return_int f i fl ln) (mock_float f fl' ln') f s (word_of_int i)
    \<and> takes (will_return_uint f n fl ln) (mock_float f fl' ln') f s (word_of_int n)
    \<and> takes (will_return_ptr_type f p ty fl ln) (mock_float f fl' ln') f s p
    \<and> takes (will_return f v fl ln) (mock_float f fl' ln') f s (word_of_int v)"
proof -
  note tt = typed_take [OF assms(1,2)]
  have i: "sint (word_of_int i :: 64 word) = i" using assms(3,4) by (simp add: signed_take_bit_int_eq_self sint_sbintrunc')
  have n: "uint (word_of_int n :: 64 word) = n" using assms(5,6) by (simp add: uint_word_of_int)
  have v: "uint (word_of_int v :: 64 word) = v mod 2 ^ 64" by (simp add: uint_word_of_int)
  note macros = will_return_int_def mock_int_def will_return_uint_def mock_uint_def will_return_def mock_def
      will_return_ptr_type_def mock_ptr_type_def will_return_float_def mock_float_def
      assign_int_to_cmocka_value_def assign_uint_to_cmocka_value_def cast_int_to_cmocka_value_def
      cast_ptr_to_cmocka_value_def assign_double_to_cmocka_value_def
  have "takes (will_return_int f i fl ln) (mock_int f fl' ln') f s (sint (word_of_int i :: 64 word))"
    "takes (will_return_uint f n fl ln) (mock_uint f fl' ln') f s (uint (word_of_int n :: 64 word))"
    "takes (will_return f v fl ln) (mock f fl' ln') f s (uint (word_of_int v :: 64 word))"
    "takes (will_return_float f d fl ln) (mock_int f fl' ln') f s (sint d)"
    "takes (will_return_uint f n fl ln) (mock_int f fl' ln') f s (sint (word_of_int n :: 64 word))"
    "takes (will_return_ptr_type f p ty fl ln) (mock_int f fl' ln') f s (sint p)"
    "takes (will_return f v fl ln) (mock_int f fl' ln') f s (sint (word_of_int v :: 64 word))"
    unfolding macros by (rule takes_map, rule tt(1), simp)+
  moreover have "takes (will_return_ptr_type f p ty fl ln) (mock_ptr_type ty f fl' ln') f s p"
    "takes (will_return_float f d fl ln) (mock_float f fl' ln') f s d"
    "takes (will_return_int f i fl ln) (mock_float f fl' ln') f s (word_of_int i)"
    "takes (will_return_uint f n fl ln) (mock_float f fl' ln') f s (word_of_int n)"
    "takes (will_return_ptr_type f p ty fl ln) (mock_float f fl' ln') f s p"
    "takes (will_return f v fl ln) (mock_float f fl' ln') f s (word_of_int v)"
    unfolding macros by (rule tt(1), simp)+
  moreover have "refuses (will_return f v fl ln) (mock_uint f fl' ln') s" "refuses (will_return_int f i fl ln) (mock_uint f fl' ln') s"
    "refuses (will_return_float f d fl ln) (mock_uint f fl' ln') s"
    unfolding macros by (rule refuses_map, rule tt(2), simp, simp)+
  moreover have "refuses (will_return_ptr_type f p ty fl ln) (mock_ptr_type ty' f fl' ln') s" if "ty' \<noteq> ty"
    unfolding macros using that by (intro tt(2)) simp_all
  ultimately show ?thesis using i n v by simp
qed

section \<open>Expect one parameter and check it\<close>

definition decides :: "unit cm \<Rightarrow> unit cm \<Rightarrow> string \<Rightarrow> string \<Rightarrow> cm_state \<Rightarrow> bool \<Rightarrow> bool" where
  "decides put get f a s b \<longleftrightarrow> (\<exists>t. put s = (Ret (), t) \<and>
     (if b then \<exists>u. get t = (Ret (), u) \<and> queue_at (global_function_parameter_map_head u) [f, a] = []
      else fst (get t) = failure_outcome t))"

lemma queued_event:
  assumes "mock_inv s" "queue_at (global_function_parameter_map_head s) [f, a] = []"
  shows "\<exists>t. cm_expect_check f a fl ln cf d None 1 s = (Ret (), t) \<and> mock_inv t \<and> memory t = memory s
    \<and> queue_at (global_function_parameter_map_head t) [f, a] = [(1, next_obj s)]
    \<and> heap_objs t (next_obj s) = Some (Obj_event \<lparr>ev_location = set_source_location fl ln, ev_parameter_name = a,
          ev_check_value = cf, ev_check_value_data = d\<rparr>)"
proof -
  let ?t = "snd (cm_expect_check f a fl ln cf d None 1 s)"
  have "mock_inv ?t" using keepsMD [OF keeps_expect_check [of "{}"]] assms(1) by simp
  moreover have "queue_at (global_function_parameter_map_head ?t) [f, a] = [(1, next_obj s)]"
    using add_at_depth(2) [of "global_function_parameter_map_head s" f a "next_obj s" 1] assms
    by (simp add: cm_expect_check_def new_event_def new_object_def run_simps mock_inv_def)
  ultimately show ?thesis
    by (intro exI [of _ ?t]) (simp add: cm_expect_check_def new_event_def new_object_def run_simps)
qed

lemma check_decides:
  assumes "mock_inv s" "queue_at (global_function_parameter_map_head s) [f, a] = []"
    and cf: "\<forall>n. cf \<noteq> Check_user n" and rel: "check_relation cf v d s = Some b"
  shows "decides (cm_expect_check f a fl ln cf d None 1) (cm_check_expected uc f a fl' ln' v) f a s b"
proof -
  let ?ev = "\<lparr>ev_location = set_source_location fl ln, ev_parameter_name = a, ev_check_value = cf, ev_check_value_data = d\<rparr>"
  obtain t where t: "cm_expect_check f a fl ln cf d None 1 s = (Ret (), t)" "mock_inv t" "memory t = memory s"
    "queue_at (global_function_parameter_map_head t) [f, a] = [(1, next_obj s)]" "heap_objs t (next_obj s) = Some (Obj_event ?ev)"
    using queued_event [OF assms(1,2)] by blast
  have "check_relation cf v d t = Some b" using rel check_relation_memory [OF t(3)] by simp
  with check_expected_decides [OF t(2,4) _ t(5), of uc fl' ln' v] cf t(1)
  show ?thesis by (cases b) (auto simp: decides_def pop_entry_def)
qed

text \<open>The functions that allocate the event first and then check their arguments.\<close>

lemma expect_with_event:
  assumes "\<And>t. memory t = memory s \<Longrightarrow> pre t = (Ret (), t)"
  shows "bindM new_event (\<lambda>p. seqM pre (cm_expect_check f a fl ln cf d (Some p) cnt)) s = cm_expect_check f a fl ln cf d None cnt s"
  using assms by (simp add: cm_expect_check_def new_event_def new_object_def bindM_apply seqM_apply)

lemma expect_set_check:
  assumes "vals \<noteq> []" "length vals < 2 ^ 64"
  shows "expect_set_with al f a fl ln vals cf cnt s = cm_expect_check f a fl ln cf (Data_set vals) None cnt s"
proof -
  have "unat (word_of_nat (length vals) :: 64 word) = length vals" using assms(2) by (simp add: unat_of_nat)
  then have "(word_of_nat (length vals) :: 64 word) \<noteq> 0" using assms(1) by auto
  then show ?thesis unfolding expect_set_with_def by (intro expect_with_event) (simp add: assert_true_run)
qed

lemma expect_memory_check:
  assumes "p \<noteq> 0" "n \<noteq> 0" "bytes_at (memory s) p (unat n) = Some bs"
  shows "expect_memory_setup f a fl ln p n cf cnt s = cm_expect_check f a fl ln cf (Data_memory bs) None cnt s"
  using assms unfolding expect_memory_setup_def
  by (simp add: cm_expect_check_def new_event_def new_object_def bindM_apply seqM_apply assert_non_null_def
      cm_assert_ptr_not_equal_msg_def ptr_values_not_equal_display_error_def display_if_not_def memory_at_def)

lemma decides_put: "put' s = put s \<Longrightarrow> decides put' get f a s b = decides put get f a s b"
  by (simp add: decides_def)

text \<open>
  C34. What each \<^verbatim>\<open>expect_*\<close> macro for one use of a parameter does (\<^verbatim>\<open>expect_check\<close> apart, whose check
  is the user's): one expectation, then one check of the parameter in the
  mock function. The check returns, with nothing left to expect, exactly when the relation of
  the macro holds, and leaves the test otherwise. Integers are compared modulo \<open>2\<^sup>6\<^sup>4\<close> and as unsigned numbers:
  a value is in the range when \<open>min \<le> value \<le> max\<close> and not in the range when it is below the minimum or
  above the maximum. Strings are compared up to their NUL, both as they are when the check is made; the expected area of
  \<^verbatim>\<open>expect_memory\<close> is copied when the expectation is made.
\<close>

theorem expected_parameters:
  assumes "mock_inv s" and "queue_at (global_function_parameter_map_head s) [f, a] = []"
    and "vals \<noteq> []" and "length vals < 2 ^ 64"
    and "p \<noteq> 0" and "n \<noteq> 0" and "bytes_at (memory s) p (unat n) = Some bs" and "bytes_at (memory s) q (unat n) = Some cs"
    and "bytes_to_nul (memory s) x = Some xs" and "bytes_to_nul (memory s) y = Some ys"
  shows "decides (expect_value f a v fl ln) (check_expected uc f a w fl' ln') f a s (v mod 2 ^ 64 = w mod 2 ^ 64)
    \<and> decides (expect_not_value f a v fl ln) (check_expected uc f a w fl' ln') f a s (v mod 2 ^ 64 \<noteq> w mod 2 ^ 64)
    \<and> decides (expect_in_range f a mn mx fl ln) (check_expected uc f a w fl' ln') f a s (uint mn \<le> w mod 2 ^ 64 \<and> w mod 2 ^ 64 \<le> uint mx)
    \<and> decides (expect_not_in_range f a mn mx fl ln) (check_expected uc f a w fl' ln') f a s (w mod 2 ^ 64 < uint mn \<or> uint mx < w mod 2 ^ 64)
    \<and> decides (expect_in_set f a vals fl ln) (check_expected uc f a w fl' ln') f a s (word_of_int w \<in> set vals)
    \<and> decides (expect_int_in_set f a vals fl ln) (check_expected uc f a w fl' ln') f a s (word_of_int w \<in> set vals)
    \<and> decides (expect_uint_in_set f a vals fl ln) (check_expected uc f a w fl' ln') f a s (word_of_int w \<in> set vals)
    \<and> decides (expect_not_in_set f a vals fl ln) (check_expected uc f a w fl' ln') f a s (word_of_int w \<notin> set vals)
    \<and> decides (expect_string f a x fl ln) (check_expected_ptr uc f a y fl' ln') f a s (ys = xs)
    \<and> decides (expect_not_string f a x fl ln) (check_expected_ptr uc f a y fl' ln') f a s (ys \<noteq> xs)
    \<and> decides (expect_memory f a p n fl ln) (check_expected_ptr uc f a q fl' ln') f a s (cs = bs)
    \<and> decides (expect_not_memory f a p n fl ln) (check_expected_ptr uc f a q fl' ln') f a s (cs \<noteq> bs)
    \<and> decides (expect_any f a fl ln) (check_expected uc f a w fl' ln') f a s True"
proof -
  note chk = check_decides [OF assms(1,2), of _ _ _ _ fl ln uc fl' ln']
  note macros = expect_value_def expect_value_count_def cm_expect_value_def expect_not_value_def expect_not_value_count_def
    cm_expect_not_value_def expect_in_range_def expect_in_range_count_def cm_expect_in_range_def expect_not_in_range_def
    expect_not_in_range_count_def cm_expect_not_in_range_def expect_in_set_def expect_in_set_count_def cm_expect_uint_in_set_def
    expect_int_in_set_def expect_int_in_set_count_def cm_expect_int_in_set_def expect_not_in_set_def expect_not_in_set_count_def
    cm_expect_not_in_set_def expect_memory_def expect_memory_count_def cm_expect_memory_def expect_not_memory_def
    expect_not_memory_count_def cm_expect_not_memory_def expect_any_def expect_any_count_def cm_expect_any_def
    check_expected_def check_expected_ptr_def cast_int_to_cmocka_value_def cast_ptr_to_cmocka_value_def cast_to_uintmax_type_def
    expect_set_def expect_int_in_set_impl_def expect_uint_in_set_impl_def expect_uint_in_set_def expect_uint_in_set_count_def
    expect_string_def expect_string_count_def cm_expect_string_def expect_not_string_def expect_not_string_count_def
    cm_expect_not_string_def
  have set: "decides (expect_set_with al f a fl ln vals cf 1) get f a s b
      = decides (cm_expect_check f a fl ln cf (Data_set vals) None 1) get f a s b" for al cf get b
    by (rule decides_put) (rule expect_set_check [OF assms(3,4)])
  have mem: "decides (expect_memory_setup f a fl ln p n cf 1) get f a s b
      = decides (cm_expect_check f a fl ln cf (Data_memory bs) None 1) get f a s b" for cf get b
    by (rule decides_put) (rule expect_memory_check [OF assms(5-7)])
  have range: "expect_range f a fl ln mn mx cf 1 = cm_expect_check f a fl ln cf (Data_range mn mx) None 1" for cf
    by (simp add: expect_range_def cm_expect_check_def)
  have w: "uint (word_of_int w :: 64 word) = w mod 2 ^ 64" by (simp add: uint_word_of_int)
  have eq: "(word_of_int w :: 64 word) = word_of_int v \<longleftrightarrow> v mod 2 ^ 64 = w mod 2 ^ 64"
    using word_of_int_eq_iff [of w v, where 'a = 64] by (auto simp: take_bit_eq_mod)
  have len: "length bs = unat n" "length cs = unat n" using assms(7,8) bytes_at_length by blast+
  show ?thesis
    unfolding macros set mem range
    by (intro conjI chk) (use assms(8-10) len w eq in \<open>auto simp: word_le_def both_strings_def\<close>)
qed

section \<open>Values that need not be used\<close>

text \<open>
  C38. The leftover check drops only one entry per queue: a test that queues one \<^verbatim>\<open>will_return_maybe\<close> value for a
  function and does not use it passes \<^verbatim>\<open>fail_if_leftover_values\<close>, a test that queues two of them and uses none is
  left with a failure, although such values are documented as never making a test fail.
\<close>

theorem two_maybe_values_left_over:
  assumes "mock_inv s" and "\<not> leftover s" and "result_queue s f = []"
  shows "fst (seqM (will_return_maybe f v fl ln) fail_if_leftover_values s) = Ret ()
    \<and> fst (seqM (will_return_maybe f v fl ln) (seqM (will_return_maybe f w fl' ln') fail_if_leftover_values) s) = failure_outcome s"
proof -
  note macros = will_return_maybe_def will_return_count_def WILL_RETURN_ONCE_def
  let ?R = global_function_result_map_head
  let ?s1 = "snd (will_return_maybe f v fl ln s)"
  let ?s2 = "snd (will_return_maybe f w fl' ln' ?s1)"
  have run: "will_return_maybe f v fl ln s = (Ret (), ?s1)" "will_return_maybe f w fl' ln' ?s1 = (Ret (), ?s2)"
    by (simp_all add: macros will_return_run)
  have i1: "mock_inv ?s1" using keepsMD [OF keeps_will_return [of "{}"]] assms(1) by (simp add: macros)
  then have i2: "mock_inv ?s2" using keepsMD [OF keeps_will_return [of "{}"]] by (simp add: macros)
  have q: "queue_at (?R ?s1) [g] = (if g = f then [(-2, next_obj s)] else queue_at (?R s) [g])" for g
    using add_at_depth(1) [of "?R s" f "next_obj s" "-2"] assms(1,3) result_queue_Nil [of s f]
    by (simp add: macros will_return_run mock_inv_def)
  have "queue_at (?R ?s2) [f] = [(-2, next_obj s), (-2, next_obj ?s1)]"
    using add_at_depth(1) [of "?R ?s1" f "next_obj ?s1" "-2"] i1 q [of f] by (simp add: macros will_return_run mock_inv_def)
  then have "drop_always (queue_at (?R ?s2) [f]) \<noteq> []" by (simp add: drop_always_def)
  then have l2: "leftover ?s2" unfolding leftover_def by blast
  have "drop_always (queue_at (?R ?s1) [g]) = (if g = f then [] else drop_always (queue_at (?R s) [g]))" for g
    using q [of g] by (simp add: drop_always_def)
  moreover have "global_function_parameter_map_head ?s1 = global_function_parameter_map_head s"
    "global_call_ordering_head ?s1 = global_call_ordering_head s" by (simp_all add: macros will_return_run)
  ultimately have l1: "\<not> leftover ?s1" using assms(2) by (simp add: leftover_def)
  have "failure_outcome ?s2 = (failure_outcome s :: unit outcome)"
    by (simp add: macros will_return_run failure_outcome_def test_abort_def)
  then show ?thesis
    using fail_if_leftover_outcome [OF i1] fail_if_leftover_outcome [OF i2] l1 l2
    by (simp add: seqM_Ret [where m = "will_return_maybe _ _ _ _", OF run(1)] seqM_Ret [where m = "will_return_maybe _ _ _ _", OF run(2)])
qed

section \<open>Witnesses\<close>

theorem typed_mock_values_witness:
  "takes (will_return_int ''f'' (- 5) ''t.c'' 3) (mock_int ''f'' ''m.c'' 7) ''f'' sample_state (- 5)
   \<and> refuses (will_return_int ''f'' (- 5) ''t.c'' 3) (mock_uint ''f'' ''m.c'' 7) sample_state"
  using typed_mock_values [OF sample_inv sample_queue, of "- 5" 1 "''f''" "''t.c''" 3 "''m.c''" 7 0 0 "''char *''" 0 "''int *''"]
  by simp

theorem expected_parameters_witness:
  "\<exists>s. decides (expect_memory ''f'' ''a'' 8 1 ''t.c'' 3) (check_expected_ptr (\<lambda>_ _ _ s. (Undefined, s)) ''f'' ''a'' 9 ''m.c'' 7) ''f'' ''a'' s False
   \<and> decides (expect_string ''f'' ''a'' 8 ''t.c'' 3) (check_expected_ptr (\<lambda>_ _ _ s. (Undefined, s)) ''f'' ''a'' 9 ''m.c'' 7) ''f'' ''a'' s False
   \<and> decides (expect_in_range ''f'' ''a'' 1 5 ''t.c'' 3) (check_expected (\<lambda>_ _ _ s. (Undefined, s)) ''f'' ''a'' 4 ''m.c'' 7) ''f'' ''a'' s True"
proof -
  let ?s = "sample_state\<lparr>memory := [8 \<mapsto> 1, 9 \<mapsto> 2, 10 \<mapsto> 0]\<rparr>"
  have i: "mock_inv ?s" using sample_inv by (simp add: mock_inv_def owned_def kinds_ok_def counts_ok_def)
  have q: "queue_at (global_function_parameter_map_head ?s) [''f'', ''a''] = []"
    by (simp add: queue_at.simps)
  have m: "bytes_at (memory ?s) 8 (unat (1 :: 64 word)) = Some [1]" "bytes_at (memory ?s) 9 (unat (1 :: 64 word)) = Some [2]"
    by simp_all
  have n: "bytes_to_nul (memory ?s) 8 = Some [1, 2]" "bytes_to_nul (memory ?s) 9 = Some [2]"
    by (simp_all add: bytes_to_nul.simps)
  from expected_parameters [OF i q _ _ _ _ m n, of "[3]" 0 "''t.c''" 3 "\<lambda>_ _ _ s. (Undefined, s)" 4 "''m.c''" 7 1 5]
  show ?thesis by (intro exI [of _ ?s]) simp
qed

theorem two_maybe_values_left_over_witness:
  "fst (seqM (will_return_maybe ''f'' 1 ''t.c'' 4) (seqM (will_return_maybe ''f'' 2 ''t.c'' 5) fail_if_leftover_values) sample_state) = Longjmp"
proof -
  have "\<not> leftover sample_state" by (simp add: leftover_def)
  from two_maybe_values_left_over [OF sample_inv this sample_queue, of "''f''" 1 "''t.c''" 4 2 "''t.c''" 5]
  show ?thesis by (simp add: failure_outcome_def test_abort_def)
qed

end
