(* ===== verification/Test_Alloc.thy ===== *)
theory Test_Alloc
  imports Assertions
begin

unbundle bit_operations_syntax

text \<open>
  The allocator for tests of \<^verbatim>\<open>src/cmocka.c\<close>: \<^verbatim>\<open>_test_malloc\<close>,
  \<^verbatim>\<open>_test_calloc\<close>, \<^verbatim>\<open>_test_realloc\<close> and \<^verbatim>\<open>_test_free\<close> put a header and two
  guard areas around every block, and theory \<open>Leak_Check\<close> adds the check points of the runner, which
  find the blocks that a test leaves allocated.

  Addresses are 64-bit words and memory is a partial map from addresses to bytes; an access
  to memory that is not mapped is undefined. The C library's \<^verbatim>\<open>malloc\<close> is a parameter: it
  hands out an address, by call number and size. The header of a block
  (\<^verbatim>\<open>struct MallocBlockInfoData\<close>) occupies 72 bytes of memory below the front guard: the
  allocator stores the bytes that represent it (\<open>info_image\<close>, a parameter) there, and the members can
  be read only as long as these bytes are in place. A header that anything else has been
  stored into is no header any more, and reading it is undefined. The values of the members
  are kept as a record under the address of the header, and
  the list of allocated blocks as the sequence of those addresses, from the oldest to the
  newest, so that a list node is named by the header it is part of; the links in the nodes are that
  sequence, and what the list operations store into them is not followed byte by byte. The first part
  has the lemmas on address ranges, the second the operations, the third the invariant of
  the heap and what each operation does to it, the last the properties.
\<close>

section \<open>Address ranges\<close>

definition region :: "addr \<Rightarrow> nat \<Rightarrow> addr set" where
  "region a n = {x. unat (x - a) < n}"

definition mapped :: "(addr \<rightharpoonup> byte) \<Rightarrow> addr \<Rightarrow> nat \<Rightarrow> bool" where
  "mapped m a n \<longleftrightarrow> list_all (\<lambda>i. m (a + word_of_nat i) \<noteq> None) [0..<n]"

text \<open>\<^verbatim>\<open>memset\<close>, and the memory a new block gets or loses.\<close>

definition fill :: "(addr \<rightharpoonup> byte) \<Rightarrow> addr \<Rightarrow> nat \<Rightarrow> byte \<Rightarrow> (addr \<rightharpoonup> byte)" where
  "fill m a n b = (\<lambda>x. if unat (x - a) < n then Some b else m x)"

definition map_in :: "(addr \<rightharpoonup> byte) \<Rightarrow> addr \<Rightarrow> nat \<Rightarrow> (addr \<Rightarrow> byte) \<Rightarrow> (addr \<rightharpoonup> byte)" where
  "map_in m a n g = (\<lambda>x. if unat (x - a) < n then Some (g x) else m x)"

definition unmap :: "(addr \<rightharpoonup> byte) \<Rightarrow> addr \<Rightarrow> nat \<Rightarrow> (addr \<rightharpoonup> byte)" where
  "unmap m a n = (\<lambda>x. if unat (x - a) < n then None else m x)"

definition put_bytes :: "(addr \<rightharpoonup> byte) \<Rightarrow> addr \<Rightarrow> byte list \<Rightarrow> (addr \<rightharpoonup> byte)" where
  "put_bytes m a bs = (\<lambda>x. if unat (x - a) < length bs then Some (bs ! unat (x - a)) else m x)"

section \<open>The C library\<close>

definition memset_at :: "addr \<Rightarrow> byte \<Rightarrow> 64 word \<Rightarrow> unit cm" where
  "memset_at a b n = (\<lambda>s. if mapped (memory s) a (unat n)
     then (Ret (), s\<lparr>memory := fill (memory s) a (unat n) b\<rparr>) else (Undefined, s))"

definition memcpy_at :: "addr \<Rightarrow> addr \<Rightarrow> 64 word \<Rightarrow> unit cm" where
  "memcpy_at dst src n = bindM (memory_at src (unat n)) (\<lambda>bs s.
     if mapped (memory s) dst (unat n) then (Ret (), s\<lparr>memory := put_bytes (memory s) dst bs\<rparr>)
     else (Undefined, s))"

definition load_byte :: "addr \<Rightarrow> byte cm" where
  "load_byte a = (\<lambda>s. case memory s a of None \<Rightarrow> (Undefined, s) | Some b \<Rightarrow> (Ret b, s))"

definition malloc_libc :: "64 word \<Rightarrow> addr cm" where
  "malloc_libc n = (\<lambda>s.
     let k = malloc_calls s; a = libc_malloc s k n; s1 = s\<lparr>malloc_calls := Suc k\<rparr>
     in if a = 0 then (Ret 0, s1)
        else (Ret a, s1\<lparr>memory := map_in (memory s) a (unat n) (libc_garbage s k),
                        libc_blocks := (libc_blocks s)(a \<mapsto> n)\<rparr>))"

definition free_libc :: "addr \<Rightarrow> unit cm" where
  "free_libc a = (\<lambda>s. if a = 0 then (Ret (), s)
     else case libc_blocks s a of
       None \<Rightarrow> (Undefined, s)
     | Some n \<Rightarrow> (Ret (), s\<lparr>memory := unmap (memory s) a (unat n),
                            libc_blocks := (libc_blocks s)(a := None)\<rparr>))"

section \<open>Layout of a block\<close>

definition MALLOC_GUARD_SIZE :: "64 word" where "MALLOC_GUARD_SIZE = 16"
definition MALLOC_GUARD_PATTERN :: byte where "MALLOC_GUARD_PATTERN = 0xEF"
definition MALLOC_ALLOC_PATTERN :: byte where "MALLOC_ALLOC_PATTERN = 0xBA"
definition MALLOC_FREE_PATTERN :: byte where "MALLOC_FREE_PATTERN = 0xCD"
definition MALLOC_ALIGNMENT :: "64 word" where "MALLOC_ALIGNMENT = 16"

text \<open>
  \<^verbatim>\<open>sizeof(struct MallocBlockInfoData)\<close>: three 8-byte members, a source location of 16
  bytes and a list node of 32 bytes, on the 64-bit ABI.
\<close>

definition sizeof_MallocBlockInfoData :: "64 word" where
  "sizeof_MallocBlockInfoData = 72"

lemmas layout_defs = MALLOC_GUARD_SIZE_def MALLOC_ALIGNMENT_def sizeof_MallocBlockInfoData_def
lemmas pattern_defs = MALLOC_GUARD_PATTERN_def MALLOC_ALLOC_PATTERN_def MALLOC_FREE_PATTERN_def

definition ALIGN_DOWN :: "64 word \<Rightarrow> 64 word \<Rightarrow> 64 word" where
  "ALIGN_DOWN x a = x AND NOT (a - 1)"

text \<open>The address of the header of the block that a caller knows by \<open>ptr\<close>.\<close>

definition block_info_ptr :: "addr \<Rightarrow> addr" where
  "block_info_ptr ptr = ptr - (MALLOC_GUARD_SIZE + sizeof_MallocBlockInfoData)"

text \<open>The header in memory: whether its bytes are in place, storing it, and reading its members.\<close>

definition header_intact :: "cm_state \<Rightarrow> addr \<Rightarrow> MallocBlockInfoData \<Rightarrow> bool" where
  "header_intact s info d \<longleftrightarrow> list_all (\<lambda>k. memory s (info + word_of_nat k) = Some (info_image s d (info + word_of_nat k)))
     [0..<unat sizeof_MallocBlockInfoData]"

definition store_block_info :: "addr \<Rightarrow> MallocBlockInfoData \<Rightarrow> unit cm" where
  "store_block_info info d = (\<lambda>s. if mapped (memory s) info (unat sizeof_MallocBlockInfoData)
     then (Ret (), s\<lparr>memory := map_in (memory s) info (unat sizeof_MallocBlockInfoData) (info_image s d),
                     block_infos := (block_infos s)(info \<mapsto> d)\<rparr>)
     else (Undefined, s))"

definition load_block_info :: "addr \<Rightarrow> MallocBlockInfoData cm" where
  "load_block_info info = (\<lambda>s. case block_infos s info of None \<Rightarrow> (Undefined, s)
     | Some d \<Rightarrow> if header_intact s info d then (Ret d, s) else (Undefined, s))"

section \<open>Allocation\<close>

definition cm_test_malloc :: "64 word \<Rightarrow> string \<Rightarrow> int \<Rightarrow> addr cm" where
  "cm_test_malloc sz fl ln =
     (let allocate_size = sz + MALLOC_GUARD_SIZE * 2 + sizeof_MallocBlockInfoData + MALLOC_ALIGNMENT in
      seqM (cm_assert_true (if allocate_size > sz then 1 else 0) ''allocate_size > size'' cmocka_c 2687)
     (bindM (malloc_libc allocate_size) (\<lambda>block.
      seqM (assert_non_null block cmocka_c 2690)
     (let ptr = ALIGN_DOWN (block + MALLOC_GUARD_SIZE + sizeof_MallocBlockInfoData + MALLOC_ALIGNMENT)
                  MALLOC_ALIGNMENT in
      seqM (memset_at (ptr - MALLOC_GUARD_SIZE) MALLOC_GUARD_PATTERN MALLOC_GUARD_SIZE)
     (seqM (memset_at (ptr + sz) MALLOC_GUARD_PATTERN MALLOC_GUARD_SIZE)
     (seqM (memset_at ptr MALLOC_ALLOC_PATTERN sz)
     (seqM (store_block_info (block_info_ptr ptr)
              \<lparr>bi_block = block, bi_allocated_size = allocate_size, bi_size = sz,
               bi_location = set_source_location fl ln\<rparr>)
     (seqM (modM (\<lambda>s. s\<lparr>global_allocated_blocks := global_allocated_blocks s @ [block_info_ptr ptr]\<rparr>))
           (retM ptr)))))))))"

definition SIZE_MAX :: "64 word" where "SIZE_MAX = - 1"

definition ENOMEM :: int where "ENOMEM = 12"

definition cm_test_calloc :: "64 word \<Rightarrow> 64 word \<Rightarrow> string \<Rightarrow> int \<Rightarrow> addr cm" where
  "cm_test_calloc number_of_elements sz fl ln =
     (if sz > 0 \<and> number_of_elements > SIZE_MAX div sz
      then seqM (modM (\<lambda>s. s\<lparr>cm_errno := ENOMEM\<rparr>)) (retM 0)
      else bindM (cm_test_malloc (number_of_elements * sz) fl ln) (\<lambda>ptr.
             seqM (whenM (ptr \<noteq> 0) (memset_at ptr 0 (number_of_elements * sz))) (retM ptr)))"

text \<open>The two guard areas, byte by byte; the first byte that differs ends the test.\<close>

definition check_guard_byte ::
  "addr \<Rightarrow> MallocBlockInfoData \<Rightarrow> string \<Rightarrow> int \<Rightarrow> addr \<Rightarrow> unit cm" where
  "check_guard_byte ptr info fl ln a =
     bindM (load_byte a) (\<lambda>b. bindM (readM fmt_p) (\<lambda>pf.
       let diff = b - MALLOC_GUARD_PATTERN in
       whenM (diff \<noteq> 0)
         (seqM (cmocka_print_error (fmt_loc (Some fl) ln @ '': error: Guard block of '' @ pf ptr @ '' size='' @
                  fmt_u (unat (bi_size info)) @ '' is corrupt'' @ nl @
                  fmt_loc (loc_file (bi_location info)) (loc_line (bi_location info)) @
                  '': note: allocated here at '' @ pf a @ nl))
               (cm_fail fl ln))))"

definition guard_addrs :: "addr \<Rightarrow> MallocBlockInfoData \<Rightarrow> addr list" where
  "guard_addrs ptr info = concat (map (\<lambda>guard. map (\<lambda>j. guard + word_of_nat j) [0..<unat MALLOC_GUARD_SIZE])
     [ptr - MALLOC_GUARD_SIZE, ptr + bi_size info])"

definition cm_test_free :: "addr \<Rightarrow> string \<Rightarrow> int \<Rightarrow> unit cm" where
  "cm_test_free ptr fl ln =
     (if ptr = 0 then retM ()
      else seqM (cm_assert_ptr_not_equal_msg ptr 0 fl ln None)
     (bindM (load_block_info (block_info_ptr ptr)) (\<lambda>info.
      seqM (forM (guard_addrs ptr info) (check_guard_byte ptr info fl ln))
     (seqM (modM (\<lambda>s. s\<lparr>global_allocated_blocks := remove1 (block_info_ptr ptr) (global_allocated_blocks s)\<rparr>))
     (seqM (memset_at (bi_block info) MALLOC_FREE_PATTERN (bi_allocated_size info))
     (seqM (free_libc (bi_block info))
           (modM (\<lambda>s. s\<lparr>block_infos := (block_infos s)(block_info_ptr ptr := None)\<rparr>))))))))"

definition cm_test_realloc :: "addr \<Rightarrow> 64 word \<Rightarrow> string \<Rightarrow> int \<Rightarrow> addr cm" where
  "cm_test_realloc ptr sz fl ln =
     (if ptr = 0 then cm_test_malloc sz fl ln
      else if sz = 0 then seqM (cm_test_free ptr fl ln) (retM 0)
      else bindM (cm_test_malloc sz fl ln) (\<lambda>new_block.
        if new_block = 0 then retM 0
        else bindM (load_block_info (block_info_ptr ptr)) (\<lambda>info.
          let block_size = (if bi_size info < sz then bi_size info else sz) in
          seqM (memcpy_at new_block ptr block_size)
         (seqM (cm_test_free ptr fl ln) (retM new_block)))))"

section \<open>Facts on address ranges\<close>

lemma align_down_16: "ALIGN_DOWN x 16 = x - word_of_nat (unat x mod 16)"
proof -
  have mask4: "(15 :: 64 word) = mask 4" by (simp add: mask_eq_exp_minus_1)
  have "x AND NOT (mask 4) = push_bit 4 (drop_bit 4 x)"
    by (auto simp: bit_eq_iff bit_simps)
  then have "ALIGN_DOWN x 16 = x div 16 * 16"
    by (simp add: ALIGN_DOWN_def mask4 push_bit_eq_mult drop_bit_eq_div)
  also have "\<dots> = x - x mod 16"
    by (simp add: minus_mod_eq_div_mult)
  also have "x mod 16 = word_of_nat (unat x mod 16)"
    by (simp add: word_arith_nat_mod)
  finally show ?thesis .
qed

lemma unat_minus_less:
  fixes y :: addr
  assumes "k < 2 ^ 64" "k + n \<le> 2 ^ 64"
  shows "unat (y - word_of_nat k) < n \<longleftrightarrow> k \<le> unat y \<and> unat y < k + n"
proof -
  have "unat (word_of_nat k :: addr) = k" using assms by (simp add: unat_of_nat)
  moreover have "unat y < 2 ^ 64" using unsigned_less [of y] by simp
  ultimately show ?thesis
    using assms by (auto simp: unat_sub_if')
qed

lemma region_offset:
  assumes "k + n \<le> 2 ^ 64"
  shows "x \<in> region (b + word_of_nat k) n \<longleftrightarrow> k \<le> unat (x - b) \<and> unat (x - b) < k + n"
proof (cases "n = 0")
  case False
  then have k: "k < 2 ^ 64" using assms by simp
  have "x - (b + word_of_nat k) = (x - b) - word_of_nat k" by simp
  then show ?thesis
    using unat_minus_less [OF k assms, of "x - b"] by (simp only: region_def mem_Collect_eq)
qed (simp add: region_def)

lemma region_eq_image:
  assumes "n \<le> 2 ^ 64"
  shows "region a n = (\<lambda>i. a + word_of_nat i) ` {..<n}"
proof (intro set_eqI iffI)
  fix x assume "x \<in> region a n"
  then have "unat (x - a) < n" by (simp add: region_def)
  moreover have "x = a + word_of_nat (unat (x - a))" by simp
  ultimately show "x \<in> (\<lambda>i. a + word_of_nat i) ` {..<n}" by blast
next
  fix x assume "x \<in> (\<lambda>i. a + word_of_nat i) ` {..<n}"
  then obtain i where i: "i < n" "x = a + word_of_nat i" by blast
  then have "unat (word_of_nat i :: addr) = i" using assms by (simp add: unat_of_nat)
  then show "x \<in> region a n" using i by (simp add: region_def)
qed

lemma mapped_region: "n \<le> 2 ^ 64 \<Longrightarrow> mapped m a n \<longleftrightarrow> region a n \<subseteq> dom m"
  by (auto simp: region_eq_image mapped_def list_all_iff image_subset_iff dom_def)

lemma unat_le_64 [simp]: "unat (n :: 64 word) \<le> 2 ^ 64"
proof -
  have "unat n < 2 ^ 64" using unsigned_less [of n] by simp
  then show ?thesis by (rule order_less_imp_le)
qed

lemma region_sub: "k + n \<le> l \<Longrightarrow> l \<le> 2 ^ 64 \<Longrightarrow> region (b + word_of_nat k) n \<subseteq> region b l"
  using region_offset [of k n _ b] by (auto simp: region_def)

lemma region_self [simp]: "a \<in> region a n \<longleftrightarrow> 0 < n"
  by (simp add: region_def)

lemma fill_region: "fill m a n b x = (if x \<in> region a n then Some b else m x)"
  by (simp add: fill_def region_def)

lemma map_in_region: "map_in m a n g x = (if x \<in> region a n then Some (g x) else m x)"
  by (simp add: map_in_def region_def)

lemma unmap_region: "unmap m a n x = (if x \<in> region a n then None else m x)"
  by (simp add: unmap_def region_def)

lemma dom_updates [simp]:
  "dom (fill m a n b) = region a n \<union> dom m"
  "dom (map_in m a n g) = region a n \<union> dom m"
  "dom (unmap m a n) = dom m - region a n"
  "dom (put_bytes m a bs) = region a (length bs) \<union> dom m"
  by (auto simp: fill_def map_in_def unmap_def put_bytes_def region_def dom_def split: if_splits)

lemma memset_run: "region a (unat n) \<subseteq> dom (memory s) \<Longrightarrow>
    memset_at a b n s = (Ret (), s\<lparr>memory := fill (memory s) a (unat n) b\<rparr>)"
  using mapped_region [OF unat_le_64] by (simp add: memset_at_def)

section \<open>Layout facts\<close>

text \<open>
  Where a block of \<open>n\<close> bytes lies: the caller's part starts \<open>user_offset a\<close> bytes after the
  address \<open>a\<close> the C library gave, between 89 and 104 bytes into the block.
\<close>

definition user_offset :: "addr \<Rightarrow> nat" where
  "user_offset a = 104 - unat (a + 104) mod 16"

definition user_ptr :: "addr \<Rightarrow> addr" where
  "user_ptr a = a + word_of_nat (user_offset a)"

lemma user_offset_bounds: "89 \<le> user_offset a" "user_offset a \<le> 104"
proof -
  have "unat (a + 104) mod 16 \<le> 15" using mod_less_divisor [of 16 "unat (a + 104)"] by linarith
  then show "89 \<le> user_offset a" "user_offset a \<le> 104" by (simp_all add: user_offset_def)
qed

lemma user_ptr_align: "ALIGN_DOWN (a + 16 + 72 + 16) 16 = user_ptr a"
proof -
  have le: "unat (a + 104) mod 16 \<le> 104"
    using mod_less_divisor [of 16 "unat (a + 104)"] by linarith
  have "ALIGN_DOWN (a + 16 + 72 + 16) 16 = a + 104 - word_of_nat (unat (a + 104) mod 16)"
    unfolding align_down_16 [symmetric] by (simp add: add.assoc)
  also have "\<dots> = a + word_of_nat (104 - unat (a + 104) mod 16)"
    unfolding of_nat_diff [OF le] by simp
  finally show ?thesis by (simp only: user_ptr_def user_offset_def)
qed

lemma unat_add_small: "unat (a :: addr) + k < 2 ^ 64 \<Longrightarrow> unat (a + word_of_nat k) = unat a + k"
proof -
  assume k: "unat a + k < 2 ^ 64"
  then have "unat (word_of_nat k :: addr) = k" by (simp add: unat_of_nat)
  then show ?thesis using k by (simp add: unat_add_lem [THEN iffD1])
qed

lemma user_ptr_unat:
  assumes "unat a + 104 < 2 ^ 64"
  shows "unat (user_ptr a) = unat a + user_offset a" "16 dvd unat (user_ptr a)"
proof -
  show u: "unat (user_ptr a) = unat a + user_offset a"
    unfolding user_ptr_def using assms user_offset_bounds(2) [of a] by (intro unat_add_small) linarith
  have "unat (a + 104) = unat a + 104"
    using unat_add_small [of a 104] assms by simp
  then have "unat (user_ptr a) = unat (a + 104) - unat (a + 104) mod 16"
    unfolding u user_offset_def by linarith
  then show "16 dvd unat (user_ptr a)" by simp
qed

lemma user_parts:
  "user_ptr a - 16 = a + word_of_nat (user_offset a - 16)"
  "user_ptr a + sz = a + word_of_nat (user_offset a + unat sz)"
  "block_info_ptr (user_ptr a) = a + word_of_nat (user_offset a - 88)"
proof -
  have "16 \<le> user_offset a" "88 \<le> user_offset a" using user_offset_bounds(1) [of a] by linarith+
  then show "user_ptr a - 16 = a + word_of_nat (user_offset a - 16)"
    "block_info_ptr (user_ptr a) = a + word_of_nat (user_offset a - 88)"
    by (simp_all add: user_ptr_def block_info_ptr_def layout_defs of_nat_diff)
qed (simp add: user_ptr_def)

section \<open>The invariant of the heap\<close>

text \<open>
  \<open>fresh_block s n\<close> is what the C library promises of its next \<^verbatim>\<open>malloc(n)\<close>: NULL, or
  an address of \<open>n\<close> bytes that do not wrap around the address space and that no live object
  has.
\<close>

definition fresh_block :: "cm_state \<Rightarrow> 64 word \<Rightarrow> bool" where
  "fresh_block s n \<longleftrightarrow> (let a = libc_malloc s (malloc_calls s) n in
     a \<noteq> 0 \<longrightarrow> unat a + unat n < 2 ^ 64 \<and> region a (unat n) \<inter> dom (memory s) = {})"

definition info_ok :: "cm_state \<Rightarrow> addr \<Rightarrow> MallocBlockInfoData \<Rightarrow> bool" where
  "info_ok s i d \<longleftrightarrow> unat (bi_size d) + 120 < 2 ^ 64 \<and> bi_allocated_size d = bi_size d + 120
     \<and> libc_blocks s (bi_block d) = Some (bi_allocated_size d)
     \<and> i = block_info_ptr (user_ptr (bi_block d))"

definition libc_block_ok :: "cm_state \<Rightarrow> addr \<Rightarrow> 64 word \<Rightarrow> bool" where
  "libc_block_ok s a n \<longleftrightarrow> a \<noteq> 0 \<and> 0 < unat n \<and> unat a + unat n < 2 ^ 64
     \<and> region a (unat n) \<subseteq> dom (memory s)
     \<and> (\<forall>b k. libc_blocks s b = Some k \<longrightarrow> b \<noteq> a \<longrightarrow> region a (unat n) \<inter> region b (unat k) = {})"

text \<open>The list, the values of the headers and the C library's blocks; and the headers in memory.\<close>

definition heap_shape :: "cm_state \<Rightarrow> bool" where
  "heap_shape s \<longleftrightarrow> distinct (global_allocated_blocks s)
     \<and> set (global_allocated_blocks s) = dom (block_infos s)
     \<and> (\<forall>a n. libc_blocks s a = Some n \<longrightarrow> libc_block_ok s a n)
     \<and> (\<forall>i d. block_infos s i = Some d \<longrightarrow> info_ok s i d)"

definition heap_inv :: "cm_state \<Rightarrow> bool" where
  "heap_inv s \<longleftrightarrow> heap_shape s \<and> (\<forall>i d. block_infos s i = Some d \<longrightarrow> header_intact s i d)"

lemma heap_shapeD:
  assumes "heap_shape s"
  shows "distinct (global_allocated_blocks s)" "set (global_allocated_blocks s) = dom (block_infos s)"
    "libc_blocks s a = Some n \<Longrightarrow> libc_block_ok s a n" "block_infos s i = Some d \<Longrightarrow> info_ok s i d"
  using assms by (simp_all add: heap_shape_def)

lemma heap_invD:
  assumes "heap_inv s"
  shows "distinct (global_allocated_blocks s)" "set (global_allocated_blocks s) = dom (block_infos s)"
    "libc_blocks s a = Some n \<Longrightarrow> libc_block_ok s a n" "block_infos s i = Some d \<Longrightarrow> info_ok s i d"
    "block_infos s i = Some d \<Longrightarrow> header_intact s i d" "heap_shape s"
  using assms heap_shapeD [of s] by (simp_all add: heap_inv_def)

lemmas heap_defs = heap_inv_def heap_shape_def info_ok_def libc_block_ok_def header_intact_def

lemma header_intact_iff: "header_intact s i d \<longleftrightarrow> (\<forall>x \<in> region i 72. memory s x = Some (info_image s d x))"
proof -
  have "region i 72 = (\<lambda>k. i + word_of_nat k) ` {..<72}" by (rule region_eq_image) simp
  then show ?thesis by (simp add: header_intact_def list_all_iff layout_defs atLeast0LessThan [symmetric])
qed

interpretation heap: message_blind heap_inv
proof
  fix s t assume f: "msg_frame s t" and s: "heap_inv s"
  note fields = msg_frame_fields [OF f]
  show "heap_inv t"
    using s unfolding heap_defs fields by blast
qed

section \<open>Allocation as a state change\<close>

definition block_memory :: "(addr \<rightharpoonup> byte) \<Rightarrow> addr \<Rightarrow> 64 word \<Rightarrow> (addr \<Rightarrow> byte) \<Rightarrow> (addr \<Rightarrow> byte) \<Rightarrow> (addr \<rightharpoonup> byte)" where
  "block_memory m a sz g im =
     map_in (fill (fill (fill (map_in m a (unat (sz + 120)) g)
       (user_ptr a - 16) 16 MALLOC_GUARD_PATTERN)
       (user_ptr a + sz) 16 MALLOC_GUARD_PATTERN)
       (user_ptr a) (unat sz) MALLOC_ALLOC_PATTERN)
       (block_info_ptr (user_ptr a)) 72 im"

definition block_info :: "addr \<Rightarrow> 64 word \<Rightarrow> string \<Rightarrow> int \<Rightarrow> MallocBlockInfoData" where
  "block_info a sz fl ln = \<lparr>bi_block = a, bi_allocated_size = sz + 120, bi_size = sz,
     bi_location = set_source_location fl ln\<rparr>"

definition malloced :: "cm_state \<Rightarrow> addr \<Rightarrow> 64 word \<Rightarrow> string \<Rightarrow> int \<Rightarrow> cm_state" where
  "malloced s a sz fl ln = s\<lparr>malloc_calls := Suc (malloc_calls s),
     memory := block_memory (memory s) a sz (libc_garbage s (malloc_calls s)) (info_image s (block_info a sz fl ln)),
     libc_blocks := (libc_blocks s)(a \<mapsto> sz + 120),
     block_infos := (block_infos s)(block_info_ptr (user_ptr a) \<mapsto> block_info a sz fl ln),
     global_allocated_blocks := global_allocated_blocks s @ [block_info_ptr (user_ptr a)]\<rparr>"

lemma unat_plus_120: "unat (sz :: 64 word) + 120 < 2 ^ 64 \<Longrightarrow> unat (sz + 120) = unat sz + 120"
  using unat_add_small [of sz 120] by simp

lemma allocate_size_fits: "(sz :: 64 word) < sz + 120 \<longleftrightarrow> unat sz + 120 < 2 ^ 64"
proof
  assume "unat sz + 120 < 2 ^ 64"
  then show "sz < sz + 120" by (simp add: word_less_nat_alt unat_plus_120)
next
  assume l: "sz < sz + 120"
  have "unat (120 :: 64 word) = 120" by simp
  moreover have "unat (sz + 120) < 2 ^ 64" using unsigned_less [of "sz + 120"] by simp
  ultimately show "unat sz + 120 < 2 ^ 64"
    using l unfolding word_less_nat_alt by (simp add: unat_plus_if' split: if_splits)
qed

text \<open>The parts of a block lie in it.\<close>

lemma user_regions:
  assumes "unat sz + 120 < 2 ^ 64"
  shows "region (user_ptr a - 16) 16 \<subseteq> region a (unat sz + 120)"
    "region (user_ptr a + sz) 16 \<subseteq> region a (unat sz + 120)"
    "region (user_ptr a) (unat sz) \<subseteq> region a (unat sz + 120)"
    "block_info_ptr (user_ptr a) \<in> region a (unat sz + 120)"
    "region (block_info_ptr (user_ptr a)) 72 \<subseteq> region a (unat sz + 120)"
proof -
  note b = user_offset_bounds [of a]
  have l: "unat sz + 120 \<le> 2 ^ 64" using assms by simp
  show "region (user_ptr a - 16) 16 \<subseteq> region a (unat sz + 120)"
    unfolding user_parts using b by (intro region_sub [OF _ l]) linarith
  show "region (user_ptr a + sz) 16 \<subseteq> region a (unat sz + 120)"
    unfolding user_parts using b by (intro region_sub [OF _ l]) linarith
  show "region (user_ptr a) (unat sz) \<subseteq> region a (unat sz + 120)"
    unfolding user_ptr_def using b by (intro region_sub [OF _ l]) linarith
  have "region (a + word_of_nat (user_offset a - 88)) 1 \<subseteq> region a (unat sz + 120)"
    using b by (intro region_sub [OF _ l]) linarith
  then show "block_info_ptr (user_ptr a) \<in> region a (unat sz + 120)"
    unfolding user_parts by (metis less_one region_self subsetD)
  show "region (block_info_ptr (user_ptr a)) 72 \<subseteq> region a (unat sz + 120)"
    unfolding user_parts using b by (intro region_sub [OF _ l]) linarith
qed

lemma user_disjoint:
  assumes "unat sz + 120 < 2 ^ 64"
  shows "region (user_ptr a - 16) 16 \<inter> region (user_ptr a) (unat sz) = {}"
    "region (user_ptr a + sz) 16 \<inter> region (user_ptr a) (unat sz) = {}"
    "region (user_ptr a + sz) 16 \<inter> region (user_ptr a - 16) 16 = {}"
    "region (block_info_ptr (user_ptr a)) 72 \<inter> region (user_ptr a - 16) 16 = {}"
    "region (block_info_ptr (user_ptr a)) 72 \<inter> region (user_ptr a + sz) 16 = {}"
    "region (block_info_ptr (user_ptr a)) 72 \<inter> region (user_ptr a) (unat sz) = {}"
proof -
  note b = user_offset_bounds [of a]
  have le: "user_offset a - 16 + 16 \<le> 2 ^ 64" "user_offset a + unat sz + 16 \<le> 2 ^ 64"
    "user_offset a + unat sz \<le> 2 ^ 64" "user_offset a - 88 + 72 \<le> 2 ^ 64" using b assms by linarith+
  note r = region_offset [OF le(1)] region_offset [OF le(2)] region_offset [OF le(3)] region_offset [OF le(4)]
  show "region (user_ptr a - 16) 16 \<inter> region (user_ptr a) (unat sz) = {}"
    "region (user_ptr a + sz) 16 \<inter> region (user_ptr a) (unat sz) = {}"
    "region (user_ptr a + sz) 16 \<inter> region (user_ptr a - 16) 16 = {}"
    "region (block_info_ptr (user_ptr a)) 72 \<inter> region (user_ptr a - 16) 16 = {}"
    "region (block_info_ptr (user_ptr a)) 72 \<inter> region (user_ptr a + sz) 16 = {}"
    "region (block_info_ptr (user_ptr a)) 72 \<inter> region (user_ptr a) (unat sz) = {}"
    unfolding user_parts unfolding user_ptr_def disjoint_iff r using b by (auto simp: r)
qed

lemma test_malloc_run:
  assumes sz: "unat sz + 120 < 2 ^ 64"
    and a: "libc_malloc s (malloc_calls s) (sz + 120) = a" "a \<noteq> 0"
  shows "cm_test_malloc sz fl ln s = (Ret (user_ptr a), malloced s a sz fl ln)"
proof -
  let ?m = "map_in (memory s) a (unat (sz + 120)) (libc_garbage s (malloc_calls s))"
  let ?s1 = "s\<lparr>malloc_calls := Suc (malloc_calls s), memory := ?m, libc_blocks := (libc_blocks s)(a \<mapsto> sz + 120)\<rparr>"
  note u = user_regions [OF sz, of a] and n = unat_plus_120 [OF sz]
  have alloc: "sz + MALLOC_GUARD_SIZE * 2 + sizeof_MallocBlockInfoData + MALLOC_ALIGNMENT = sz + 120"
    by (simp add: layout_defs)
  have ptr: "ALIGN_DOWN (a + MALLOC_GUARD_SIZE + sizeof_MallocBlockInfoData + MALLOC_ALIGNMENT) MALLOC_ALIGNMENT = user_ptr a"
    using user_ptr_align by (simp only: layout_defs)
  have 1: "cm_assert_true (if sz + 120 > sz then 1 else 0) e fl' ln' s = (Ret (), s)" for e fl' ln'
    using sz allocate_size_fits by (simp add: cm_assert_true_def)
  have 2: "malloc_libc (sz + 120) s = (Ret a, ?s1)"
    using a by (simp add: malloc_libc_def Let_def)
  have 3: "assert_non_null a fl' ln' t = (Ret (), t)" for fl' ln' t
    using asserts_ptr(2) [of a 0 fl' ln' None] a(2) by (simp add: assert_non_null_def assertsM_def)
  have d: "dom ?m = region a (unat sz + 120) \<union> dom (memory s)" by (simp add: n)
  have mp: "mapped m b 72 \<longleftrightarrow> region b 72 \<subseteq> dom m" for m b by (rule mapped_region) simp
  show ?thesis
    unfolding cm_test_malloc_def Let_def alloc seqM_Ret [where m = "cm_assert_true _ _ _ _", OF 1]
      bindM_Ret [where m = "malloc_libc _", OF 2] seqM_Ret [where m = "assert_non_null _ _ _", OF 3] ptr
    using u by (simp add: run_simps memset_run d n malloced_def block_memory_def block_info_def layout_defs sup.absorb2 le_supI1
        store_block_info_def mp)
qed

lemma seqM_leaves: "fst (m s) = failure_outcome s' \<Longrightarrow> fst (seqM m n s) = failure_outcome s' \<and> snd (seqM m n s) = snd (m s)"
  by (cases "m s", cases "fst (m s)") (auto simp: seqM_apply bindM_apply failure_outcome_def split: if_splits)

lemma seqM_fails:
  assumes "fst (m s) = failure_outcome u" "msg_frame u (snd (m s))"
  shows "fst (seqM m n s) = failure_outcome u \<and> msg_frame u (snd (seqM m n s))"
  using seqM_leaves [where m = m and n = n and s = s, OF assms(1)] assms(2) by simp

lemma bindM_leaves: "fst (m s) = failure_outcome s' \<Longrightarrow> fst (bindM m f s) = failure_outcome s' \<and> snd (bindM m f s) = snd (m s)"
  by (cases "m s", cases "fst (m s)") (auto simp: bindM_apply failure_outcome_def split: if_splits)

lemma test_malloc_overflow:
  assumes "\<not> unat sz + 120 < 2 ^ 64"
  shows "fst (cm_test_malloc sz fl ln s) = failure_outcome s \<and> msg_frame s (snd (cm_test_malloc sz fl ln s))"
proof -
  have alloc: "sz + MALLOC_GUARD_SIZE * 2 + sizeof_MallocBlockInfoData + MALLOC_ALIGNMENT = sz + 120"
    by (simp add: layout_defs)
  have no: "\<not> sz < sz + 120" using assms allocate_size_fits by blast
  let ?m = "cm_assert_true 0 ''allocate_size > size'' cmocka_c 2687"
  have m: "fst (?m s) = failure_outcome s" "msg_frame s (snd (?m s))"
    by (rule assertsM_fails [OF asserts_basic(1)], simp)+
  show ?thesis
    unfolding cm_test_malloc_def Let_def alloc if_not_P [OF no]
    by (rule seqM_fails [where m = ?m and s = s, OF m])
qed

lemma test_malloc_null:
  assumes sz: "unat sz + 120 < 2 ^ 64" and a: "libc_malloc s (malloc_calls s) (sz + 120) = 0"
  shows "fst (cm_test_malloc sz fl ln s) = failure_outcome s
    \<and> msg_frame (s\<lparr>malloc_calls := Suc (malloc_calls s)\<rparr>) (snd (cm_test_malloc sz fl ln s))"
proof -
  let ?t = "s\<lparr>malloc_calls := Suc (malloc_calls s)\<rparr>" and ?m = "assert_non_null 0 cmocka_c 2690"
  have alloc: "sz + MALLOC_GUARD_SIZE * 2 + sizeof_MallocBlockInfoData + MALLOC_ALIGNMENT = sz + 120"
    by (simp add: layout_defs)
  have 1: "cm_assert_true (if sz + 120 > sz then 1 else 0) e fl' ln' s = (Ret (), s)" for e fl' ln'
    using sz allocate_size_fits by (simp add: cm_assert_true_def)
  have 2: "malloc_libc (sz + 120) s = (Ret 0, ?t)"
    using a by (simp add: malloc_libc_def Let_def)
  have m: "fst (?m ?t) = failure_outcome ?t" "msg_frame ?t (snd (?m ?t))"
    unfolding assert_non_null_def by (rule assertsM_fails [OF asserts_ptr(2)], simp)+
  have o: "failure_outcome ?t = failure_outcome s" by (simp add: failure_outcome_def test_abort_def)
  show ?thesis
    unfolding cm_test_malloc_def Let_def alloc seqM_Ret [where m = "cm_assert_true _ _ _ _", OF 1]
      bindM_Ret [where m = "malloc_libc _", OF 2]
    by (rule seqM_fails [where m = ?m and s = ?t, OF m, unfolded o])
qed

lemma dom_block_memory:
  assumes "unat sz + 120 < 2 ^ 64"
  shows "dom (block_memory m a sz g im) = region a (unat sz + 120) \<union> dom m"
  using user_regions [OF assms, of a] by (auto simp: block_memory_def unat_plus_120 [OF assms])

lemma block_memory_at:
  assumes "unat sz + 120 < 2 ^ 64"
  shows "x \<in> region (user_ptr a) (unat sz) \<Longrightarrow> block_memory m a sz g im x = Some MALLOC_ALLOC_PATTERN"
    "x \<in> region (user_ptr a - 16) 16 \<union> region (user_ptr a + sz) 16 \<Longrightarrow> block_memory m a sz g im x = Some MALLOC_GUARD_PATTERN"
    "x \<notin> region a (unat sz + 120) \<Longrightarrow> block_memory m a sz g im x = m x"
    "x \<in> region (block_info_ptr (user_ptr a)) 72 \<Longrightarrow> block_memory m a sz g im x = Some (im x)"
proof -
  note d = user_disjoint [OF assms, of a] and u = user_regions [OF assms, of a]
  show "block_memory m a sz g im x = Some MALLOC_ALLOC_PATTERN" if "x \<in> region (user_ptr a) (unat sz)"
    using that d(6) by (auto simp: block_memory_def fill_region map_in_region)
  show "block_memory m a sz g im x = Some MALLOC_GUARD_PATTERN" if "x \<in> region (user_ptr a - 16) 16 \<union> region (user_ptr a + sz) 16"
    using that d by (auto simp: block_memory_def fill_region map_in_region)
  show "block_memory m a sz g im x = m x" if "x \<notin> region a (unat sz + 120)"
    using that u by (auto simp: block_memory_def fill_region map_in_region unat_plus_120 [OF assms])
  show "block_memory m a sz g im x = Some (im x)" if "x \<in> region (block_info_ptr (user_ptr a)) 72"
    using that by (simp add: block_memory_def map_in_region)
qed

text \<open>Every header lies in its block, apart from all other blocks and all data areas.\<close>

lemma header_region:
  assumes "heap_shape s" "block_infos s i = Some d"
  shows "region i 72 \<subseteq> region (bi_block d) (unat (bi_allocated_size d))"
    "region (bi_block d) (unat (bi_allocated_size d)) \<subseteq> dom (memory s)"
    "region i 72 \<inter> region (user_ptr (bi_block d)) (unat (bi_size d)) = {}"
proof -
  note ok = heap_shapeD(4) [OF assms, unfolded info_ok_def]
  then have sz: "unat (bi_size d) + 120 < 2 ^ 64" and i: "i = block_info_ptr (user_ptr (bi_block d))" by simp_all
  have n: "unat (bi_allocated_size d) = unat (bi_size d) + 120" using ok unat_plus_120 [OF sz] by simp
  show "region i 72 \<subseteq> region (bi_block d) (unat (bi_allocated_size d))"
    "region i 72 \<inter> region (user_ptr (bi_block d)) (unat (bi_size d)) = {}"
    unfolding i n by (rule user_regions(5) [OF sz], rule user_disjoint(6) [OF sz])
  show "region (bi_block d) (unat (bi_allocated_size d)) \<subseteq> dom (memory s)"
    using ok heap_shapeD(3) [OF assms(1)] unfolding libc_block_ok_def by blast
qed

lemma blocks_apart:
  assumes "heap_shape s" "block_infos s i = Some d" "block_infos s j = Some e" "i \<noteq> j"
  shows "region (bi_block d) (unat (bi_allocated_size d)) \<inter> region (bi_block e) (unat (bi_allocated_size e)) = {}"
proof -
  note i = heap_shapeD(4) [OF assms(1,2), unfolded info_ok_def] and j = heap_shapeD(4) [OF assms(1,3), unfolded info_ok_def]
  have "bi_block e \<noteq> bi_block d" using i j assms(4) by auto
  moreover have "libc_block_ok s (bi_block d) (bi_allocated_size d)" using i heap_shapeD(3) [OF assms(1)] by blast
  ultimately show ?thesis using j unfolding libc_block_ok_def by blast
qed

lemma header_apart:
  assumes "heap_shape s" "block_infos s i = Some d" "block_infos s j = Some e"
  shows "region j 72 \<inter> region (user_ptr (bi_block d)) (unat (bi_size d)) = {}"
proof (cases "i = j")
  case True
  then show ?thesis using header_region(3) [OF assms(1,3)] assms(2,3) by simp
next
  case False
  note ok = heap_shapeD(4) [OF assms(1,2), unfolded info_ok_def]
  then have sz: "unat (bi_size d) + 120 < 2 ^ 64" by simp
  have "region (user_ptr (bi_block d)) (unat (bi_size d)) \<subseteq> region (bi_block d) (unat (bi_allocated_size d))"
    using user_regions(3) [OF sz, of "bi_block d"] ok unat_plus_120 [OF sz] by simp
  then show ?thesis using header_region(1) [OF assms(1,3)] blocks_apart [OF assms False] by blast
qed

text \<open>Stores that leave every header alone keep the invariant.\<close>

lemma heap_inv_memory:
  assumes "heap_inv s" "dom m = dom (memory s)"
    and "\<And>i d x. block_infos s i = Some d \<Longrightarrow> x \<in> region i 72 \<Longrightarrow> m x = memory s x"
  shows "heap_inv (s\<lparr>memory := m\<rparr>)"
proof -
  have "header_intact (s\<lparr>memory := m\<rparr>) i d" if "block_infos s i = Some d" for i d
    using heap_invD(5) [OF assms(1) that] assms(3) [OF that] by (simp add: header_intact_iff)
  moreover have "heap_shape (s\<lparr>memory := m\<rparr>)"
    using heap_invD(6) [OF assms(1)] assms(2) by (simp add: heap_shape_def info_ok_def libc_block_ok_def)
  ultimately show ?thesis by (simp add: heap_inv_def)
qed

lemma heap_inv_data:
  assumes "heap_inv s" "block_infos s i = Some d" "dom m = dom (memory s)"
    and "\<And>x. x \<notin> region (user_ptr (bi_block d)) (unat (bi_size d)) \<Longrightarrow> m x = memory s x"
  shows "heap_inv (s\<lparr>memory := m\<rparr>)"
  using header_apart [OF heap_invD(6) [OF assms(1)] assms(2)] assms(4) by (intro heap_inv_memory [OF assms(1,3)]) blast

text \<open>A block that the C library hands out is new in every respect.\<close>

lemma fresh_new:
  fixes sz :: "64 word"
  assumes inv: "heap_inv s" and sz: "unat sz + 120 < 2 ^ 64"
    and fresh: "region a (unat sz + 120) \<inter> dom (memory s) = {}"
  shows "libc_blocks s a = None" "block_infos s (block_info_ptr (user_ptr a)) = None"
    "block_info_ptr (user_ptr a) \<notin> set (global_allocated_blocks s)"
proof -
  show "libc_blocks s a = None"
  proof (cases "libc_blocks s a")
    case (Some n)
    then have "libc_block_ok s a n" by (rule heap_invD(3) [OF inv])
    then have "a \<in> dom (memory s)" unfolding libc_block_ok_def by (metis region_self subsetD)
    moreover have "a \<in> region a (unat sz + 120)" by simp
    ultimately show ?thesis using fresh by blast
  qed
  show i: "block_infos s (block_info_ptr (user_ptr a)) = None"
  proof (cases "block_infos s (block_info_ptr (user_ptr a))")
    case (Some d)
    then have ok: "info_ok s (block_info_ptr (user_ptr a)) d" by (rule heap_invD(4) [OF inv])
    then have d: "unat (bi_size d) + 120 < 2 ^ 64" "libc_blocks s (bi_block d) = Some (bi_size d + 120)"
      and e: "block_info_ptr (user_ptr a) = block_info_ptr (user_ptr (bi_block d))"
      by (simp_all add: info_ok_def)
    have "region (bi_block d) (unat (bi_size d) + 120) \<subseteq> dom (memory s)"
      using heap_invD(3) [OF inv d(2)] unat_plus_120 [OF d(1)] by (simp add: libc_block_ok_def)
    then have "block_info_ptr (user_ptr a) \<in> dom (memory s)"
      using user_regions(4) [OF d(1), of "bi_block d"] e by auto
    then show ?thesis using user_regions(4) [OF sz, of a] fresh by blast
  qed
  then show "block_info_ptr (user_ptr a) \<notin> set (global_allocated_blocks s)"
    using heap_invD(2) [OF inv] by auto
qed

lemma malloced_inv:
  assumes inv: "heap_inv s" and sz: "unat sz + 120 < 2 ^ 64" and a: "a \<noteq> 0" "unat a + unat (sz + 120) < 2 ^ 64"
    and fresh: "region a (unat sz + 120) \<inter> dom (memory s) = {}"
  shows "heap_inv (malloced s a sz fl ln)"
proof -
  let ?t = "malloced s a sz fl ln" and ?i = "block_info_ptr (user_ptr a)"
  note new = fresh_new [OF inv sz fresh] and n = unat_plus_120 [OF sz]
  have dom: "dom (memory ?t) = region a (unat sz + 120) \<union> dom (memory s)"
    by (simp add: malloced_def dom_block_memory [OF sz])
  have old: "region b (unat k) \<subseteq> dom (memory s)" "region a (unat sz + 120) \<inter> region b (unat k) = {}"
    if "libc_blocks s b = Some k" for b k
  proof -
    show "region b (unat k) \<subseteq> dom (memory s)"
      using heap_invD(3) [OF inv that] by (simp add: libc_block_ok_def)
    then show "region a (unat sz + 120) \<inter> region b (unat k) = {}" using fresh by blast
  qed
  have "libc_block_ok ?t b k" if bk: "libc_blocks ?t b = Some k" for b k
  proof (cases "b = a")
    case True
    then have "k = sz + 120" using bk by (simp add: malloced_def)
    then show ?thesis using a old True dom unfolding libc_block_ok_def by (auto simp: n malloced_def)
  next
    case False
    then have b: "libc_blocks s b = Some k" using bk by (simp add: malloced_def)
    show ?thesis
      using heap_invD(3) [OF inv b] old [OF b] dom unfolding libc_block_ok_def
      by (auto simp: malloced_def n split: if_splits)
  qed
  moreover have "info_ok ?t i d" if "block_infos ?t i = Some d" for i d
  proof (cases "i = ?i")
    case True
    then show ?thesis using that sz by (auto simp: malloced_def info_ok_def block_info_def)
  next
    case False
    then have "block_infos s i = Some d" using that by (simp add: malloced_def)
    from heap_invD(4) [OF inv this] show ?thesis using new(1) by (auto simp: info_ok_def malloced_def)
  qed
  moreover have "header_intact ?t i d" if "block_infos ?t i = Some d" for i d
  proof (cases "i = ?i")
    case True
    then have "d = block_info a sz fl ln" using that by (simp add: malloced_def)
    then show ?thesis using True by (simp add: header_intact_iff malloced_def block_memory_at(4) [OF sz])
  next
    case False
    then have d: "block_infos s i = Some d" using that by (simp add: malloced_def)
    have "x \<notin> region a (unat sz + 120)" if "x \<in> region i 72" for x
      using that header_region(1,2) [OF heap_invD(6) [OF inv] d] fresh by blast
    then show ?thesis
      using heap_invD(5) [OF inv d] by (simp add: header_intact_iff malloced_def block_memory_at(3) [OF sz])
  qed
  moreover have "distinct (global_allocated_blocks ?t)" "set (global_allocated_blocks ?t) = dom (block_infos ?t)"
    using heap_invD(1,2) [OF inv] new(3) by (simp_all add: malloced_def)
  ultimately show ?thesis by (simp add: heap_inv_def heap_shape_def)
qed

section \<open>Release as a state change\<close>

lemma guard_addrs_region: "set (guard_addrs p d) = region (p - 16) 16 \<union> region (p + bi_size d) 16"
proof -
  have "region a 16 = (\<lambda>i. a + word_of_nat i) ` {..<16}" for a by (rule region_eq_image) simp
  then show ?thesis
    by (simp add: guard_addrs_def layout_defs atLeast0LessThan [symmetric])
qed

definition guards_intact :: "cm_state \<Rightarrow> addr \<Rightarrow> MallocBlockInfoData \<Rightarrow> bool" where
  "guards_intact s p d \<longleftrightarrow> list_all (\<lambda>a. memory s a = Some MALLOC_GUARD_PATTERN) (guard_addrs p d)"

lemma check_guard_byte_asserts:
  "assertsM (\<lambda>s. case memory s a of None \<Rightarrow> None | Some b \<Rightarrow> Some (b = MALLOC_GUARD_PATTERN)) (check_guard_byte p d fl ln a)"
  unfolding assertsM_def
proof (intro allI conjI impI)
  fix s
  show "check_guard_byte p d fl ln a s = (Undefined, s)"
    if "(case memory s a of None \<Rightarrow> None | Some b \<Rightarrow> Some (b = MALLOC_GUARD_PATTERN)) = None"
    using that by (simp add: check_guard_byte_def load_byte_def bindM_apply split: option.splits)
  show "check_guard_byte p d fl ln a s = (Ret (), s)"
    if "(case memory s a of None \<Rightarrow> None | Some b \<Rightarrow> Some (b = MALLOC_GUARD_PATTERN)) = Some True"
    using that by (simp add: check_guard_byte_def load_byte_def bindM_apply split: option.splits)
  assume "(case memory s a of None \<Rightarrow> None | Some b \<Rightarrow> Some (b = MALLOC_GUARD_PATTERN)) = Some False"
  then obtain b where b: "memory s a = Some b" "b \<noteq> MALLOC_GUARD_PATTERN" by (auto split: option.splits)
  let ?m = "cmocka_print_error (fmt_loc (Some fl) ln @ '': error: Guard block of '' @ fmt_p s p @ '' size='' @
                  fmt_u (unat (bi_size d)) @ '' is corrupt'' @ nl @
                  fmt_loc (loc_file (bi_location d)) (loc_line (bi_location d)) @
                  '': note: allocated here at '' @ fmt_p s a @ nl)"
  have "saysM ?m" by (rule saysM_print) simp
  then obtain x where x: "x \<noteq> []" "?m s = (Ret (), said s x)" unfolding saysM_def by blast
  have "check_guard_byte p d fl ln a s = seqM ?m (cm_fail fl ln) s"
    using b by (simp add: check_guard_byte_def load_byte_def bindM_apply Let_def)
  also have "\<dots> = cm_fail fl ln (said s x)" by (rule seqM_Ret [where m = ?m, OF x(2)])
  finally show "\<exists>x f. x \<noteq> [] \<and> failsM f \<and> check_guard_byte p d fl ln a s = f (said s x)"
    using x(1) failsM_fail by blast
qed

lemma guards_loop:
  assumes "set as \<subseteq> dom (memory s)"
  shows "if list_all (\<lambda>a. memory s a = Some MALLOC_GUARD_PATTERN) as
    then forM as (check_guard_byte p d fl ln) s = (Ret (), s)
    else fst (forM as (check_guard_byte p d fl ln) s) = failure_outcome s
      \<and> msg_frame s (snd (forM as (check_guard_byte p d fl ln) s))"
  using assms
proof (induction as)
  case (Cons a as)
  let ?c = "check_guard_byte p d fl ln"
  obtain b where b: "memory s a = Some b" using Cons.prems by auto
  show ?case
  proof (cases "b = MALLOC_GUARD_PATTERN")
    case True
    then have "?c a s = (Ret (), s)" using b check_guard_byte_asserts [of a p d fl ln] by (simp add: assertsM_def)
    from seqM_Ret [where m = "?c a" and s = s, OF this] have "forM (a # as) ?c s = forM as ?c s" by simp
    then show ?thesis using Cons True b by simp
  next
    case False
    then have "fst (?c a s) = failure_outcome s" "msg_frame s (snd (?c a s))"
      using b by (intro assertsM_fails [OF check_guard_byte_asserts]; simp)+
    from seqM_fails [where m = "?c a" and s = s, OF this] show ?thesis using b False by simp
  qed
qed simp

definition freed :: "cm_state \<Rightarrow> addr \<Rightarrow> MallocBlockInfoData \<Rightarrow> cm_state" where
  "freed s i d = s\<lparr>memory := unmap (memory s) (bi_block d) (unat (bi_allocated_size d)),
     libc_blocks := (libc_blocks s)(bi_block d := None),
     block_infos := (block_infos s)(i := None),
     global_allocated_blocks := remove1 i (global_allocated_blocks s)\<rparr>"

lemma live_block:
  assumes inv: "heap_shape s" and d: "block_infos s (block_info_ptr p) = Some d"
  shows "p = user_ptr (bi_block d)" "p \<noteq> 0" "unat (bi_size d) + 120 < 2 ^ 64"
    "bi_allocated_size d = bi_size d + 120" "libc_blocks s (bi_block d) = Some (bi_allocated_size d)"
    "bi_block d \<noteq> 0" "region (bi_block d) (unat (bi_size d) + 120) \<subseteq> dom (memory s)"
    "set (guard_addrs p d) \<subseteq> region (bi_block d) (unat (bi_size d) + 120)"
    "region p (unat (bi_size d)) \<subseteq> region (bi_block d) (unat (bi_size d) + 120)"
proof -
  note i = heap_shapeD(4) [OF inv d, unfolded info_ok_def]
  show p: "p = user_ptr (bi_block d)" using i by (simp add: block_info_ptr_def)
  show sz: "unat (bi_size d) + 120 < 2 ^ 64" and al: "bi_allocated_size d = bi_size d + 120"
    and l: "libc_blocks s (bi_block d) = Some (bi_allocated_size d)" using i by simp_all
  note b = heap_shapeD(3) [OF inv l, unfolded libc_block_ok_def] and n = unat_plus_120 [OF sz]
  show "bi_block d \<noteq> 0" "region (bi_block d) (unat (bi_size d) + 120) \<subseteq> dom (memory s)"
    using b by (simp_all add: al n)
  have "unat (bi_block d) + 104 < 2 ^ 64" using b by (simp add: al n)
  from user_ptr_unat(1) [OF this] have "unat p \<noteq> 0" using user_offset_bounds(1) [of "bi_block d"] p by simp
  then show "p \<noteq> 0" by auto
  show "set (guard_addrs p d) \<subseteq> region (bi_block d) (unat (bi_size d) + 120)"
    "region p (unat (bi_size d)) \<subseteq> region (bi_block d) (unat (bi_size d) + 120)"
    unfolding guard_addrs_region p using user_regions [OF sz, of "bi_block d"] by blast+
qed

lemma test_free_shape:
  assumes inv: "heap_shape s" and d: "block_infos s (block_info_ptr p) = Some d" and h: "header_intact s (block_info_ptr p) d"
  shows "if guards_intact s p d then cm_test_free p fl ln s = (Ret (), freed s (block_info_ptr p) d)
    else fst (cm_test_free p fl ln s) = failure_outcome s \<and> msg_frame s (snd (cm_test_free p fl ln s))"
proof -
  let ?g = "forM (guard_addrs p d) (check_guard_byte p d fl ln)"
  note live = live_block [OF assms(1,2)]
  have n: "unat (bi_allocated_size d) = unat (bi_size d) + 120"
    using unat_plus_120 [OF live(3)] live(4) by simp
  have "set (guard_addrs p d) \<subseteq> dom (memory s)" using live(7,8) by blast
  note loop = guards_loop [OF this, of p d fl ln]
  have 1: "cm_assert_ptr_not_equal_msg p 0 fl ln None s = (Ret (), s)"
    using asserts_ptr(2) [of p 0 fl ln None] live(2) by (simp add: assertsM_def)
  have 2: "load_block_info (block_info_ptr p) s = (Ret d, s)" using d h by (simp add: load_block_info_def)
  show ?thesis
  proof (cases "guards_intact s p d")
    case True
    then have 3: "?g s = (Ret (), s)" using loop by (simp add: guards_intact_def)
    have un: "unmap (fill m a k b) a k = unmap m a k" for m a k b by (auto simp: unmap_def fill_def fun_eq_iff)
    have "cm_test_free p fl ln s = (Ret (), freed s (block_info_ptr p) d)"
      unfolding cm_test_free_def if_not_P [OF live(2)] seqM_Ret [where m = "cm_assert_ptr_not_equal_msg _ _ _ _ _", OF 1]
        bindM_Ret [where m = "load_block_info _", OF 2] seqM_Ret [where m = ?g, OF 3]
      using live(5,6,7) by (simp add: run_simps memset_run n free_libc_def freed_def un)
    then show ?thesis using True by simp
  next
    case False
    then have "fst (?g s) = failure_outcome s" "msg_frame s (snd (?g s))"
      using loop unfolding guards_intact_def [symmetric] by simp_all
    note seqM_fails [where m = ?g and s = s, OF this]
    then have "fst (cm_test_free p fl ln s) = failure_outcome s \<and> msg_frame s (snd (cm_test_free p fl ln s))"
      unfolding cm_test_free_def if_not_P [OF live(2)] seqM_Ret [where m = "cm_assert_ptr_not_equal_msg _ _ _ _ _", OF 1]
        bindM_Ret [where m = "load_block_info _", OF 2] by blast
    then show ?thesis using False by simp
  qed
qed

lemma test_free_run:
  assumes "heap_inv s" and "block_infos s (block_info_ptr p) = Some d"
  shows "if guards_intact s p d then cm_test_free p fl ln s = (Ret (), freed s (block_info_ptr p) d)
    else fst (cm_test_free p fl ln s) = failure_outcome s \<and> msg_frame s (snd (cm_test_free p fl ln s))"
  by (rule test_free_shape [OF heap_invD(6) [OF assms(1)] assms(2) heap_invD(5) [OF assms]])

text \<open>A header that was stored into cannot be read: its block cannot be released any more.\<close>

lemma header_overwritten:
  assumes "block_infos s (block_info_ptr p) = Some d" "\<not> header_intact s (block_info_ptr p) d" "p \<noteq> 0"
  shows "cm_test_free p fl ln s = (Undefined, s)"
proof -
  have "cm_assert_ptr_not_equal_msg p 0 fl ln None s = (Ret (), s)"
    using asserts_ptr(2) [of p 0 fl ln None] assms(3) by (simp add: assertsM_def)
  then show ?thesis using assms by (simp add: cm_test_free_def load_block_info_def seqM_apply bindM_apply)
qed

lemma freed_inv:
  assumes inv: "heap_inv s" and d: "block_infos s i = Some d"
  shows "heap_inv (freed s i d)"
proof -
  let ?t = "freed s i d"
  note di = heap_invD(4) [OF inv d, unfolded info_ok_def]
  have dl: "libc_blocks s (bi_block d) = Some (bi_allocated_size d)" using di by simp
  have "libc_block_ok ?t b k" if bk: "libc_blocks ?t b = Some k" for b k
  proof -
    have b: "b \<noteq> bi_block d" "libc_blocks s b = Some k" using bk by (auto simp: freed_def split: if_splits)
    then have "region b (unat k) \<inter> region (bi_block d) (unat (bi_allocated_size d)) = {}"
      using heap_invD(3) [OF inv b(2)] dl unfolding libc_block_ok_def by blast
    then show ?thesis
      using heap_invD(3) [OF inv b(2)] unfolding libc_block_ok_def by (auto simp: freed_def split: if_splits)
  qed
  moreover have "info_ok ?t j e" if je: "block_infos ?t j = Some e" for j e
  proof -
    have j: "j \<noteq> i" "block_infos s j = Some e" using je by (auto simp: freed_def split: if_splits)
    then have "bi_block e \<noteq> bi_block d"
      using di heap_invD(4) [OF inv j(2)] unfolding info_ok_def by auto
    then show ?thesis using heap_invD(4) [OF inv j(2)] by (simp add: info_ok_def freed_def)
  qed
  moreover have "header_intact ?t j e" if je: "block_infos ?t j = Some e" for j e
  proof -
    have j: "i \<noteq> j" "block_infos s j = Some e" using je by (auto simp: freed_def split: if_splits)
    note shape = heap_invD(6) [OF inv]
    have "x \<notin> region (bi_block d) (unat (bi_allocated_size d))" if "x \<in> region j 72" for x
      using that header_region(1) [OF shape j(2)] blocks_apart [OF shape d j(2,1)] by blast
    then show ?thesis using heap_invD(5) [OF inv j(2)] by (simp add: header_intact_iff freed_def unmap_region)
  qed
  moreover have "distinct (global_allocated_blocks ?t)" "set (global_allocated_blocks ?t) = dom (block_infos ?t)"
    using heap_invD(1,2) [OF inv] by (simp_all add: freed_def)
  ultimately show ?thesis by (simp add: heap_inv_def heap_shape_def)
qed

section \<open>The operations on a well-formed heap\<close>

definition malloc_succeeds :: "cm_state \<Rightarrow> 64 word \<Rightarrow> bool" where
  "malloc_succeeds s sz \<longleftrightarrow> unat sz + 120 < 2 ^ 64 \<and> libc_malloc s (malloc_calls s) (sz + 120) \<noteq> 0"

lemma test_malloc_fails:
  assumes "\<not> malloc_succeeds s sz"
  shows "fst (cm_test_malloc sz fl ln s) = failure_outcome s"
    "\<exists>k. msg_frame (s\<lparr>malloc_calls := k\<rparr>) (snd (cm_test_malloc sz fl ln s))"
proof -
  have "fst (cm_test_malloc sz fl ln s) = failure_outcome s
     \<and> (\<exists>k. msg_frame (s\<lparr>malloc_calls := k\<rparr>) (snd (cm_test_malloc sz fl ln s)))"
  proof (cases "unat sz + 120 < 2 ^ 64")
    case True
    then have "libc_malloc s (malloc_calls s) (sz + 120) = 0" using assms by (simp add: malloc_succeeds_def)
    from test_malloc_null [OF True this] show ?thesis by blast
  next
    case False
    have "s\<lparr>malloc_calls := malloc_calls s\<rparr> = s" by simp
    with test_malloc_overflow [OF False] show ?thesis by metis
  qed
  then show "fst (cm_test_malloc sz fl ln s) = failure_outcome s"
    "\<exists>k. msg_frame (s\<lparr>malloc_calls := k\<rparr>) (snd (cm_test_malloc sz fl ln s))" by blast+
qed

lemma heap_inv_calls [simp]: "heap_inv (s\<lparr>malloc_calls := k\<rparr>) = heap_inv s"
  by (simp add: heap_defs)

definition new_block :: "cm_state \<Rightarrow> 64 word \<Rightarrow> addr \<Rightarrow> bool" where
  "new_block s sz a \<longleftrightarrow> a \<noteq> 0 \<and> unat sz + 120 < 2 ^ 64 \<and> unat a + unat sz + 120 < 2 ^ 64
     \<and> region a (unat sz + 120) \<inter> dom (memory s) = {}"

lemma malloc_new:
  assumes inv: "heap_inv s" and f: "fresh_block s (sz + 120)" and ok: "malloc_succeeds s sz"
  shows "\<exists>a. new_block s sz a \<and> cm_test_malloc sz fl ln s = (Ret (user_ptr a), malloced s a sz fl ln)
    \<and> heap_inv (malloced s a sz fl ln)"
proof -
  define a where "a = libc_malloc s (malloc_calls s) (sz + 120)"
  have sz: "unat sz + 120 < 2 ^ 64" and a: "a \<noteq> 0" using ok by (simp_all add: malloc_succeeds_def a_def)
  have r: "unat a + unat (sz + 120) < 2 ^ 64" "region a (unat sz + 120) \<inter> dom (memory s) = {}"
    using f a unat_plus_120 [OF sz] by (simp_all add: fresh_block_def Let_def a_def)
  have "new_block s sz a" using sz a r unat_plus_120 [OF sz] by (simp add: new_block_def)
  with test_malloc_run [OF sz a_def [symmetric] a] malloced_inv [OF inv sz a r] show ?thesis by blast
qed

lemma test_malloc_inv:
  assumes inv: "heap_inv s" and f: "fresh_block s (sz + 120)"
  shows "heap_inv (snd (cm_test_malloc sz fl ln s))"
proof (cases "malloc_succeeds s sz")
  case True
  from malloc_new [OF inv f this, of fl ln] show ?thesis by (elim exE conjE) simp
next
  case False
  from test_malloc_fails(2) [OF this, of fl ln] show ?thesis
  proof
    fix k assume "msg_frame (s\<lparr>malloc_calls := k\<rparr>) (snd (cm_test_malloc sz fl ln s))"
    from heap.blind [OF this] show ?thesis using inv by simp
  qed
qed

lemma test_malloc_returned:
  assumes inv: "heap_inv s" and f: "fresh_block s (sz + 120)" and r: "cm_test_malloc sz fl ln s = (Ret p, t)"
  shows "\<exists>a. new_block s sz a \<and> p = user_ptr a \<and> t = malloced s a sz fl ln \<and> heap_inv t"
proof -
  have "malloc_succeeds s sz"
  proof (rule ccontr)
    assume "\<not> malloc_succeeds s sz"
    from test_malloc_fails(1) [OF this, of fl ln] r have "failure_outcome s = Ret p" by simp
    then show False by simp
  qed
  from malloc_new [OF inv f this, of fl ln] show ?thesis
  proof (elim exE conjE)
    fix a assume a: "new_block s sz a" "cm_test_malloc sz fl ln s = (Ret (user_ptr a), malloced s a sz fl ln)"
      "heap_inv (malloced s a sz fl ln)"
    from a(2) r have "p = user_ptr a" "t = malloced s a sz fl ln" by simp_all
    with a(1,3) show ?thesis by blast
  qed
qed

text \<open>A block as the caller of \<^verbatim>\<open>malloc\<close> sees it in the state after the call.\<close>

lemma malloced_view:
  assumes inv: "heap_inv s" and new: "new_block s sz a"
    and t_def: "t = malloced s a sz fl ln" and p_def: "p = user_ptr a"
  shows "block_infos t (block_info_ptr p) = Some (block_info a sz fl ln)"
    "guards_intact t p (block_info a sz fl ln)" "16 dvd unat p" "unat p + unat sz < 2 ^ 64" "p \<noteq> 0"
    "region p (unat sz) \<inter> dom (memory s) = {}"
    "x \<in> region p (unat sz) \<Longrightarrow> memory t x = Some MALLOC_ALLOC_PATTERN"
    "x \<in> dom (memory s) \<Longrightarrow> memory t x = memory s x"
    "global_allocated_blocks t = global_allocated_blocks s @ [block_info_ptr p]"
proof -
  have sz: "unat sz + 120 < 2 ^ 64" and a: "unat a + unat sz + 120 < 2 ^ 64"
    and fresh: "region a (unat sz + 120) \<inter> dom (memory s) = {}" using new by (simp_all add: new_block_def)
  have u: "unat p = unat a + user_offset a" "16 dvd unat p"
    unfolding p_def using a by (intro user_ptr_unat; simp)+
  note b = user_offset_bounds [of a]
  show "16 dvd unat p" by (rule u(2))
  show "unat p + unat sz < 2 ^ 64" using u b a by linarith
  show "p \<noteq> 0" using u(1) b by auto
  show "region p (unat sz) \<inter> dom (memory s) = {}" using user_regions(3) [OF sz, of a] fresh unfolding p_def by blast
  show "block_infos t (block_info_ptr p) = Some (block_info a sz fl ln)"
    "global_allocated_blocks t = global_allocated_blocks s @ [block_info_ptr p]"
    by (simp_all add: t_def p_def malloced_def)
  show "guards_intact t p (block_info a sz fl ln)"
    unfolding guards_intact_def list_all_iff guard_addrs_region t_def p_def
    by (simp add: block_info_def malloced_def block_memory_at(2) [OF sz])
  show "x \<in> region p (unat sz) \<Longrightarrow> memory t x = Some MALLOC_ALLOC_PATTERN"
    by (simp add: t_def p_def malloced_def block_memory_at(1) [OF sz])
  show "memory t x = memory s x" if "x \<in> dom (memory s)"
  proof -
    have "x \<notin> region a (unat sz + 120)" using that fresh by blast
    then show ?thesis by (simp add: t_def malloced_def block_memory_at(3) [OF sz])
  qed
qed

section \<open>Properties\<close>


text \<open>
  C16. Allocating, writing anything within the bounds of the block and releasing it is
  the identity on the whole state: memory, the list of blocks, the headers and the C
  library's blocks are what they were before (one call of \<^verbatim>\<open>malloc\<close> has been made).
\<close>

theorem malloc_free_roundtrip:
  assumes "heap_inv s" and "fresh_block s (sz + 120)"
    and "cm_test_malloc sz fl ln s = (Ret p, t)"
    and "dom m = dom (memory t)" and "\<And>x. x \<notin> region p (unat sz) \<Longrightarrow> m x = memory t x"
  shows "cm_test_free p fl' ln' (t\<lparr>memory := m\<rparr>) = (Ret (), s\<lparr>malloc_calls := Suc (malloc_calls s)\<rparr>)"
proof -
  from test_malloc_returned [OF assms(1-3)] obtain a
    where a: "new_block s sz a" "p = user_ptr a" "t = malloced s a sz fl ln" "heap_inv t" by (elim exE conjE)
  have sz: "unat sz + 120 < 2 ^ 64" and fresh: "region a (unat sz + 120) \<inter> dom (memory s) = {}"
    using a(1) by (simp_all add: new_block_def)
  let ?u = "t\<lparr>memory := m\<rparr>" and ?d = "block_info a sz fl ln" and ?i = "block_info_ptr p"
  note view = malloced_view [OF assms(1) a(1,3,2)] and new = fresh_new [OF assms(1) sz fresh]
  have inv: "heap_inv ?u"
    using assms(5) by (intro heap_inv_data [OF a(4) view(1) assms(4)]) (simp add: block_info_def a(2))
  have d: "block_infos ?u ?i = Some ?d" using view(1) by simp
  have "guards_intact ?u p ?d"
    unfolding guards_intact_def list_all_iff
  proof
    fix x assume x: "x \<in> set (guard_addrs p ?d)"
    then have "x \<notin> region p (unat sz)"
      using user_disjoint [OF sz, of a] unfolding guard_addrs_region by (auto simp: block_info_def a(2))
    with assms(5) x view(2) show "memory ?u x = Some MALLOC_GUARD_PATTERN"
      unfolding guards_intact_def list_all_iff by simp
  qed
  with test_free_run [OF inv d, of fl' ln'] have f: "cm_test_free p fl' ln' ?u = (Ret (), freed ?u ?i ?d)" by simp
  have "unmap m a (unat sz + 120) x = memory s x" for x
  proof (cases "x \<in> region a (unat sz + 120)")
    case True
    then have "x \<notin> dom (memory s)" using fresh by blast
    then show ?thesis using True by (simp add: unmap_region domIff)
  next
    case False
    then have "m x = memory t x" using assms(5) user_regions(3) [OF sz, of a] unfolding a(2) by blast
    then show ?thesis using False by (simp add: unmap_region a(3) malloced_def block_memory_at(3) [OF sz])
  qed
  then have m: "unmap m a (unat sz + 120) = memory s" by (rule ext)
  have "remove1 ?i (global_allocated_blocks s @ [?i]) = global_allocated_blocks s"
    using new(3) a(2) by (simp add: remove1_append)
  moreover have "(libc_blocks s)(a := None) = libc_blocks s" "(block_infos s)(?i := None) = block_infos s"
    using new(1,2) a(2) by auto
  ultimately have "freed ?u ?i ?d = s\<lparr>malloc_calls := Suc (malloc_calls s)\<rparr>"
    using m by (simp add: freed_def a(2,3) malloced_def block_info_def unat_plus_120 [OF sz])
  then show ?thesis using f by simp
qed

text \<open>
  C17. Every change of a guard byte, before or after the block, is found when the block
  is released, as long as the header in front of the block is as \<^verbatim>\<open>malloc\<close> left it, whatever else was
  stored into mapped memory: the call leaves the test with a message, and the block is not
  released. (The header holds the size by which the second guard is found; a store into
  the header is not detected, see \<open>header_overwritten\<close>.)
\<close>

theorem guard_overwrite_detected:
  assumes "heap_inv s" and "fresh_block s (sz + 120)"
    and "cm_test_malloc sz fl ln s = (Ret p, t)"
    and "dom m = dom (memory t)" and "\<And>y. y \<in> region (p - 88) 72 \<Longrightarrow> m y = memory t y"
    and "x \<in> region (p - 16) 16 \<union> region (p + sz) 16" and "m x \<noteq> memory t x"
  shows "fst (cm_test_free p fl' ln' (t\<lparr>memory := m\<rparr>)) = failure_outcome t
    \<and> msg_frame (t\<lparr>memory := m\<rparr>) (snd (cm_test_free p fl' ln' (t\<lparr>memory := m\<rparr>)))"
proof -
  from test_malloc_returned [OF assms(1-3)] obtain a
    where a: "new_block s sz a" "p = user_ptr a" "t = malloced s a sz fl ln" "heap_inv t" by (elim exE conjE)
  let ?u = "t\<lparr>memory := m\<rparr>" and ?d = "block_info a sz fl ln"
  note view = malloced_view [OF assms(1) a(1,3,2)]
  have shape: "heap_shape ?u"
    using heap_invD(6) [OF a(4)] assms(4) by (simp add: heap_shape_def info_ok_def libc_block_ok_def)
  have d: "block_infos ?u (block_info_ptr p) = Some ?d" using view(1) by simp
  have "header_intact ?u (block_info_ptr p) ?d"
    using heap_invD(5) [OF a(4) view(1)] assms(5) by (simp add: header_intact_iff block_info_ptr_def layout_defs)
  note run = test_free_shape [OF shape d this, of fl' ln']
  have x: "x \<in> set (guard_addrs p ?d)" using assms(6) by (simp add: guard_addrs_region block_info_def)
  then have "memory t x = Some MALLOC_GUARD_PATTERN" using view(2) by (simp add: guards_intact_def list_all_iff)
  then have "\<not> guards_intact ?u p ?d" using x assms(7) by (auto simp: guards_intact_def list_all_iff)
  moreover have "failure_outcome ?u = failure_outcome t" by (simp add: failure_outcome_def test_abort_def)
  ultimately show ?thesis using run by simp
qed

section \<open>calloc and realloc\<close>

lemma calloc_guard:
  "(sz :: 64 word) > 0 \<and> n > SIZE_MAX div sz \<longleftrightarrow> 2 ^ 64 \<le> unat n * unat sz"
proof (cases "sz = 0")
  case False
  then have pos: "0 < unat sz" by (simp add: unat_gt_0)
  have "unat (- 1 :: 64 word) = 2 ^ 64 - 1" by (simp add: unsigned_minus_1_eq_mask mask_eq_exp_minus_1)
  then have "unat (SIZE_MAX div sz) = (2 ^ 64 - 1) div unat sz" by (simp only: SIZE_MAX_def unat_div)
  then have "n > SIZE_MAX div sz \<longleftrightarrow> (2 ^ 64 - 1) div unat sz < unat n" by (simp add: word_less_nat_alt)
  also have "\<dots> \<longleftrightarrow> 2 ^ 64 - 1 < unat n * unat sz" using pos by (simp add: div_less_iff_less_mult)
  also have "\<dots> \<longleftrightarrow> 2 ^ 64 \<le> unat n * unat sz" by auto
  finally show ?thesis using False by (simp add: word_neq_0_conv)
qed simp

lemma unat_product: "unat (n :: 64 word) * unat sz < 2 ^ 64 \<Longrightarrow> unat (n * sz) = unat n * unat sz"
  using unat_mult_lem [of n sz] by simp

lemma calloc_run:
  assumes inv: "heap_inv s" and f: "fresh_block s (n * sz + 120)" and ok: "malloc_succeeds s (n * sz)"
    and prod: "unat n * unat sz < 2 ^ 64"
  shows "\<exists>a t. new_block s (n * sz) a \<and> t = malloced s a (n * sz) fl ln \<and> heap_inv t
     \<and> cm_test_calloc n sz fl ln s = (Ret (user_ptr a), t\<lparr>memory := fill (memory t) (user_ptr a) (unat (n * sz)) 0\<rparr>)
     \<and> heap_inv (t\<lparr>memory := fill (memory t) (user_ptr a) (unat (n * sz)) 0\<rparr>)"
proof -
  from malloc_new [OF inv f ok, of fl ln] obtain a
    where a: "new_block s (n * sz) a" "cm_test_malloc (n * sz) fl ln s = (Ret (user_ptr a), malloced s a (n * sz) fl ln)"
      "heap_inv (malloced s a (n * sz) fl ln)" by (elim exE conjE)
  let ?t = "malloced s a (n * sz) fl ln" and ?p = "user_ptr a"
  note view = malloced_view [OF inv a(1) refl [of ?t] refl]
  have sub: "region ?p (unat (n * sz)) \<subseteq> dom (memory ?t)" using view(7) by blast
  have ng: "\<not> (sz > 0 \<and> n > SIZE_MAX div sz)" using calloc_guard prod by (metis not_le)
  have "cm_test_calloc n sz fl ln s = (Ret ?p, ?t\<lparr>memory := fill (memory ?t) ?p (unat (n * sz)) 0\<rparr>)"
    unfolding cm_test_calloc_def if_not_P [OF ng] bindM_Ret [where m = "cm_test_malloc _ _ _", OF a(2)]
    using view(5) by (simp add: run_simps memset_run [OF sub])
  moreover have "heap_inv (?t\<lparr>memory := fill (memory ?t) ?p (unat (n * sz)) 0\<rparr>)"
    using sub by (intro heap_inv_data [OF a(3) view(1)]) (auto simp: fill_region block_info_def)
  ultimately show ?thesis using a(1,3) by blast
qed

text \<open>
  C24. \<^verbatim>\<open>_test_calloc\<close>: a product that does not fit in 64 bits gives NULL and
  \<^verbatim>\<open>ENOMEM\<close> and allocates nothing. Otherwise, when the allocation succeeds, the result is a
  new block whose \<open>n * sz\<close> bytes are zero.
\<close>

theorem test_calloc_contract:
  assumes "heap_inv s" and "fresh_block s (n * sz + 120)"
  shows "(2 ^ 64 \<le> unat n * unat sz \<longrightarrow> cm_test_calloc n sz fl ln s = (Ret 0, s\<lparr>cm_errno := ENOMEM\<rparr>))
    \<and> (unat n * unat sz < 2 ^ 64 \<and> malloc_succeeds s (n * sz) \<longrightarrow>
        (\<exists>p t. cm_test_calloc n sz fl ln s = (Ret p, t) \<and> heap_inv t \<and> p \<noteq> 0 \<and> 16 dvd unat p
          \<and> region p (unat n * unat sz) \<inter> dom (memory s) = {}
          \<and> (\<forall>x \<in> region p (unat n * unat sz). memory t x = Some 0)
          \<and> (\<forall>x \<in> dom (memory s). memory t x = memory s x)
          \<and> global_allocated_blocks t = global_allocated_blocks s @ [block_info_ptr p]))"
proof (intro conjI impI)
  assume "2 ^ 64 \<le> unat n * unat sz"
  then show "cm_test_calloc n sz fl ln s = (Ret 0, s\<lparr>cm_errno := ENOMEM\<rparr>)"
    using calloc_guard [of sz n] by (simp add: cm_test_calloc_def run_simps)
next
  assume "unat n * unat sz < 2 ^ 64 \<and> malloc_succeeds s (n * sz)"
  then have prod: "unat n * unat sz < 2 ^ 64" and ok: "malloc_succeeds s (n * sz)" by simp_all
  from calloc_run [OF assms ok prod, of fl ln] obtain a t
    where a: "new_block s (n * sz) a" "t = malloced s a (n * sz) fl ln" "heap_inv t"
     "cm_test_calloc n sz fl ln s = (Ret (user_ptr a), t\<lparr>memory := fill (memory t) (user_ptr a) (unat (n * sz)) 0\<rparr>)"
     "heap_inv (t\<lparr>memory := fill (memory t) (user_ptr a) (unat (n * sz)) 0\<rparr>)" by (elim exE conjE)
  let ?p = "user_ptr a" and ?t = "t\<lparr>memory := fill (memory t) (user_ptr a) (unat (n * sz)) 0\<rparr>"
  note view = malloced_view [OF assms(1) a(1,2) refl] and u = unat_product [OF prod]
  have "\<forall>x \<in> region ?p (unat n * unat sz). memory ?t x = Some 0" by (simp add: fill_region u)
  moreover have "\<forall>x \<in> dom (memory s). memory ?t x = memory s x"
    using view(6,8) by (auto simp: fill_region)
  moreover have "global_allocated_blocks ?t = global_allocated_blocks s @ [block_info_ptr ?p]" using view(9) by simp
  ultimately show "\<exists>p t. cm_test_calloc n sz fl ln s = (Ret p, t) \<and> heap_inv t \<and> p \<noteq> 0 \<and> 16 dvd unat p
          \<and> region p (unat n * unat sz) \<inter> dom (memory s) = {}
          \<and> (\<forall>x \<in> region p (unat n * unat sz). memory t x = Some 0)
          \<and> (\<forall>x \<in> dom (memory s). memory t x = memory s x)
          \<and> global_allocated_blocks t = global_allocated_blocks s @ [block_info_ptr p]"
    by (intro exI [of _ ?p] exI [of _ ?t] conjI a(4,5) view(3,5) view(6) [unfolded u])
qed

text \<open>\<^verbatim>\<open>memcpy\<close> between mapped areas.\<close>

lemma bytes_at_mapped:
  "region a n \<subseteq> dom m \<Longrightarrow> n \<le> 2 ^ 64 \<Longrightarrow> bytes_at m a n = Some (map (\<lambda>i. the (m (a + word_of_nat i))) [0..<n])"
proof (induction n arbitrary: a)
  case (Suc n)
  have "a \<in> dom m" using Suc.prems(1) region_self [of a "Suc n"] by blast
  moreover have "region (a + word_of_nat 1) n \<subseteq> region a (Suc n)"
    using Suc.prems(2) by (intro region_sub) simp_all
  then have "bytes_at m (a + 1) n = Some (map (\<lambda>i. the (m (a + 1 + word_of_nat i))) [0..<n])"
    using Suc by (intro Suc.IH) simp_all
  moreover have "[0..<Suc n] = 0 # map Suc [0..<n]" by (simp add: map_Suc_upt upt_conv_Cons del: upt_Suc)
  ultimately show ?case by (auto simp: add.assoc simp del: upt_Suc)
qed simp

lemma memcpy_run:
  assumes "region src (unat n) \<subseteq> dom (memory s)" "region dst (unat n) \<subseteq> dom (memory s)"
  shows "\<exists>bs. memcpy_at dst src n s = (Ret (), s\<lparr>memory := put_bytes (memory s) dst bs\<rparr>)
     \<and> length bs = unat n \<and> (\<forall>i < unat n. Some (bs ! i) = memory s (src + word_of_nat i))"
proof -
  let ?bs = "map (\<lambda>i. the (memory s (src + word_of_nat i))) [0..<unat n]"
  have "memcpy_at dst src n s = (Ret (), s\<lparr>memory := put_bytes (memory s) dst ?bs\<rparr>)"
    using bytes_at_mapped [OF assms(1) unat_le_64] mapped_region [OF unat_le_64] assms(2)
    by (simp add: memcpy_at_def memory_at_def bindM_apply)
  moreover have "Some (?bs ! i) = memory s (src + word_of_nat i)" if "i < unat n" for i
  proof -
    have "src + word_of_nat i \<in> region src (unat n)" using that region_eq_image [OF unat_le_64] by blast
    then show ?thesis using assms(1) that by auto
  qed
  ultimately show ?thesis by (intro exI [of _ ?bs]) simp
qed

lemma put_bytes_other: "x \<notin> region a (length bs) \<Longrightarrow> put_bytes m a bs x = m x"
  by (simp add: put_bytes_def region_def)

lemma put_bytes_at: "i < length bs \<Longrightarrow> length bs \<le> 2 ^ 64 \<Longrightarrow> put_bytes m a bs (a + word_of_nat i) = Some (bs ! i)"
  by (simp add: put_bytes_def unat_of_nat)

lemma region_mono: "n \<le> k \<Longrightarrow> region a n \<subseteq> region a k"
  by (auto simp: region_def)

lemma region_at: "i < n \<Longrightarrow> n \<le> 2 ^ 64 \<Longrightarrow> a + word_of_nat i \<in> region a n"
  by (simp add: region_eq_image)

lemma realloc_copies:
  assumes inv: "heap_inv s" and d: "block_infos s (block_info_ptr p) = Some d"
    and f: "fresh_block s (sz + 120)" and nz: "sz \<noteq> 0" and ok: "malloc_succeeds s sz"
  shows "\<exists>a bs t. new_block s sz a
     \<and> t = (malloced s a sz fl ln)\<lparr>memory := put_bytes (memory (malloced s a sz fl ln)) (user_ptr a) bs\<rparr>
     \<and> length bs = min (unat sz) (unat (bi_size d)) \<and> (\<forall>i < length bs. Some (bs ! i) = memory s (p + word_of_nat i))
     \<and> cm_test_realloc p sz fl ln s = seqM (cm_test_free p fl ln) (retM (user_ptr a)) t
     \<and> heap_inv t \<and> block_infos t (block_info_ptr p) = Some d \<and> guards_intact t p d = guards_intact s p d"
proof -
  from malloc_new [OF inv f ok, of fl ln] obtain a
    where a: "new_block s sz a" "cm_test_malloc sz fl ln s = (Ret (user_ptr a), malloced s a sz fl ln)"
      "heap_inv (malloced s a sz fl ln)" by (elim exE conjE)
  let ?t = "malloced s a sz fl ln" and ?q = "user_ptr a"
  let ?k = "if bi_size d < sz then bi_size d else sz"
  note view = malloced_view [OF inv a(1) refl [of ?t] refl] and live = live_block [OF heap_invD(6) [OF inv] d]
  have k: "unat ?k = min (unat sz) (unat (bi_size d))" by (auto simp: word_less_nat_alt min_def)
  have "block_infos s (block_info_ptr ?q) = None"
    using a(1) unfolding new_block_def by (intro fresh_new(2) [OF inv, of sz]) blast+
  then have d': "block_infos ?t (block_info_ptr p) = Some d" using d by (auto simp: malloced_def)
  have "region p (unat ?k) \<subseteq> region p (unat (bi_size d))" by (rule region_mono) (simp add: k)
  then have src: "region p (unat ?k) \<subseteq> dom (memory s)" using live(7,9) by blast
  have same: "memory ?t x = memory s x" if "x \<in> dom (memory s)" for x by (rule view(8) [OF that])
  then have "dom (memory s) \<subseteq> dom (memory ?t)" by (intro subsetI) (simp add: domIff)
  with src have srct: "region p (unat ?k) \<subseteq> dom (memory ?t)" by (rule subset_trans)
  have dst: "region ?q (unat ?k) \<subseteq> region ?q (unat sz)" by (rule region_mono) (simp add: k)
  then have dstt: "region ?q (unat ?k) \<subseteq> dom (memory ?t)" using view(7) by blast
  obtain bs where bs: "memcpy_at ?q p ?k ?t = (Ret (), ?t\<lparr>memory := put_bytes (memory ?t) ?q bs\<rparr>)"
    "length bs = unat ?k" "\<forall>i < unat ?k. Some (bs ! i) = memory ?t (p + word_of_nat i)"
    using memcpy_run [OF srct dstt] by blast
  let ?u = "?t\<lparr>memory := put_bytes (memory ?t) ?q bs\<rparr>"
  have from_s: "Some (bs ! i) = memory s (p + word_of_nat i)" if "i < length bs" for i
  proof -
    have "p + word_of_nat i \<in> region p (unat ?k)" using that unfolding bs(2) by (rule region_at [OF _ unat_le_64])
    then have "p + word_of_nat i \<in> dom (memory s)" using src by blast
    from same [OF this] show ?thesis using bs(2,3) that by simp
  qed
  have "put_bytes (memory ?t) ?q bs x = memory ?t x" if "x \<notin> region ?q (unat sz)" for x
    using that dst unfolding bs(2) [symmetric] by (intro put_bytes_other) blast
  then have inv_u: "heap_inv ?u"
    using dstt bs(2) by (intro heap_inv_data [OF a(3) view(1)]) (auto simp: block_info_def)
  have d_u: "block_infos ?u (block_info_ptr p) = Some d" using d' by simp
  have "memory ?u x = memory s x" if "x \<in> set (guard_addrs p d)" for x
  proof -
    have x: "x \<in> dom (memory s)" using that live(7,8) by blast
    then have "x \<notin> region ?q (length bs)" using view(6) dst unfolding bs(2) by blast
    then show ?thesis using same [OF x] by (simp add: put_bytes_other)
  qed
  then have g: "guards_intact ?u p d = guards_intact s p d" by (simp add: guards_intact_def list_all_iff)
  have ld: "load_block_info (block_info_ptr p) ?t = (Ret d, ?t)"
    using d' heap_invD(5) [OF a(3) d'] by (simp add: load_block_info_def)
  have "cm_test_realloc p sz fl ln s = seqM (cm_test_free p fl ln) (retM ?q) ?u"
    unfolding cm_test_realloc_def if_not_P [OF live(2)] if_not_P [OF nz] Let_def
      bindM_Ret [where m = "cm_test_malloc _ _ _", OF a(2)] if_not_P [OF view(5)]
      bindM_Ret [where m = "load_block_info _", OF ld] seqM_Ret [where m = "memcpy_at _ _ _", OF bs(1)] by (rule refl)
  then show ?thesis
    using a(1) bs(2) k from_s inv_u d_u g by (intro exI [of _ a] exI [of _ bs] exI [of _ ?u]) simp
qed

lemma realloc_run:
  assumes inv: "heap_inv s" and d: "block_infos s (block_info_ptr p) = Some d" and g: "guards_intact s p d"
    and f: "fresh_block s (sz + 120)" and nz: "sz \<noteq> 0" and ok: "malloc_succeeds s sz"
  shows "\<exists>a bs t. new_block s sz a
     \<and> t = (malloced s a sz fl ln)\<lparr>memory := put_bytes (memory (malloced s a sz fl ln)) (user_ptr a) bs\<rparr>
     \<and> length bs = min (unat sz) (unat (bi_size d)) \<and> (\<forall>i < length bs. Some (bs ! i) = memory s (p + word_of_nat i))
     \<and> cm_test_realloc p sz fl ln s = (Ret (user_ptr a), freed t (block_info_ptr p) d)
     \<and> heap_inv t \<and> block_infos t (block_info_ptr p) = Some d"
proof -
  from realloc_copies [OF inv d f nz ok, of fl ln] obtain a bs t where a: "new_block s sz a"
     "t = (malloced s a sz fl ln)\<lparr>memory := put_bytes (memory (malloced s a sz fl ln)) (user_ptr a) bs\<rparr>"
     "length bs = min (unat sz) (unat (bi_size d))" "\<forall>i < length bs. Some (bs ! i) = memory s (p + word_of_nat i)"
     "cm_test_realloc p sz fl ln s = seqM (cm_test_free p fl ln) (retM (user_ptr a)) t"
     "heap_inv t" "block_infos t (block_info_ptr p) = Some d" "guards_intact t p d = guards_intact s p d"
    by (elim exE conjE)
  have free: "cm_test_free p fl ln t = (Ret (), freed t (block_info_ptr p) d)"
    using test_free_run [OF a(6,7), of fl ln] a(8) g by simp
  have "cm_test_realloc p sz fl ln s = (Ret (user_ptr a), freed t (block_info_ptr p) d)"
    unfolding a(5) seqM_Ret [where m = "cm_test_free _ _ _", OF free] by simp
  with a(1-4,6,7) show ?thesis by blast
qed

text \<open>
  C25. \<^verbatim>\<open>_test_realloc\<close>: NULL is \<^verbatim>\<open>malloc\<close>, size 0 is \<^verbatim>\<open>free\<close>. Otherwise, for a live
  block with intact guards and when memory is there, the result is a new block that
  starts with the bytes of the old one, as many as both have room for; the old block is
  released, and no other memory changes.
\<close>

theorem test_realloc_contract:
  assumes "heap_inv s" and "block_infos s (block_info_ptr p) = Some d" and "guards_intact s p d"
    and "fresh_block s (sz + 120)" and "sz \<noteq> 0" and "malloc_succeeds s sz"
  shows "cm_test_realloc 0 sz fl ln = cm_test_malloc sz fl ln
    \<and> cm_test_realloc p 0 fl ln s = (Ret 0, snd (cm_test_free p fl ln s))
    \<and> (\<exists>q t. cm_test_realloc p sz fl ln s = (Ret q, t) \<and> heap_inv t \<and> q \<noteq> 0 \<and> 16 dvd unat q
      \<and> region q (unat sz) \<inter> dom (memory s) = {} \<and> region q (unat sz) \<subseteq> dom (memory t)
      \<and> (\<forall>i < min (unat sz) (unat (bi_size d)). memory t (q + word_of_nat i) = memory s (p + word_of_nat i))
      \<and> (\<forall>x \<in> dom (memory s). memory t x = (if x \<in> region (bi_block d) (unat (bi_size d) + 120) then None else memory s x))
      \<and> global_allocated_blocks t = remove1 (block_info_ptr p) (global_allocated_blocks s) @ [block_info_ptr q])"
proof (intro conjI)
  note live = live_block [OF heap_invD(6) [OF assms(1)] assms(2)]
  show "cm_test_realloc 0 sz fl ln = cm_test_malloc sz fl ln" by (simp add: cm_test_realloc_def)
  have "cm_test_free p fl ln s = (Ret (), freed s (block_info_ptr p) d)"
    using test_free_run [OF assms(1,2), of fl ln] assms(3) by simp
  then show "cm_test_realloc p 0 fl ln s = (Ret 0, snd (cm_test_free p fl ln s))"
    using live(2) by (simp add: cm_test_realloc_def run_simps)
  from realloc_run [OF assms, of fl ln] obtain a bs t where a: "new_block s sz a"
     "t = (malloced s a sz fl ln)\<lparr>memory := put_bytes (memory (malloced s a sz fl ln)) (user_ptr a) bs\<rparr>"
     "length bs = min (unat sz) (unat (bi_size d))" "\<forall>i < length bs. Some (bs ! i) = memory s (p + word_of_nat i)"
     "cm_test_realloc p sz fl ln s = (Ret (user_ptr a), freed t (block_info_ptr p) d)"
     "heap_inv t" "block_infos t (block_info_ptr p) = Some d" by (elim exE conjE)
  let ?q = "user_ptr a" and ?t = "freed t (block_info_ptr p) d" and ?B = "region (bi_block d) (unat (bi_size d) + 120)"
  note view = malloced_view [OF assms(1) a(1) refl [of "malloced s a sz fl ln"] refl]
  have al: "unat (bi_allocated_size d) = unat (bi_size d) + 120" using live(4) unat_plus_120 [OF live(3)] by simp
  have B: "x \<notin> ?B" if "x \<in> region ?q (unat sz)" for x using that view(6) live(7) by blast
  have mt: "memory ?t x = (if x \<in> ?B then None else memory t x)" for x by (simp add: freed_def unmap_region al)
  have le: "region ?q (length bs) \<subseteq> region ?q (unat sz)" using a(3) by (intro region_mono) simp
  have "\<forall>i < min (unat sz) (unat (bi_size d)). memory ?t (?q + word_of_nat i) = memory s (p + word_of_nat i)"
  proof (intro allI impI)
    fix i assume "i < min (unat sz) (unat (bi_size d))"
    then have i: "i < length bs" using a(3) by simp
    have lb: "length bs \<le> 2 ^ 64" using a(3) unat_le_64 [of sz] by linarith
    have "?q + word_of_nat i \<in> region ?q (length bs)" by (rule region_at [OF i lb])
    then have "?q + word_of_nat i \<notin> ?B" using B le by blast
    then show "memory ?t (?q + word_of_nat i) = memory s (p + word_of_nat i)"
      using a(4) i put_bytes_at [OF i lb] unfolding mt by (simp add: a(2))
  qed
  moreover have "\<forall>x \<in> dom (memory s). memory ?t x = (if x \<in> ?B then None else memory s x)"
  proof
    fix x assume x: "x \<in> dom (memory s)"
    then have "x \<notin> region ?q (length bs)" using view(6) le by blast
    then show "memory ?t x = (if x \<in> ?B then None else memory s x)"
      unfolding mt using view(8) [OF x] by (simp add: put_bytes_other a(2))
  qed
  moreover have "region ?q (unat sz) \<subseteq> dom (memory ?t)"
  proof
    fix x assume x: "x \<in> region ?q (unat sz)"
    then have "x \<in> dom (memory (malloced s a sz fl ln))" using view(7) by blast
    then have "x \<in> dom (memory t)" unfolding a(2) by simp
    then show "x \<in> dom (memory ?t)" using B [OF x] mt [of x] by auto
  qed
  moreover have "block_info_ptr p \<in> set (global_allocated_blocks s)"
    using heap_invD(2) [OF assms(1)] assms(2) by blast
  then have "global_allocated_blocks ?t = remove1 (block_info_ptr p) (global_allocated_blocks s) @ [block_info_ptr ?q]"
    by (simp add: freed_def a(2) malloced_def remove1_append)
  ultimately show "\<exists>q t. cm_test_realloc p sz fl ln s = (Ret q, t) \<and> heap_inv t \<and> q \<noteq> 0 \<and> 16 dvd unat q
      \<and> region q (unat sz) \<inter> dom (memory s) = {} \<and> region q (unat sz) \<subseteq> dom (memory t)
      \<and> (\<forall>i < min (unat sz) (unat (bi_size d)). memory t (q + word_of_nat i) = memory s (p + word_of_nat i))
      \<and> (\<forall>x \<in> dom (memory s). memory t x = (if x \<in> ?B then None else memory s x))
      \<and> global_allocated_blocks t = remove1 (block_info_ptr p) (global_allocated_blocks s) @ [block_info_ptr q]"
    by (intro exI [of _ ?q] exI [of _ ?t] conjI a(5) freed_inv [OF a(6,7)] view(3,5,6))
qed

lemma initial_heap_inv: "heap_inv (initial_state env pt lit oa mf mem)"
  "heap_inv ((initial_state env pt lit oa mf mem)\<lparr>libc_garbage := g, info_image := im\<rparr>)"
  by (simp_all add: heap_inv_def heap_shape_def initial_state_def)

section \<open>Witnesses\<close>

text \<open>An empty process whose \<^verbatim>\<open>malloc\<close> hands out page after page, and one block of 4 bytes in it.\<close>

definition page_malloc :: "nat \<Rightarrow> 64 word \<Rightarrow> addr" where
  "page_malloc k n = word_of_nat (4096 * Suc k)"

definition empty_heap :: cm_state where
  "empty_heap = initial_state (\<lambda>_. None) (\<lambda>_. []) (\<lambda>_. 0) (\<lambda>_. 0) page_malloc Map.empty"

definition one_block :: cm_state where
  "one_block = malloced empty_heap 4096 4 ''t.c'' 7"

lemma empty_heap_facts:
  "heap_inv empty_heap" "fresh_block empty_heap (4 + 120)" "malloc_succeeds empty_heap 4"
  "cm_test_malloc 4 ''t.c'' 7 empty_heap = (Ret (user_ptr 4096), one_block)"
  "heap_inv one_block" "new_block empty_heap 4 4096"
proof -
  show inv: "heap_inv empty_heap" unfolding empty_heap_def by (rule initial_heap_inv)
  show f: "fresh_block empty_heap (4 + 120)"
    by (simp add: fresh_block_def empty_heap_def initial_state_def page_malloc_def)
  show "malloc_succeeds empty_heap 4"
    by (simp add: malloc_succeeds_def empty_heap_def initial_state_def page_malloc_def)
  show run: "cm_test_malloc 4 ''t.c'' 7 empty_heap = (Ret (user_ptr 4096), one_block)"
    unfolding one_block_def by (rule test_malloc_run) (simp_all add: empty_heap_def initial_state_def page_malloc_def)
  show "heap_inv one_block" using test_malloc_inv [OF inv f, of "''t.c''" 7] run by simp
  show "new_block empty_heap 4 4096" by (simp add: new_block_def empty_heap_def initial_state_def)
qed

lemmas one_block_view = malloced_view [OF empty_heap_facts(1,6) one_block_def refl]

lemma one_block_next: "fresh_block one_block (8 + 120)" "malloc_succeeds one_block 8"
proof -
  have dom: "dom (memory one_block) = region 4096 124"
    using dom_block_memory [of 4 Map.empty 4096] by (simp add: one_block_def malloced_def empty_heap_def initial_state_def)
  have n: "libc_malloc one_block (malloc_calls one_block) n = 4096 + word_of_nat 4096" for n
    by (simp add: one_block_def malloced_def empty_heap_def initial_state_def page_malloc_def)
  have "region (4096 + word_of_nat 4096) 128 \<inter> region 4096 124 = {}"
    using region_offset [of 4096 128 _ 4096] by (auto simp: region_def)
  then show "fresh_block one_block (8 + 120)" by (simp add: fresh_block_def n dom)
  show "malloc_succeeds one_block 8" by (simp add: malloc_succeeds_def n)
qed


theorem malloc_free_roundtrip_witness:
  "cm_test_free (user_ptr 4096) ''t.c'' 8 (one_block\<lparr>memory := (memory one_block)(user_ptr 4096 \<mapsto> 65)\<rparr>)
   = (Ret (), empty_heap\<lparr>malloc_calls := Suc (malloc_calls empty_heap)\<rparr>)"
proof (rule malloc_free_roundtrip [OF empty_heap_facts(1,2,4)])
  have in_block: "user_ptr 4096 \<in> region (user_ptr 4096) (unat (4 :: 64 word))" by simp
  then show "dom ((memory one_block)(user_ptr 4096 \<mapsto> 65)) = dom (memory one_block)"
    using one_block_view(7) by auto
  show "((memory one_block)(user_ptr 4096 \<mapsto> 65)) x = memory one_block x"
    if "x \<notin> region (user_ptr 4096) (unat (4 :: 64 word))" for x
    using that in_block by auto
qed

theorem guard_overwrite_detected_witness:
  "fst (cm_test_free (user_ptr 4096) ''t.c'' 8
      (one_block\<lparr>memory := (memory one_block)(user_ptr 4096 + 4 \<mapsto> 0)\<rparr>)) = failure_outcome one_block"
proof -
  let ?x = "user_ptr 4096 + 4"
  have x: "?x \<in> region (user_ptr 4096 - 16) 16 \<union> region ?x 16" by simp
  have g: "memory one_block ?x = Some MALLOC_GUARD_PATTERN"
    using one_block_view(2) x by (simp add: guards_intact_def list_all_iff guard_addrs_region block_info_def)
  then have dom: "dom ((memory one_block)(?x \<mapsto> 0)) = dom (memory one_block)" by auto
  have ne: "((memory one_block)(?x \<mapsto> 0)) ?x \<noteq> memory one_block ?x" using g by (simp add: pattern_defs)
  have "region (block_info_ptr (user_ptr 4096)) 72 \<inter> region ?x 16 = {}" by (rule user_disjoint(5)) simp
  then have "y \<noteq> ?x" if "y \<in> region (user_ptr 4096 - 88) 72" for y
    using that by (auto simp: block_info_ptr_def layout_defs)
  then have h: "((memory one_block)(?x \<mapsto> 0)) y = memory one_block y" if "y \<in> region (user_ptr 4096 - 88) 72" for y
    using that by simp
  show ?thesis by (rule guard_overwrite_detected [OF empty_heap_facts(1,2,4) dom h x ne, THEN conjunct1])
qed

theorem test_calloc_contract_witness:
  "\<exists>p t. cm_test_calloc 2 2 ''t.c'' 7 empty_heap = (Ret p, t) \<and> p \<noteq> 0
     \<and> (\<forall>x \<in> region p 4. memory t x = Some 0)"
proof -
  have f: "fresh_block empty_heap (2 * 2 + 120)" "malloc_succeeds empty_heap (2 * 2)"
    using empty_heap_facts(2,3) by simp_all
  have "unat (2 :: 64 word) * unat (2 :: 64 word) < 2 ^ 64" by simp
  with test_calloc_contract [OF empty_heap_facts(1) f(1), of "''t.c''" 7, THEN conjunct2] f(2)
  show ?thesis by (elim impE exE conjE) (blast, intro exI conjI, assumption+, simp)
qed

theorem test_realloc_contract_witness:
  "\<exists>q t. cm_test_realloc (user_ptr 4096) 8 ''t.c'' 9 one_block = (Ret q, t) \<and> heap_inv t \<and> q \<noteq> 0"
proof -
  have "(8 :: 64 word) \<noteq> 0" by simp
  from test_realloc_contract [OF empty_heap_facts(5) one_block_view(1,2) one_block_next(1) this one_block_next(2), of "''t.c''" 9]
  show ?thesis by (elim exE conjE) (intro exI conjI)
qed

end
