(* ===== verification/Leak_Check.thy ===== *)
theory Leak_Check
  imports Test_Alloc
begin

text \<open>
  Check points of \<^verbatim>\<open>src/cmocka.c\<close>: the position in the list of allocated blocks at
  the start of a test, the display and release of the blocks behind it
  (\<^verbatim>\<open>display_allocated_blocks\<close>, \<^verbatim>\<open>free_allocated_blocks\<close>,
  \<^verbatim>\<open>fail_if_blocks_allocated\<close>), and the reachable states of the allocator.
\<close>

section \<open>Check points\<close>

text \<open>
  A check point is a node of the list of allocated blocks: \<open>None\<close> is the list head,
  \<open>Some i\<close> the node in the header at \<open>i\<close>. The nodes behind it are read from that node, so
  they are undefined when its block has been released.
\<close>

definition check_point_allocated_blocks :: "(addr option) cm" where
  "check_point_allocated_blocks = readM (\<lambda>s. case rev (global_allocated_blocks s) of
     [] \<Rightarrow> None | i # _ \<Rightarrow> Some i)"

fun blocks_after :: "addr option \<Rightarrow> addr list \<Rightarrow> addr list option" where
  "blocks_after None bs = Some bs"
| "blocks_after (Some i) bs = (if i \<in> set bs then Some (tl (dropWhile (\<lambda>x. x \<noteq> i) bs)) else None)"

definition nodes_after :: "addr option \<Rightarrow> (addr list) cm" where
  "nodes_after check_point = (\<lambda>s. case blocks_after check_point (global_allocated_blocks s) of
     None \<Rightarrow> (Undefined, s) | Some bs \<Rightarrow> (Ret bs, s))"

fun display_blocks :: "nat \<Rightarrow> addr list \<Rightarrow> nat cm" where
  "display_blocks n [] = retM n"
| "display_blocks n (i # is) =
     seqM (assert_non_null i cmocka_c 2841)
    (seqM (whenM (n = 0) (cmocka_print_error (''Blocks allocated...'' @ nl)))
    (bindM (load_block_info i) (\<lambda>info.
     bindM (readM fmt_p) (\<lambda>pf.
     seqM (cmocka_print_error (fmt_loc (loc_file (bi_location info)) (loc_line (bi_location info)) @
             '': note: block '' @ pf (bi_block info) @ '' allocated here'' @ nl))
          (display_blocks (Suc n) is)))))"

definition display_allocated_blocks :: "addr option \<Rightarrow> nat cm" where
  "display_allocated_blocks check_point = bindM (nodes_after check_point) (display_blocks 0)"

text \<open>
  \<^verbatim>\<open>free\<close> is \<^verbatim>\<open>test_free\<close> here. The next node is read before the block is released.
\<close>

definition free_allocated_blocks :: "addr option \<Rightarrow> unit cm" where
  "free_allocated_blocks check_point = bindM (nodes_after check_point) (\<lambda>is.
     forM is (\<lambda>i. cm_test_free (i + sizeof_MallocBlockInfoData + MALLOC_GUARD_SIZE) cmocka_c 2870))"

definition fail_if_blocks_allocated :: "addr option \<Rightarrow> string \<Rightarrow> unit cm" where
  "fail_if_blocks_allocated check_point test_name =
     bindM (display_allocated_blocks check_point) (\<lambda>allocated_blocks.
       whenM (allocated_blocks > 0)
         (seqM (free_allocated_blocks check_point)
         (seqM (cmocka_print_error (''ERROR: '' @ test_name @ '' leaked '' @ fmt_u allocated_blocks @ '' block(s)'' @ nl))
               (exit_test True))))"

section \<open>Facts on check points\<close>

lemma blocks_after_split:
  assumes "distinct (old @ new)"
  shows "blocks_after (case rev old of [] \<Rightarrow> None | i # _ \<Rightarrow> Some i) (old @ new) = Some new"
proof (cases old rule: rev_cases)
  case (snoc pre i)
  then have "i \<notin> set pre" using assms by simp
  then have "dropWhile (\<lambda>x. x \<noteq> i) (pre @ i # new) = i # new" by (induction pre) auto
  then show ?thesis using snoc by simp
qed simp

lemma live_info_nonzero: "heap_inv s \<Longrightarrow> i \<in> set (global_allocated_blocks s) \<Longrightarrow> i \<noteq> 0"
proof -
  assume inv: "heap_inv s" and "i \<in> set (global_allocated_blocks s)"
  then obtain d where d: "block_infos s i = Some d" using heap_invD(2) by blast
  note ok = heap_invD(4) [OF inv d, unfolded info_ok_def]
  then have l: "libc_blocks s (bi_block d) = Some (bi_size d + 120)" and sz: "unat (bi_size d) + 120 < 2 ^ 64"
    and i: "i = bi_block d + word_of_nat (user_offset (bi_block d) - 88)" by (simp_all add: user_parts)
  have "unat (bi_block d) + unat (bi_size d + 120) < 2 ^ 64" using heap_invD(3) [OF inv l] by (simp add: libc_block_ok_def)
  then have "unat (bi_block d) + (user_offset (bi_block d) - 88) < 2 ^ 64"
    using user_offset_bounds [of "bi_block d"] unat_plus_120 [OF sz] by linarith
  from unat_add_small [OF this] have "unat i \<noteq> 0" using user_offset_bounds(1) [of "bi_block d"] i by simp
  then show "i \<noteq> 0" by auto
qed

lemma display_blocks_run:
  assumes "heap_inv s" "set is \<subseteq> set (global_allocated_blocks s)"
  shows "\<exists>t. display_blocks n is s = (Ret (n + length is), t) \<and> msg_frame s t"
  using assms
proof (induction "is" arbitrary: n s)
  case (Cons i "is")
  then have "i \<in> dom (block_infos s)" using heap_invD(2) by auto
  then obtain d where d: "block_infos s i = Some d" by blast
  let ?a = "assert_non_null i cmocka_c 2841"
  let ?w = "whenM (n = 0) (cmocka_print_error (''Blocks allocated...'' @ nl))"
  have 1: "?a s = (Ret (), s)"
    using asserts_ptr(2) [of i 0 cmocka_c 2841 None] live_info_nonzero [OF Cons.prems(1), of i] Cons.prems(2)
    by (simp add: assert_non_null_def assertsM_def)
  obtain t where t: "?w s = (Ret (), t)" "msg_frame s t"
    using returnsM_unit [OF returnsM_whenM [OF returnsM_print]] by blast
  have dt: "block_infos t i = Some d" using d msg_frame_fields(12) [OF t(2)] by simp
  let ?m = "cmocka_print_error (fmt_loc (loc_file (bi_location d)) (loc_line (bi_location d)) @
             '': note: block '' @ fmt_p t (bi_block d) @ '' allocated here'' @ nl)"
  obtain u where u: "?m t = (Ret (), u)" "msg_frame t u"
    using returnsM_unit [OF returnsM_print] by blast
  have su: "msg_frame s u" by (rule msg_frame_trans [OF t(2) u(2)])
  have "heap_inv u" "set is \<subseteq> set (global_allocated_blocks u)"
    using heap.blind [OF su Cons.prems(1)] Cons.prems(2) msg_frame_fields(11) [OF su] by simp_all
  from Cons.IH [OF this, of "Suc n"] obtain v where v: "display_blocks (Suc n) is u = (Ret (Suc n + length is), v)"
    "msg_frame u v" by blast
  have ld: "load_block_info i t = (Ret d, t)"
    using dt heap_invD(5) [OF heap.blind [OF t(2) Cons.prems(1)] dt] by (simp add: load_block_info_def)
  have "display_blocks n (i # is) s = (Ret (n + length (i # is)), v)"
    unfolding display_blocks.simps seqM_Ret [where m = ?a, OF 1] seqM_Ret [where m = ?w, OF t(1)]
      bindM_Ret [where m = "load_block_info i", OF ld] bindM_readM seqM_Ret [where m = ?m, OF u(1)] v(1) by simp
  then show ?case using msg_frame_trans [OF su v(2)] by blast
qed simp

lemma user_of_info:
  "block_info_ptr (i + sizeof_MallocBlockInfoData + MALLOC_GUARD_SIZE) = i"
  by (simp add: block_info_ptr_def layout_defs)

text \<open>Releasing one block leaves the guards of the others as they are.\<close>

definition blocks_intact :: "cm_state \<Rightarrow> addr list \<Rightarrow> bool" where
  "blocks_intact s is \<longleftrightarrow> (\<forall>i \<in> set is. \<exists>d. block_infos s i = Some d \<and> guards_intact s (i + 88) d)"

lemma blocks_intact_frame: "msg_frame s t \<Longrightarrow> blocks_intact t is = blocks_intact s is"
  by (simp add: blocks_intact_def guards_intact_def msg_frame_fields)

lemma guards_after_free:
  assumes inv: "heap_inv s" and i: "block_infos s i = Some d" and j: "block_infos s j = Some e" "j \<noteq> i"
    and g: "guards_intact s (j + 88) e"
  shows "guards_intact (freed s i d) (j + 88) e"
proof -
  have ej: "block_infos s (block_info_ptr (j + 88)) = Some e" using j(1) by (simp add: block_info_ptr_def layout_defs)
  note live = live_block [OF heap_invD(6) [OF inv] ej]
  have di: "libc_blocks s (bi_block d) = Some (bi_allocated_size d)" "i = block_info_ptr (user_ptr (bi_block d))"
    using heap_invD(4) [OF inv i] by (simp_all add: info_ok_def)
  have "bi_block e \<noteq> bi_block d" using heap_invD(4) [OF inv j(1)] j(2) di(2) by (auto simp: info_ok_def)
  then have "region (bi_block e) (unat (bi_size e) + 120) \<inter> region (bi_block d) (unat (bi_allocated_size d)) = {}"
    using heap_invD(3) [OF inv live(5)] di(1) live(4) unat_plus_120 [OF live(3)] unfolding libc_block_ok_def by auto
  then have "x \<notin> region (bi_block d) (unat (bi_allocated_size d))" if "x \<in> set (guard_addrs (j + 88) e)" for x
    using that live(8) by blast
  then show ?thesis using g unfolding guards_intact_def list_all_iff by (simp add: freed_def unmap_region)
qed

lemma free_blocks_run:
  assumes "heap_inv s" "global_allocated_blocks s = old @ is @ rest" "blocks_intact s is"
  shows "\<exists>t. forM is (\<lambda>i. cm_test_free (i + sizeof_MallocBlockInfoData + MALLOC_GUARD_SIZE) fl ln) s = (Ret (), t)
    \<and> heap_inv t \<and> global_allocated_blocks t = old @ rest \<and> failure_outcome t = (failure_outcome s :: unit outcome)
    \<and> (\<forall>j \<in> set (old @ rest). block_infos t j = block_infos s j)"
  using assms
proof (induction "is" arbitrary: s)
  case (Cons i "is")
  let ?f = "\<lambda>i. cm_test_free (i + sizeof_MallocBlockInfoData + MALLOC_GUARD_SIZE) fl ln"
  obtain d where d: "block_infos s i = Some d" "guards_intact s (i + 88) d"
    using Cons.prems(3) by (auto simp: blocks_intact_def)
  let ?p = "i + sizeof_MallocBlockInfoData + MALLOC_GUARD_SIZE" and ?t = "freed s i d"
  have p: "?p = i + 88" by (simp add: layout_defs)
  have "block_infos s (block_info_ptr ?p) = Some d" using d(1) by (simp only: user_of_info)
  from test_free_run [OF Cons.prems(1) this, of fl ln] have 1: "?f i s = (Ret (), ?t)"
    using d(2) unfolding user_of_info by (simp add: p)
  have dist: "distinct (old @ (i # is) @ rest)" using heap_invD(1) [OF Cons.prems(1)] Cons.prems(2) by simp
  then have "remove1 i (old @ (i # is) @ rest) = old @ is @ rest" by (simp add: remove1_append)
  then have l: "global_allocated_blocks ?t = old @ is @ rest" using Cons.prems(2) by (simp add: freed_def)
  have "blocks_intact ?t is"
    unfolding blocks_intact_def
  proof
    fix j assume j: "j \<in> set is"
    then obtain e where e: "block_infos s j = Some e" "guards_intact s (j + 88) e"
      using Cons.prems(3) by (auto simp: blocks_intact_def)
    have "j \<noteq> i" using dist j by auto
    with guards_after_free [OF Cons.prems(1) d(1) e(1) _ e(2)] e(1)
    show "\<exists>e. block_infos ?t j = Some e \<and> guards_intact ?t (j + 88) e" by (simp add: freed_def)
  qed
  from Cons.IH [OF freed_inv [OF Cons.prems(1) d(1)] l this] obtain u
    where u: "forM is ?f ?t = (Ret (), u)" "heap_inv u" "global_allocated_blocks u = old @ rest"
      "failure_outcome u = (failure_outcome ?t :: unit outcome)" "\<forall>j \<in> set (old @ rest). block_infos u j = block_infos ?t j"
    by (elim exE conjE)
  have "failure_outcome ?t = (failure_outcome s :: unit outcome)" by (simp add: freed_def failure_outcome_def test_abort_def)
  moreover have "\<forall>j \<in> set (old @ rest). block_infos ?t j = block_infos s j"
    using dist by (auto simp: freed_def)
  moreover have "forM (i # is) ?f s = (Ret (), u)"
    unfolding forM.simps seqM_Ret [where m = "?f i", OF 1] by (rule u(1))
  ultimately show ?case using u by (intro exI [of _ u]) simp
qed simp

lemma fail_if_blocks_run:
  assumes inv: "heap_inv s" and l: "global_allocated_blocks s = old @ new" and g: "blocks_intact s new"
    and c: "cp = (case rev old of [] \<Rightarrow> None | i # _ \<Rightarrow> Some i)"
  shows "if new = [] then fail_if_blocks_allocated cp name s = (Ret (), s)
    else \<exists>t. fail_if_blocks_allocated cp name s = (failure_outcome s, t) \<and> heap_inv t
      \<and> global_allocated_blocks t = old \<and> (\<forall>j \<in> set old. block_infos t j = block_infos s j)"
proof -
  have "distinct (old @ new)" using heap_invD(1) [OF inv] l by simp
  from blocks_after_split [OF this] have after: "nodes_after cp s = (Ret new, s)"
    by (simp add: nodes_after_def l c)
  show ?thesis
  proof (cases "new = []")
    case True
    have "display_allocated_blocks cp s = (Ret 0, s)"
      unfolding display_allocated_blocks_def bindM_Ret [where m = "nodes_after cp", OF after] True by simp
    then show ?thesis using True by (simp add: fail_if_blocks_allocated_def bindM_apply)
  next
    case False
    have "set new \<subseteq> set (global_allocated_blocks s)" using l by simp
    from display_blocks_run [OF inv this, of 0] obtain t
      where t: "display_blocks 0 new s = (Ret (0 + length new), t)" "msg_frame s t" by blast
    have disp: "display_allocated_blocks cp s = (Ret (length new), t)"
      unfolding display_allocated_blocks_def bindM_Ret [where m = "nodes_after cp", OF after] using t(1) by simp
    have lt: "global_allocated_blocks t = old @ new @ []" using l msg_frame_fields(11) [OF t(2)] by simp
    have "blocks_intact t new" using g blocks_intact_frame [OF t(2)] by simp
    from free_blocks_run [OF heap.blind [OF t(2) inv] lt this, of cmocka_c 2870] obtain u
      where u: "forM new (\<lambda>i. cm_test_free (i + sizeof_MallocBlockInfoData + MALLOC_GUARD_SIZE) cmocka_c 2870) t = (Ret (), u)"
        "heap_inv u" "global_allocated_blocks u = old @ []" "failure_outcome u = (failure_outcome t :: unit outcome)"
        "\<forall>j \<in> set (old @ []). block_infos u j = block_infos t j" by (elim exE conjE)
    have "nodes_after cp t = (Ret new, t)"
      using after msg_frame_fields(11) [OF t(2)] by (simp add: nodes_after_def split: option.splits)
    then have free: "free_allocated_blocks cp t = (Ret (), u)"
      using u(1) by (simp add: free_allocated_blocks_def bindM_apply)
    let ?say = "cmocka_print_error (''ERROR: '' @ name @ '' leaked '' @ fmt_u (length new) @ '' block(s)'' @ nl)"
    obtain v where v: "?say u = (Ret (), v)" "msg_frame u v" using returnsM_unit [OF returnsM_print] by blast
    have "msg_frame v (snd (exit_test True v))" using framesM_exit_test by (simp add: framesM_def)
    with v(2) have uw: "msg_frame u (snd (exit_test True v))" by (rule msg_frame_trans)
    have "fst (exit_test True v) = failure_outcome s"
      using exit_test_outcome [of v] failure_outcome_frame [OF v(2), where 'a = unit] u(4)
        failure_outcome_frame [OF t(2), where 'a = unit] by simp
    moreover have pos: "length new > 0" using False by simp
    have "fail_if_blocks_allocated cp name s = exit_test True v"
      unfolding fail_if_blocks_allocated_def bindM_Ret [where m = "display_allocated_blocks cp", OF disp]
        whenM_def if_P [OF pos] seqM_Ret [where m = "free_allocated_blocks cp", OF free]
        seqM_Ret [where m = ?say, OF v(1)] by (rule refl)
    ultimately have run: "fail_if_blocks_allocated cp name s = (failure_outcome s, snd (exit_test True v))"
      by (simp add: prod_eq_iff)
    have "heap_inv (snd (exit_test True v))" by (rule heap.blind [OF uw u(2)])
    moreover have "global_allocated_blocks (snd (exit_test True v)) = old" using msg_frame_fields(11) [OF uw] u(3) by simp
    moreover have "\<forall>j \<in> set old. block_infos (snd (exit_test True v)) j = block_infos s j"
      using u(5) msg_frame_fields(12) [OF uw] msg_frame_fields(12) [OF t(2)] by simp
    ultimately show ?thesis unfolding if_not_P [OF False] using run by blast
  qed
qed

section \<open>Properties\<close>

text \<open>
  C18. The leak check is exact. Take the check point of a state in which the blocks \<open>old\<close> are
  allocated, and let \<open>new\<close> be allocated behind them later on, with intact guards. The check
  returns and changes nothing exactly when \<open>new\<close> is empty. Otherwise it releases all
  of \<open>new\<close> and nothing of \<open>old\<close>, and leaves the test.
\<close>

theorem leak_check_exact:
  assumes "global_allocated_blocks s0 = old" and "check_point_allocated_blocks s0 = (Ret cp, s0)"
    and "heap_inv s" and "global_allocated_blocks s = old @ new" and "blocks_intact s new"
  shows "if new = [] then fail_if_blocks_allocated cp name s = (Ret (), s)
    else \<exists>t. fail_if_blocks_allocated cp name s = (failure_outcome s, t) \<and> heap_inv t
      \<and> global_allocated_blocks t = old \<and> (\<forall>j \<in> set old. block_infos t j = block_infos s j)"
  using assms(2) by (intro fail_if_blocks_run [OF assms(3-5)]) (simp add: check_point_allocated_blocks_def assms(1))

text \<open>
  C33. A check point is the list node of the newest block. When a test releases that
  block, which was allocated before the test started, the check at the end of the test reads
  the released node: its behaviour is undefined.
\<close>

theorem check_point_released:
  assumes "heap_inv s" and "check_point_allocated_blocks s = (Ret (Some i), s)"
    and "cm_test_free (i + 88) fl ln s = (Ret (), t)"
  shows "fst (fail_if_blocks_allocated (Some i) name t) = Undefined"
proof -
  have i: "i \<in> set (global_allocated_blocks s)"
    using assms(2) by (auto simp: check_point_allocated_blocks_def split: list.splits)
  then obtain d where d: "block_infos s i = Some d" using heap_invD(2) [OF assms(1)] by blast
  have e: "block_info_ptr (i + 88) = i" by (simp add: block_info_ptr_def layout_defs)
  have t: "t = freed s i d"
  proof (cases "guards_intact s (i + 88) d")
    case True
    then show ?thesis using test_free_run [OF assms(1), of "i + 88" d fl ln] assms(3) d e by simp
  next
    case False
    then have "failure_outcome s = Ret ()"
      using test_free_run [OF assms(1), of "i + 88" d fl ln] assms(3) d e by simp
    then show ?thesis by simp
  qed
  have "i \<notin> set (global_allocated_blocks t)" using heap_invD(1) [OF assms(1)] by (simp add: t freed_def)
  then have "nodes_after (Some i) t = (Undefined, t)" by (simp add: nodes_after_def)
  then show ?thesis by (simp add: fail_if_blocks_allocated_def display_allocated_blocks_def bindM_apply)
qed

section \<open>Reachable states of the allocator\<close>

lemma test_free_inv:
  assumes "heap_inv s" "block_infos s (block_info_ptr p) = Some d"
  shows "heap_inv (snd (cm_test_free p fl ln s))"
    and "block_info_ptr p \<noteq> j \<Longrightarrow> block_infos (snd (cm_test_free p fl ln s)) j = block_infos s j"
proof -
  note run = test_free_run [OF assms, of fl ln]
  show "heap_inv (snd (cm_test_free p fl ln s))"
    using run freed_inv [OF assms] heap.blind [OF _ assms(1)] by (cases "guards_intact s p d") auto
  show "block_infos (snd (cm_test_free p fl ln s)) j = block_infos s j" if "block_info_ptr p \<noteq> j"
    using run that by (cases "guards_intact s p d") (auto simp: freed_def msg_frame_fields)
qed

lemma free_blocks_inv:
  assumes "heap_inv s" "\<forall>i \<in> set is. block_infos s i \<noteq> None" "distinct is"
  shows "heap_inv (snd (forM is (\<lambda>i. cm_test_free (i + sizeof_MallocBlockInfoData + MALLOC_GUARD_SIZE) fl ln) s))"
  using assms
proof (induction "is" arbitrary: s)
  case (Cons i "is")
  let ?f = "\<lambda>i. cm_test_free (i + sizeof_MallocBlockInfoData + MALLOC_GUARD_SIZE) fl ln"
  obtain d where d: "block_infos s i = Some d" using Cons.prems(2) by auto
  then have "block_infos s (block_info_ptr (i + sizeof_MallocBlockInfoData + MALLOC_GUARD_SIZE)) = Some d"
    by (simp only: user_of_info)
  note f = test_free_inv [OF Cons.prems(1) this, where fl = fl and ln = ln, unfolded user_of_info]
  obtain r t where rt: "?f i s = (r, t)" by (cases "?f i s")
  have "block_infos t j = block_infos s j" if "j \<in> set is" for j
    using f(2) [of j] that Cons.prems(3) rt by auto
  then have t: "heap_inv t" "\<forall>j \<in> set is. block_infos t j \<noteq> None"
    using f(1) Cons.prems(2) rt by simp_all
  from Cons.IH [OF t] Cons.prems(3) have "heap_inv (snd (forM is ?f t))" by simp
  then show ?case using rt t(1) by (cases r) (simp_all add: seqM_apply bindM_apply)
qed simp

lemma display_keeps: "keepsM heap_inv (display_blocks n is)"
proof (induction "is" arbitrary: n)
  case (Cons i "is")
  have "framesM (assert_non_null i fl ln)" for fl ln
    unfolding assert_non_null_def cm_assert_ptr_not_equal_msg_def ptr_values_not_equal_display_error_def display_if_not_def
    by (intro cm_mono)
  then show ?case
    unfolding display_blocks.simps
    by (intro keepsM_seqM keepsM_bindM Cons heap.keeps_framed framesM_whenM framesM_print framesM_basic)
       (simp_all add: framesM_def load_block_info_def split: option.split)
qed (simp add: cm_mono)

lemma blocks_after_sub:
  assumes "blocks_after cp bs = Some is"
  shows "set is \<subseteq> set bs \<and> (distinct bs \<longrightarrow> distinct is)"
proof (cases cp)
  case (Some i)
  then have "is = tl (dropWhile (\<lambda>x. x \<noteq> i) bs)" using assms by (simp split: if_splits)
  moreover have "set (tl xs) \<subseteq> set xs" for xs :: "addr list" by (cases xs) auto
  ultimately show ?thesis using set_dropWhileD by (metis distinct_dropWhile distinct_tl subset_iff)
qed (use assms in simp)

lemma fail_if_blocks_inv:
  assumes "heap_inv s"
  shows "heap_inv (snd (fail_if_blocks_allocated cp name s))"
proof -
  have nodes: "snd (nodes_after cp u) = u" for u by (simp add: nodes_after_def split: option.split)
  have "keepsM heap_inv (display_allocated_blocks cp)"
    unfolding display_allocated_blocks_def
    by (intro keepsM_bindM display_keeps keepsMI) (simp add: nodes)
  moreover have "keepsM heap_inv (free_allocated_blocks cp)"
  proof (rule keepsMI)
    fix u assume u: "heap_inv u"
    show "heap_inv (snd (free_allocated_blocks cp u))"
    proof (cases "blocks_after cp (global_allocated_blocks u)")
      case None
      then show ?thesis using u by (simp add: free_allocated_blocks_def bindM_apply nodes_after_def)
    next
      case (Some "is")
      have "set is \<subseteq> set (global_allocated_blocks u)" "distinct is"
        using blocks_after_sub [OF Some] heap_invD(1) [OF u] by blast+
      then have "heap_inv (snd (forM is (\<lambda>i. cm_test_free (i + sizeof_MallocBlockInfoData + MALLOC_GUARD_SIZE) cmocka_c 2870) u))"
        using heap_invD(2) [OF u] by (intro free_blocks_inv [OF u]) auto
      then show ?thesis using Some by (simp add: free_allocated_blocks_def bindM_apply nodes_after_def)
    qed
  qed
  ultimately have "keepsM heap_inv (fail_if_blocks_allocated cp name)"
    unfolding fail_if_blocks_allocated_def
    by (intro keepsM_bindM keepsM_whenM keepsM_seqM heap.keeps_print heap.keeps_exit)
  then show ?thesis using assms by (rule keepsMD)
qed

text \<open>A pointer the caller may pass to \<^verbatim>\<open>free\<close> and \<^verbatim>\<open>realloc\<close>.\<close>

definition live_ptr :: "cm_state \<Rightarrow> addr \<Rightarrow> bool" where
  "live_ptr s p \<longleftrightarrow> p = 0 \<or> block_infos s (block_info_ptr p) \<noteq> None"

inductive alloc_step :: "cm_state \<Rightarrow> cm_state \<Rightarrow> bool" where
  Step_malloc: "fresh_block s (sz + 120) \<Longrightarrow> alloc_step s (snd (cm_test_malloc sz fl ln s))"
| Step_calloc: "fresh_block s (n * sz + 120) \<Longrightarrow> alloc_step s (snd (cm_test_calloc n sz fl ln s))"
| Step_realloc: "fresh_block s (sz + 120) \<Longrightarrow> live_ptr s p \<Longrightarrow> alloc_step s (snd (cm_test_realloc p sz fl ln s))"
| Step_free: "live_ptr s p \<Longrightarrow> alloc_step s (snd (cm_test_free p fl ln s))"
| Step_write: "memory s a \<noteq> None \<Longrightarrow> \<forall>i \<in> set (global_allocated_blocks s). a \<notin> region i (unat sizeof_MallocBlockInfoData)
    \<Longrightarrow> alloc_step s (s\<lparr>memory := (memory s)(a \<mapsto> b)\<rparr>)"
| Step_check: "alloc_step s (snd (fail_if_blocks_allocated cp name s))"

lemma free_inv:
  assumes "heap_inv s" "live_ptr s p"
  shows "heap_inv (snd (cm_test_free p fl ln s))"
proof (cases "p = 0")
  case True
  then show ?thesis using assms(1) by (simp add: cm_test_free_def)
next
  case False
  then obtain d where "block_infos s (block_info_ptr p) = Some d" using assms(2) by (auto simp: live_ptr_def)
  then show ?thesis by (rule test_free_inv(1) [OF assms(1)])
qed

lemma seqM_ret_snd: "snd (seqM m (retM x) s) = snd (m s)"
  by (cases "m s", cases "fst (m s)") (auto simp: seqM_apply bindM_apply)

lemma bindM_fails_snd: "fst (m s) = failure_outcome u \<Longrightarrow> snd (bindM m f s) = snd (m s)"
  using bindM_leaves [where m = m and s = s and f = f] by blast

lemma calloc_inv:
  assumes inv: "heap_inv s" and f: "fresh_block s (n * sz + 120)"
  shows "heap_inv (snd (cm_test_calloc n sz fl ln s))"
proof (cases "sz > 0 \<and> n > SIZE_MAX div sz")
  case True
  have "heap_inv (s\<lparr>cm_errno := ENOMEM\<rparr>)" using inv by (simp add: heap_defs)
  then show ?thesis using True by (simp add: cm_test_calloc_def run_simps)
next
  case False
  show ?thesis
  proof (cases "malloc_succeeds s (n * sz)")
    case True
    have "unat n * unat sz < 2 ^ 64" using False calloc_guard [of sz n] by (simp add: not_le)
    from calloc_run [OF inv f True this, of fl ln] show ?thesis by (elim exE conjE) simp
  next
    case fails: False
    have "snd (cm_test_calloc n sz fl ln s) = snd (cm_test_malloc (n * sz) fl ln s)"
      unfolding cm_test_calloc_def if_not_P [OF False] by (rule bindM_fails_snd [where m = "cm_test_malloc _ _ _", OF test_malloc_fails(1) [OF fails]])
    then show ?thesis using test_malloc_inv [OF inv f] by simp
  qed
qed

lemma realloc_inv:
  assumes inv: "heap_inv s" and f: "fresh_block s (sz + 120)" and p: "live_ptr s p"
  shows "heap_inv (snd (cm_test_realloc p sz fl ln s))"
proof -
  consider "p = 0" | "p \<noteq> 0" "sz = 0" | "p \<noteq> 0" "sz \<noteq> 0" "\<not> malloc_succeeds s sz" | "p \<noteq> 0" "sz \<noteq> 0" "malloc_succeeds s sz"
    by blast
  then show ?thesis
  proof cases
    case 1
    then show ?thesis using test_malloc_inv [OF inv f] by (simp add: cm_test_realloc_def)
  next
    case 2
    then show ?thesis using free_inv [OF inv p] by (simp add: cm_test_realloc_def seqM_ret_snd)
  next
    case 3
    have "snd (cm_test_realloc p sz fl ln s) = snd (cm_test_malloc sz fl ln s)"
      unfolding cm_test_realloc_def if_not_P [OF 3(1)] if_not_P [OF 3(2)]
      by (rule bindM_fails_snd [where m = "cm_test_malloc _ _ _", OF test_malloc_fails(1) [OF 3(3)]])
    then show ?thesis using test_malloc_inv [OF inv f] by simp
  next
    case 4
    then obtain d where d: "block_infos s (block_info_ptr p) = Some d" using p by (auto simp: live_ptr_def)
    from realloc_copies [OF inv d f 4(2,3), of fl ln] show ?thesis
    proof (elim exE conjE)
      fix a t assume "cm_test_realloc p sz fl ln s = seqM (cm_test_free p fl ln) (retM (user_ptr a)) t"
        "heap_inv t" "block_infos t (block_info_ptr p) = Some d"
      then show ?thesis using test_free_inv(1) by (simp add: seqM_ret_snd)
    qed
  qed
qed

lemma alloc_step_inv: "alloc_step s t \<Longrightarrow> heap_inv s \<Longrightarrow> heap_inv t"
proof (induction rule: alloc_step.induct)
  case (Step_write s a b)
  then have "dom ((memory s)(a \<mapsto> b)) = dom (memory s)" by auto
  moreover have "((memory s)(a \<mapsto> b)) x = memory s x" if "block_infos s i = Some d" "x \<in> region i 72" for i d x
    using that Step_write(2) heap_invD(2) [OF Step_write(3)] by (auto simp: layout_defs)
  ultimately show ?case by (intro heap_inv_memory [OF Step_write(3)]) blast+
qed (simp_all add: test_malloc_inv calloc_inv realloc_inv free_inv fail_if_blocks_inv)

text \<open>
  C19. Take any order of allocations, releases of live blocks, leak checks and stores by the
  program to mapped memory, whatever the outcome of each, from the initial state of the process,
  where the C library hands out fresh memory with any content and the program stores to no
  header of a live block (data areas, guards and all other memory it may change). In every
  state this reaches the heap is well-formed: the list holds each live block exactly
  once, every header is in memory as the allocation stored it and describes a block of the C library in which header,
  guards and data lie, and no two blocks overlap. (A store into a header is left out because it
  ends the invariant: see \<open>header_overwritten\<close>.)
\<close>

theorem allocator_invariant:
  assumes "alloc_step\<^sup>*\<^sup>* ((initial_state env pt lit oa mf mem)\<lparr>libc_garbage := g, info_image := im\<rparr>) t"
  shows "heap_inv t"
  using assms by (induction rule: rtranclp_induct) (auto simp: initial_heap_inv intro: alloc_step_inv)

section \<open>Witnesses\<close>

lemma one_block_list: "global_allocated_blocks one_block = [] @ [block_info_ptr (user_ptr 4096)]"
  "global_allocated_blocks empty_heap = []" "blocks_intact one_block [block_info_ptr (user_ptr 4096)]"
proof -
  show e: "global_allocated_blocks empty_heap = []" by (simp add: empty_heap_def initial_state_def)
  show "global_allocated_blocks one_block = [] @ [block_info_ptr (user_ptr 4096)]"
    using one_block_view(9) e by simp
  have "block_info_ptr (user_ptr 4096) + 88 = user_ptr 4096" by (simp add: block_info_ptr_def layout_defs)
  then show "blocks_intact one_block [block_info_ptr (user_ptr 4096)]"
    using one_block_view(1,2) by (simp add: blocks_intact_def)
qed

theorem leak_check_exact_witness:
  "\<exists>t. fail_if_blocks_allocated None ''a_test'' one_block = (failure_outcome one_block, t)
     \<and> global_allocated_blocks t = []"
proof -
  have "check_point_allocated_blocks empty_heap = (Ret None, empty_heap)"
    by (simp add: check_point_allocated_blocks_def one_block_list(2))
  from leak_check_exact [OF one_block_list(2) this empty_heap_facts(5) one_block_list(1,3), of "''a_test''"]
  show ?thesis by auto
qed

theorem check_point_released_witness:
  "\<exists>t. cm_test_free (user_ptr 4096) ''t.c'' 8 one_block = (Ret (), t)
     \<and> fst (fail_if_blocks_allocated (Some (block_info_ptr (user_ptr 4096))) ''a_test'' t) = Undefined"
proof -
  let ?i = "block_info_ptr (user_ptr 4096)" and ?t = "freed one_block (block_info_ptr (user_ptr 4096)) (block_info 4096 4 ''t.c'' 7)"
  have e: "?i + 88 = user_ptr 4096" by (simp add: block_info_ptr_def layout_defs)
  have free: "cm_test_free (user_ptr 4096) ''t.c'' 8 one_block = (Ret (), ?t)"
    using test_free_run [OF empty_heap_facts(5) one_block_view(1), of "''t.c''" 8] one_block_view(2) by simp
  have "check_point_allocated_blocks one_block = (Ret (Some ?i), one_block)"
    using one_block_list(1) by (simp add: check_point_allocated_blocks_def)
  from check_point_released [OF empty_heap_facts(5) this, of "''t.c''" 8, unfolded e, OF free, of "''a_test''"] free
  show ?thesis by blast
qed

theorem allocator_invariant_witness:
  "heap_inv (one_block\<lparr>memory := (memory one_block)(user_ptr 4096 \<mapsto> 1)\<rparr>)"
proof -
  let ?s = "empty_heap\<lparr>libc_garbage := libc_garbage empty_heap, info_image := info_image empty_heap\<rparr>"
  have s: "?s = empty_heap" by simp
  have "alloc_step empty_heap (snd (cm_test_malloc 4 ''t.c'' 7 empty_heap))"
    by (rule Step_malloc [OF empty_heap_facts(2)])
  then have 1: "alloc_step ?s one_block" unfolding s by (simp add: empty_heap_facts(4))
  have d: "user_ptr 4096 \<in> region (user_ptr 4096) (unat (4 :: 64 word))" by (simp add: region_def)
  have "memory one_block (user_ptr 4096) \<noteq> None"
    using block_memory_at(1) [OF _ d] by (simp add: one_block_def malloced_def)
  moreover have "user_ptr 4096 \<notin> region (block_info_ptr (user_ptr 4096)) 72"
    using user_disjoint(6) [of 4 4096] d by auto
  ultimately have "alloc_step one_block (one_block\<lparr>memory := (memory one_block)(user_ptr 4096 \<mapsto> 1)\<rparr>)"
    by (intro Step_write) (simp_all add: one_block_list(1) layout_defs)
  with 1 have "alloc_step\<^sup>*\<^sup>* ?s (one_block\<lparr>memory := (memory one_block)(user_ptr 4096 \<mapsto> 1)\<rparr>)" by simp
  then show ?thesis unfolding empty_heap_def by (rule allocator_invariant)
qed

end
