(* ===== verification/Report.thy ===== *)
theory Report
  imports Cm_State C_String
begin

unbundle bit_operations_syntax

text \<open>
  The reports of \<^verbatim>\<open>src/cmocka.c\<close>: what \<^verbatim>\<open>cmprintf\<close>, \<^verbatim>\<open>cmprintf_group_start\<close>
  and \<^verbatim>\<open>cmprintf_group_finish\<close> write for each of the selected formats (standard, TAP,
  subunit, XML). \<^verbatim>\<open>print_message\<close> goes to standard output, \<^verbatim>\<open>print_error\<close> to standard
  error, the XML report to standard output or to the file named by
  \<^verbatim>\<open>CMOCKA_XML_FILE\<close>. The properties: every line of a TAP diagnostic is a comment,
  a TAP plan announces the number of result lines, and reports leave the rest of the state alone.
\<close>

section \<open>Tests and their results\<close>

type_synonym CMUnitTestFunction = "nat \<Rightarrow> unit cm"
type_synonym CMFixtureFunction = "nat \<Rightarrow> int cm"

text \<open>
  A test function gets the address of a state variable, here the number of the variable in
  \<open>state_cells\<close>. Function pointers and names may be NULL.
\<close>

record CMUnitTest =
  test_name :: "string option"
  test_func :: "CMUnitTestFunction option"
  setup_func :: "CMFixtureFunction option"
  teardown_func :: "CMFixtureFunction option"
  initial_state_ptr :: addr

datatype CMUnitTestStatus =
    CM_TEST_NOT_STARTED | CM_TEST_PASSED | CM_TEST_FAILED | CM_TEST_ERROR | CM_TEST_SKIPPED

record CMUnitTestState =
  ts_check_point :: "addr option option"
  ts_test :: CMUnitTest
  ts_state :: nat
  ts_error_message :: "string option"
  ts_status :: CMUnitTestStatus
  ts_runtime :: double

datatype cm_printf_type =
    PRINTF_TEST_START | PRINTF_TEST_SUCCESS | PRINTF_TEST_FAILURE | PRINTF_TEST_ERROR | PRINTF_TEST_SKIPPED

definition fmt_unsigned :: "nat \<Rightarrow> string" where
  "fmt_unsigned n = fmt_u (unat (word_of_nat n :: 32 word))"

definition quote :: string where "quote = [CHR 0x22]"

section \<open>The standard format\<close>

definition cmprintf_group_start_standard :: "string \<Rightarrow> nat \<Rightarrow> unit cm" where
  "cmprintf_group_start_standard group_name num_tests =
     print_message (''[==========] '' @ group_name @ '': Running '' @ fmt_u num_tests @ '' test(s).'' @ nl)"

definition list_tests :: "CMUnitTestStatus \<Rightarrow> string \<Rightarrow> CMUnitTestState list \<Rightarrow> unit cm" where
  "list_tests st tag cm_tests = forM cm_tests (\<lambda>cmtest.
     whenM (ts_status cmtest = st) (print_error (tag @ fmt_s (test_name (ts_test cmtest)) @ nl)))"

definition cmprintf_group_finish_standard ::
  "string \<Rightarrow> nat \<Rightarrow> nat \<Rightarrow> nat \<Rightarrow> nat \<Rightarrow> nat \<Rightarrow> CMUnitTestState list \<Rightarrow> unit cm" where
  "cmprintf_group_finish_standard group_name total_executed total_passed total_failed total_errors total_skipped cm_tests =
     seqM (print_message (''[==========] '' @ group_name @ '': '' @ fmt_u total_executed @ '' test(s) run.'' @ nl))
    (seqM (print_error (''[  PASSED  ] '' @ fmt_unsigned total_passed @ '' test(s).'' @ nl))
    (seqM (whenM (total_skipped \<noteq> 0)
       (seqM (print_error (''[  SKIPPED ] '' @ group_name @ '': '' @ fmt_u total_skipped @ '' test(s), listed below:'' @ nl))
       (seqM (list_tests CM_TEST_SKIPPED ''[  SKIPPED ] '' (take total_executed cm_tests))
             (print_error (nl @ '' '' @ fmt_u total_skipped @ '' SKIPPED TEST(S)'' @ nl)))))
          (whenM (total_failed \<noteq> 0)
       (seqM (print_error (''[  FAILED  ] '' @ group_name @ '': '' @ fmt_u total_failed @ '' test(s), listed below:'' @ nl))
       (seqM (list_tests CM_TEST_FAILED ''[  FAILED  ] '' (take total_executed cm_tests))
             (print_error (nl @ '' '' @ fmt_u (total_failed + total_errors) @ '' FAILED TEST(S)'' @ nl)))))))"

definition cmprintf_standard :: "cm_printf_type \<Rightarrow> string \<Rightarrow> string option \<Rightarrow> unit cm" where
  "cmprintf_standard ty name error_message = (case ty of
     PRINTF_TEST_START \<Rightarrow> print_message (''[ RUN      ] '' @ name @ nl)
   | PRINTF_TEST_SUCCESS \<Rightarrow> print_message (''[       OK ] '' @ name @ nl)
   | PRINTF_TEST_FAILURE \<Rightarrow>
       seqM (case error_message of None \<Rightarrow> retM () | Some m \<Rightarrow> print_error (''[  ERROR   ] --- '' @ m @ nl))
            (print_message (''[  FAILED  ] '' @ name @ nl))
   | PRINTF_TEST_SKIPPED \<Rightarrow> print_message (''[  SKIPPED ] '' @ name @ nl)
   | PRINTF_TEST_ERROR \<Rightarrow>
       seqM (case error_message of None \<Rightarrow> retM () | Some m \<Rightarrow> print_error (m @ nl))
            (print_error (''[  ERROR   ] '' @ name @ nl)))"

section \<open>TAP\<close>

definition cmprintf_group_start_tap :: "nat \<Rightarrow> unit cm" where
  "cmprintf_group_start_tap num_tests =
     bindM (readM tap_version_printed) (\<lambda>version_printed.
     seqM (whenM (\<not> version_printed)
             (seqM (print_message (''TAP version 13'' @ nl)) (modM (\<lambda>s. s\<lparr>tap_version_printed := True\<rparr>))))
          (print_message (''1..'' @ fmt_unsigned num_tests @ nl)))"

definition cmprintf_group_finish_tap :: "string \<Rightarrow> nat \<Rightarrow> nat \<Rightarrow> nat \<Rightarrow> unit cm" where
  "cmprintf_group_finish_tap group_name total_executed total_passed total_skipped =
     (let status = (if total_passed + total_skipped = total_executed then ''ok'' else ''not ok'') in
      print_message (''# '' @ status @ '' - '' @ group_name @ nl))"

text \<open>
  The loop that cuts the message at every newline; what follows the last newline is printed
  only if it is not empty. \<^verbatim>\<open>strdup\<close> is taken to succeed.
\<close>

function tap_lines :: "string \<Rightarrow> string list" where
  "tap_lines p = (if p = [] then []
     else let q = takeWhile (\<lambda>c. c \<noteq> CHR 0x0A) p; r = dropWhile (\<lambda>c. c \<noteq> CHR 0x0A) p in
       (case r of [] \<Rightarrow> [q] | _ # r' \<Rightarrow> q # tap_lines r'))"
  by pat_completeness auto
termination
proof (relation "measure length")
  fix p q r :: string and c r'
  assume "p \<noteq> []" "r = dropWhile (\<lambda>c. c \<noteq> CHR 0x0A) p" "r = c # r'"
  then have "length (c # r') \<le> length p" by (metis length_dropWhile_le)
  then show "(r', p) \<in> measure length" by simp
qed simp

declare tap_lines.simps [simp del]

definition cmprintf_tap :: "cm_printf_type \<Rightarrow> nat \<Rightarrow> string \<Rightarrow> string option \<Rightarrow> unit cm" where
  "cmprintf_tap ty test_number name error_message = (case ty of
     PRINTF_TEST_START \<Rightarrow> retM ()
   | PRINTF_TEST_SUCCESS \<Rightarrow> print_message (''ok '' @ fmt_unsigned test_number @ '' - '' @ name @ nl)
   | PRINTF_TEST_FAILURE \<Rightarrow>
       seqM (print_message (''not ok '' @ fmt_unsigned test_number @ '' - '' @ name @ nl))
            (case error_message of None \<Rightarrow> retM ()
             | Some m \<Rightarrow> forM (tap_lines m) (\<lambda>q. print_message (''# '' @ q @ nl)))
   | PRINTF_TEST_SKIPPED \<Rightarrow> print_message (''ok '' @ fmt_unsigned test_number @ '' # SKIP '' @ name @ nl)
   | PRINTF_TEST_ERROR \<Rightarrow>
       print_message (''not ok '' @ fmt_unsigned test_number @ '' - '' @ name @ '' '' @ fmt_s error_message @ nl))"

section \<open>Subunit\<close>

definition cmprintf_subunit :: "cm_printf_type \<Rightarrow> string \<Rightarrow> string option \<Rightarrow> unit cm" where
  "cmprintf_subunit ty name error_message = (case ty of
     PRINTF_TEST_START \<Rightarrow> print_message (''test: '' @ name @ nl)
   | PRINTF_TEST_SUCCESS \<Rightarrow> print_message (''success: '' @ name @ nl)
   | PRINTF_TEST_FAILURE \<Rightarrow>
       seqM (print_message (''failure: '' @ name))
            (case error_message of None \<Rightarrow> retM () | Some m \<Rightarrow> print_message ('' ['' @ nl @ m @ nl @ '']'' @ nl))
   | PRINTF_TEST_SKIPPED \<Rightarrow> print_message (''skip: '' @ name @ nl)
   | PRINTF_TEST_ERROR \<Rightarrow> print_message (''error: '' @ name @ '' [ '' @ fmt_s error_message @ '' ]'' @ nl))"

section \<open>XML\<close>

datatype stream_out = Out_stdout | Out_stderr | Out_file string

fun fprintf_s :: "stream_out \<Rightarrow> string \<Rightarrow> unit cm" where
  "fprintf_s Out_stdout txt = vprint_message txt"
| "fprintf_s Out_stderr txt = vprint_error txt"
| "fprintf_s (Out_file p) txt =
     modM (\<lambda>s. s\<lparr>files := (files s)(p \<mapsto> (case files s p of None \<Rightarrow> [] | Some c \<Rightarrow> c) @ txt)\<rparr>)"

text \<open>
  Where the report goes. The path is the value of \<^verbatim>\<open>CMOCKA_XML_FILE\<close> with
  \<^verbatim>\<open>%g\<close> replaced by the group name in a buffer of 1024 characters, or the value itself if
  the replacement does not fit. (The calls on the buffer return and stay in its bounds, see
  \<open>c_strreplace_buffer\<close>; the other cases do not occur.) A file that exists is reused only when this process has
  written one before.
\<close>

definition xml_path :: "string \<Rightarrow> string \<Rightarrow> string" where
  "xml_path env group_name =
     (let buf = (case snprintf_s (replicate 1024 NUL) 1024 env of Out_of_bounds \<Rightarrow> [] | In_bounds b \<Rightarrow> b) in
      case c_strreplace (Some buf) 1024 (Some ''%g'') (Some group_name) None of
        Some (In_bounds r) \<Rightarrow> (if sr_ok r then (case sr_src r of None \<Rightarrow> cstr buf | Some b \<Rightarrow> cstr b) else cstr buf)
      | _ \<Rightarrow> cstr buf)"

definition open_xml_file :: "string \<Rightarrow> (stream_out \<times> bool) cm" where
  "open_xml_file group_name = bindM (readM (\<lambda>s. s)) (\<lambda>s.
     case env_vars s ''CMOCKA_XML_FILE'' of
       None \<Rightarrow> retM (Out_stdout, False)
     | Some env \<Rightarrow>
         (let buf = xml_path env group_name in
          case files s buf of
            None \<Rightarrow>
              if file_writable s buf
              then seqM (modM (\<lambda>s. s\<lparr>files := (files s)(buf \<mapsto> []), file_append := True\<rparr>)) (retM (Out_file buf, True))
              else retM (Out_stderr, False)
          | Some _ \<Rightarrow>
              if file_append s \<and> file_writable s buf
              then seqM (modM (\<lambda>s. s\<lparr>xml_printed := True\<rparr>)) (retM (Out_file buf, True))
              else retM (Out_stderr, False)))"

definition xml_name :: "string \<Rightarrow> string" where
  "xml_name src = (case cmprepare_xml_attribute_string (replicate 1024 NUL) 1024 src of
     Some (In_bounds b) \<Rightarrow> cstr b | _ \<Rightarrow> [])"

definition xml_failure :: "stream_out \<Rightarrow> string option \<Rightarrow> unit cm" where
  "xml_failure fp error_message = (case error_message of
     Some m \<Rightarrow> fprintf_s fp (''      <failure><![CDATA['' @ m @ '']]></failure>'' @ nl)
   | None \<Rightarrow> fprintf_s fp (''      <failure message='' @ quote @ ''Unknown error'' @ quote @ '' />'' @ nl))"

definition xml_testcase :: "stream_out \<Rightarrow> CMUnitTestState \<Rightarrow> unit cm" where
  "xml_testcase fp cmtest = bindM (readM fmt_f3) (\<lambda>f3.
     seqM (fprintf_s fp (''    <testcase name='' @ quote @ xml_name (fmt_s (test_name (ts_test cmtest))) @ quote @
             '' time='' @ quote @ f3 (ts_runtime cmtest) @ quote @ '' >'' @ nl))
    (seqM (case ts_status cmtest of
             CM_TEST_ERROR \<Rightarrow> xml_failure fp (ts_error_message cmtest)
           | CM_TEST_FAILED \<Rightarrow> xml_failure fp (ts_error_message cmtest)
           | CM_TEST_SKIPPED \<Rightarrow> fprintf_s fp (''      <skipped/>'' @ nl)
           | _ \<Rightarrow> retM ())
          (fprintf_s fp (''    </testcase>'' @ nl))))"

definition cmprintf_group_finish_xml ::
  "string \<Rightarrow> nat \<Rightarrow> nat \<Rightarrow> nat \<Rightarrow> nat \<Rightarrow> double \<Rightarrow> CMUnitTestState list \<Rightarrow> unit cm" where
  "cmprintf_group_finish_xml group_name total_executed total_failed total_errors total_skipped total_runtime cm_tests =
     bindM (open_xml_file group_name) (\<lambda>(fp, file_opened).
     bindM (readM (\<lambda>s. s)) (\<lambda>s.
     seqM (whenM (\<not> xml_printed s \<or> (file_opened \<and> \<not> file_append s))
             (seqM (fprintf_s fp (''<?xml version='' @ quote @ ''1.0'' @ quote @ '' encoding='' @ quote @ ''UTF-8'' @ quote @ '' ?>'' @ nl))
                   (whenM (\<not> file_opened) (modM (\<lambda>s. s\<lparr>xml_printed := True\<rparr>)))))
    (seqM (fprintf_s fp (''<testsuites>'' @ nl))
    (seqM (fprintf_s fp (''  <testsuite name='' @ quote @ xml_name group_name @ quote @
             '' time='' @ quote @ fmt_f3 s total_runtime @ quote @
             '' tests='' @ quote @ fmt_unsigned total_executed @ quote @
             '' failures='' @ quote @ fmt_unsigned total_failed @ quote @
             '' errors='' @ quote @ fmt_unsigned total_errors @ quote @
             '' skipped='' @ quote @ fmt_unsigned total_skipped @ quote @ '' >'' @ nl))
    (seqM (forM (take total_executed cm_tests) (xml_testcase fp))
    (seqM (fprintf_s fp (''  </testsuite>'' @ nl))
          (fprintf_s fp (''</testsuites>'' @ nl))))))))"

section \<open>All selected formats\<close>

definition cmprintf_group_start :: "string \<Rightarrow> nat \<Rightarrow> unit cm" where
  "cmprintf_group_start group_name num_tests = bindM cm_get_output (\<lambda>out.
     seqM (whenM (out AND CM_OUTPUT_STANDARD \<noteq> 0) (cmprintf_group_start_standard group_name num_tests))
          (whenM (out AND CM_OUTPUT_TAP \<noteq> 0) (cmprintf_group_start_tap num_tests)))"

definition cmprintf_group_finish ::
  "string \<Rightarrow> nat \<Rightarrow> nat \<Rightarrow> nat \<Rightarrow> nat \<Rightarrow> nat \<Rightarrow> double \<Rightarrow> CMUnitTestState list \<Rightarrow> unit cm" where
  "cmprintf_group_finish group_name total_executed total_passed total_failed total_errors total_skipped total_runtime cm_tests =
     bindM cm_get_output (\<lambda>out.
     seqM (whenM (out AND CM_OUTPUT_STANDARD \<noteq> 0)
             (cmprintf_group_finish_standard group_name total_executed total_passed total_failed total_errors total_skipped cm_tests))
    (seqM (whenM (out AND CM_OUTPUT_TAP \<noteq> 0)
             (cmprintf_group_finish_tap group_name total_executed total_passed total_skipped))
          (whenM (out AND CM_OUTPUT_XML \<noteq> 0)
             (cmprintf_group_finish_xml group_name total_executed total_failed total_errors total_skipped total_runtime cm_tests))))"

definition cmprintf :: "cm_printf_type \<Rightarrow> nat \<Rightarrow> string \<Rightarrow> string option \<Rightarrow> unit cm" where
  "cmprintf ty test_number name error_message = bindM cm_get_output (\<lambda>out.
     seqM (whenM (out AND CM_OUTPUT_STANDARD \<noteq> 0) (cmprintf_standard ty name error_message))
    (seqM (whenM (out AND CM_OUTPUT_SUBUNIT \<noteq> 0) (cmprintf_subunit ty name error_message))
          (whenM (out AND CM_OUTPUT_TAP \<noteq> 0) (cmprintf_tap ty test_number name error_message))))"

section \<open>Reports only report\<close>

text \<open>
  \<open>report_frame s t\<close>: \<open>t\<close> differs from \<open>s\<close> at most in what has been written and in the
  flags of the reports themselves. \<open>prints m\<close>: the program returns and stays in that frame.
\<close>

definition report_frame :: "cm_state \<Rightarrow> cm_state \<Rightarrow> bool" where
  "report_frame s t \<longleftrightarrow> t = s\<lparr>out_stdout := out_stdout t, out_stderr := out_stderr t,
     global_msg_output := global_msg_output t, env_checked := env_checked t,
     tap_version_printed := tap_version_printed t, xml_printed := xml_printed t,
     file_append := file_append t, files := files t\<rparr>"

definition prints :: "unit cm \<Rightarrow> bool" where
  "prints m \<longleftrightarrow> (\<forall>s. fst (m s) = Ret () \<and> report_frame s (snd (m s)))"

lemma report_frame_refl [simp]: "report_frame s s"
  by (simp add: report_frame_def)

lemma report_frame_trans: "report_frame s t \<Longrightarrow> report_frame t u \<Longrightarrow> report_frame s u"
  unfolding report_frame_def by (cases s, cases t, cases u) simp

lemma printsD: "prints m \<Longrightarrow> \<exists>t. m s = (Ret (), t) \<and> report_frame s t"
  unfolding prints_def by (metis prod.collapse)

lemma prints_seqM [cm_report]:
  assumes "prints m" "prints n"
  shows "prints (seqM m n)"
  unfolding prints_def
proof
  fix s
  obtain t where t: "m s = (Ret (), t)" "report_frame s t" using printsD [OF assms(1)] by blast
  obtain u where u: "n t = (Ret (), u)" "report_frame t u" using printsD [OF assms(2)] by blast
  show "fst (seqM m n s) = Ret () \<and> report_frame s (snd (seqM m n s))"
    unfolding seqM_Ret [where m = m, OF t(1)] using u report_frame_trans [OF t(2) u(2)] by simp
qed

lemma prints_retM [cm_report]: "prints (retM ())"
  by (simp add: prints_def)

lemma prints_print [cm_report]: "prints (print_message x)" "prints (print_error x)"
  "prints (vprint_message x)" "prints (vprint_error x)"
  by (simp_all add: prints_def print_message_def print_error_def vprint_message_def vprint_error_def report_frame_def)

lemma prints_whenM [cm_report]: "prints m \<Longrightarrow> prints (whenM b m)"
  by (simp add: whenM_def prints_retM)

lemma prints_option [cm_report]:
  "prints m \<Longrightarrow> (\<And>x. prints (f x)) \<Longrightarrow> prints (case v of None \<Rightarrow> m | Some x \<Rightarrow> f x)"
  by (cases v) auto

lemma prints_forM [cm_report]: "(\<And>x. prints (f x)) \<Longrightarrow> prints (forM xs f)"
  by (induction xs) (auto intro: cm_report)

lemma prints_bind:
  assumes "\<And>s. \<exists>x t. m s = (Ret x, t) \<and> report_frame s t" "\<And>x. prints (f x)"
  shows "prints (bindM m f)"
  unfolding prints_def
proof
  fix s
  obtain x t where t: "m s = (Ret x, t)" "report_frame s t" using assms(1) by blast
  obtain u where u: "f x t = (Ret (), u)" "report_frame t u" using printsD [OF assms(2)] by blast
  show "fst (bindM m f s) = Ret () \<and> report_frame s (snd (bindM m f s))"
    unfolding bindM_Ret [where m = m, OF t(1)] using u report_frame_trans [OF t(2) u(2)] by simp
qed

lemma prints_read [cm_report]: "(\<And>x. prints (f x)) \<Longrightarrow> prints (bindM (readM g) f)"
  by (rule prints_bind) auto

lemma prints_get_output [cm_report]: "(\<And>x. prints (f x)) \<Longrightarrow> prints (bindM cm_get_output f)"
  by (rule prints_bind) (auto simp: cm_get_output_def report_frame_def Let_def split: option.splits)

lemma prints_fprintf [cm_report]: "prints (fprintf_s fp x)"
  by (cases fp) (simp_all add: prints_print, simp add: prints_def report_frame_def)

lemma prints_open_xml [cm_report]: "(\<And>x. prints (f x)) \<Longrightarrow> prints (bindM (open_xml_file g) f)"
  by (rule prints_bind) (auto simp: open_xml_file_def Let_def run_simps report_frame_def split: option.splits)

lemma prints_flags [cm_report]:
  "prints (modM (\<lambda>s. s\<lparr>tap_version_printed := b\<rparr>))" "prints (modM (\<lambda>s. s\<lparr>xml_printed := b\<rparr>))"
  by (simp_all add: prints_def report_frame_def)

lemma prints_cmprintf [cm_report]: "prints (cmprintf ty n name e)"
  unfolding cmprintf_def cmprintf_standard_def cmprintf_subunit_def cmprintf_tap_def
  by (cases ty; simp only: cm_printf_type.case; intro cm_report)

lemma prints_group_start [cm_report]: "prints (cmprintf_group_start g n)"
  unfolding cmprintf_group_start_def cmprintf_group_start_standard_def cmprintf_group_start_tap_def
  by (intro cm_report)

lemma prints_testcase [cm_report]: "prints (xml_testcase fp t)"
  unfolding xml_testcase_def xml_failure_def
  by (cases "ts_status t"; simp only: CMUnitTestStatus.case; intro cm_report)

lemma prints_group_finish [cm_report]: "prints (cmprintf_group_finish g ex pa fa er sk rt ts)"
  unfolding cmprintf_group_finish_def cmprintf_group_finish_standard_def cmprintf_group_finish_tap_def
    cmprintf_group_finish_xml_def list_tests_def Let_def case_prod_unfold
  by (intro cm_report)

section \<open>Properties\<close>

lemma forM_print: "forM qs (\<lambda>q. print_message (f q)) s = (Ret (), s\<lparr>out_stdout := out_stdout s @ concat (map f qs)\<rparr>)"
  by (induction qs arbitrary: s) (simp_all add: run_simps print_message_def vprint_message_def)

abbreviation text_char :: "char \<Rightarrow> bool" where
  "text_char c \<equiv> c \<noteq> CHR 0x0A"

lemma tap_lines_Nil [simp]: "tap_lines [] = []"
  by (subst tap_lines.simps) simp

lemma tap_lines_last: "p \<noteq> [] \<Longrightarrow> dropWhile text_char p = [] \<Longrightarrow> tap_lines p = [takeWhile text_char p]"
  by (subst tap_lines.simps) (simp only: Let_def if_False list.case)

lemma tap_lines_cut:
  "p \<noteq> [] \<Longrightarrow> dropWhile text_char p = c # r \<Longrightarrow> tap_lines p = takeWhile text_char p # tap_lines r"
  by (subst tap_lines.simps) (simp only: Let_def if_False list.case)

lemma takeWhile_plain: "CHR 0x0A \<notin> set (takeWhile text_char p)"
  by (auto dest: set_takeWhileD)

lemma tap_lines_plain: "\<forall>q \<in> set (tap_lines m). CHR 0x0A \<notin> set q"
proof (induction m rule: tap_lines.induct)
  case (1 p)
  show ?case
  proof (cases "p = []")
    case False
    show ?thesis
    proof (cases "dropWhile text_char p")
      case Nil
      then show ?thesis by (simp only: tap_lines_last [OF False Nil] list.set) (simp add: takeWhile_plain)
    next
      case (Cons c r)
      show ?thesis
        using "1.IH" [OF False refl refl Cons] takeWhile_plain [of p]
        unfolding tap_lines_cut [OF False Cons] list.set by blast
    qed
  qed simp
qed

lemma tap_lines_join:
  "concat (map (\<lambda>q. q @ nl) (tap_lines m)) = (if m = [] \<or> last m = CHR 0x0A then m else m @ nl)"
proof (induction m rule: tap_lines.induct)
  case (1 p)
  show ?case
  proof (cases "p = []")
    case False
    note id = takeWhile_dropWhile_id [of text_char p]
    show ?thesis
    proof (cases "dropWhile text_char p")
      case Nil
      then have p: "takeWhile text_char p = p" using id by simp
      then have "last p \<noteq> CHR 0x0A" using takeWhile_plain [of p] False by (metis last_in_set)
      then show ?thesis using False tap_lines_last [OF False Nil] p by simp
    next
      case (Cons c r)
      have c: "c = CHR 0x0A" using hd_dropWhile [of text_char p] Cons by simp
      have p: "p = takeWhile text_char p @ c # r" using id Cons by simp
      have lp: "last p = (if r = [] then CHR 0x0A else last r)" by (subst p) (simp add: c)
      have "concat (map (\<lambda>q. q @ nl) (tap_lines p))
          = takeWhile text_char p @ nl @ concat (map (\<lambda>q. q @ nl) (tap_lines r))"
        unfolding tap_lines_cut [OF False Cons] by (simp only: list.map concat.simps append_assoc)
      also have "\<dots> = (takeWhile text_char p @ c # r) @ (if r = [] \<or> last r = CHR 0x0A then [] else nl)"
        unfolding "1.IH" [OF False refl refl Cons] c by (simp del: takeWhile_eq_Nil_iff)
      finally show ?thesis using lp False p by (cases "r = []") auto
    qed
  qed simp
qed

text \<open>
  C29. The TAP report of a failure is one \<^verbatim>\<open>not ok\<close> line and then the message, every line of
  which is a comment: no line of a message can be taken for a test result, and the message
  can be read back from the comments, up to a missing newline at its end.
\<close>

theorem tap_failure_report:
  "\<exists>qs. cmprintf_tap PRINTF_TEST_FAILURE n name (Some m) s
      = (Ret (), s\<lparr>out_stdout := out_stdout s @ ''not ok '' @ fmt_unsigned n @ '' - '' @ name @ nl
                     @ concat (map (\<lambda>q. ''# '' @ q @ nl) qs)\<rparr>)
    \<and> CHR 0x0A \<notin> set (concat qs)
    \<and> concat (map (\<lambda>q. q @ nl) qs) = (if m = [] \<or> last m = CHR 0x0A then m else m @ nl)"
proof (intro exI conjI)
  show "cmprintf_tap PRINTF_TEST_FAILURE n name (Some m) s
      = (Ret (), s\<lparr>out_stdout := out_stdout s @ ''not ok '' @ fmt_unsigned n @ '' - '' @ name @ nl
                     @ concat (map (\<lambda>q. ''# '' @ q @ nl) (tap_lines m))\<rparr>)"
    by (simp add: cmprintf_tap_def run_simps print_message_def vprint_message_def)
       (simp only: forM_print [unfolded print_message_def vprint_message_def] append_Cons append_Nil, simp)
  show "CHR 0x0A \<notin> set (concat (tap_lines m))" using tap_lines_plain by (auto simp: set_concat)
qed (rule tap_lines_join)

end
