(* ===== verification/Runner.thy ===== *)
theory Runner
  imports Mock_Lifecycle Leak_Check Report
begin

text \<open>
  The test runner of \<^verbatim>\<open>src/cmocka.c\<close>: one test or fixture
  (\<^verbatim>\<open>cmocka_run_one_test_or_fixture\<close>), a test with its fixtures
  (\<^verbatim>\<open>cmocka_run_one_tests\<close>), a group (\<^verbatim>\<open>_cmocka_run_group_tests\<close>), and the time
  measurement. Test functions and fixtures are arbitrary programs on the state of the
  framework; \<^verbatim>\<open>sigsetjmp\<close> and the jump back to it are a catch of the outcome \<open>Longjmp\<close>,
  after which the state is what the test left behind. A signal is delivered by running
  \<^verbatim>\<open>exception_handler\<close> at that point of the test.
\<close>

section \<open>Time\<close>

record timespec =
  tv_sec :: int
  tv_nsec :: int

text \<open>
  \<^verbatim>\<open>(int)\<close> of a double quotient cuts towards zero. The operands are smaller than
  \<open>2 ^ 53\<close>, so the quotient is cut at the same integer as the exact one.
\<close>

definition tdiv :: "int \<Rightarrow> int \<Rightarrow> int" where
  "tdiv a b = sgn a * (\<bar>a\<bar> div b)"

definition cm_tspecdiff :: "timespec \<Rightarrow> timespec \<Rightarrow> timespec" where
  "cm_tspecdiff time1 time0 =
     (let t0 = (if tv_nsec time0 > tv_nsec time1
                then let xsec = tdiv (tv_nsec time0 - tv_nsec time1) 1000000001
                     in time0\<lparr>tv_nsec := tv_nsec time0 - 1000000000 * xsec, tv_sec := tv_sec time0 + xsec\<rparr>
                else time0);
          t1 = (if tv_nsec time1 - tv_nsec t0 > 1000000000
                then let xsec = tdiv (tv_nsec time1 - tv_nsec t0) 1000000000
                     in t0\<lparr>tv_nsec := tv_nsec t0 + 1000000000 * xsec, tv_sec := tv_sec t0 - xsec\<rparr>
                else t0);
          sign = (if tv_sec time1 < tv_sec t1 then -1 else 1)
      in \<lparr>tv_sec = (tv_sec time1 - tv_sec t1) * sign, tv_nsec = tv_nsec time1 - tv_nsec t1\<rparr>)"

definition cm_secdiff :: "timespec \<Rightarrow> timespec \<Rightarrow> double cm" where
  "cm_secdiff clock1 clock0 = readM (\<lambda>s.
     let diff = cm_tspecdiff clock1 clock0
     in dbl_add s (dbl_of_int s (tv_sec diff)) (dbl_div s (dbl_of_int s (tv_nsec diff)) (dbl_of_int s 1000000000)))"

definition clock_gettime :: "timespec cm" where
  "clock_gettime = (\<lambda>s. (Ret \<lparr>tv_sec = fst (clock_realtime s (clock_calls s)), tv_nsec = snd (clock_realtime s (clock_calls s))\<rparr>,
     s\<lparr>clock_calls := Suc (clock_calls s)\<rparr>))"

section \<open>Signals\<close>

text \<open>\<^verbatim>\<open>SIGFPE\<close>, \<^verbatim>\<open>SIGILL\<close>, \<^verbatim>\<open>SIGSEGV\<close>, \<^verbatim>\<open>SIGBUS\<close>, \<^verbatim>\<open>SIGSYS\<close> on Linux. The handler
  of the framework has number 1 in \<open>signal_table\<close>.\<close>

definition exception_signals :: "int list" where
  "exception_signals = [8, 4, 11, 7, 31]"

definition exception_handler_fn :: nat where
  "exception_handler_fn = 1"

definition install_handlers :: "unit cm" where
  "install_handlers = modM (\<lambda>s. s\<lparr>default_signal_functions := map (signal_table s) exception_signals,
     signal_table := (\<lambda>sig. if sig \<in> set exception_signals then exception_handler_fn else signal_table s sig)\<rparr>)"

fun set_handlers :: "(int \<times> nat) list \<Rightarrow> (int \<Rightarrow> nat) \<Rightarrow> (int \<Rightarrow> nat)" where
  "set_handlers [] tab = tab"
| "set_handlers ((sig, h) # xs) tab = set_handlers xs (tab(sig := h))"

definition restore_handlers :: "unit cm" where
  "restore_handlers = modM (\<lambda>s. s\<lparr>signal_table :=
     set_handlers (zip exception_signals (default_signal_functions s)) (signal_table s)\<rparr>)"

section \<open>One test or fixture\<close>

text \<open>\<^verbatim>\<open>cm_setjmp(global_run_test_env) == 0\<close>: the second program runs when the first one jumps.\<close>

definition setjmpM :: "'a cm \<Rightarrow> 'a cm \<Rightarrow> 'a cm" where
  "setjmpM body failed = (\<lambda>s. case body s of (Longjmp, t) \<Rightarrow> failed t | (r, t) \<Rightarrow> (r, t))"

text \<open>The variable \<^verbatim>\<open>current_state\<close> that stands in for a NULL state.\<close>

definition local_cell :: nat where "local_cell = 0"

definition run_function ::
  "string \<Rightarrow> CMUnitTestFunction option \<Rightarrow> CMFixtureFunction option \<Rightarrow> CMFixtureFunction option \<Rightarrow>
   nat \<Rightarrow> addr option \<Rightarrow> int cm" where
  "run_function function_name test setup teardown cell check_point =
     (case test of
        Some f \<Rightarrow> seqM (f cell) (seqM (fail_if_blocks_allocated check_point function_name) (retM 0))
      | None \<Rightarrow> (case setup of
          Some f \<Rightarrow> f cell
        | None \<Rightarrow> (case teardown of
            Some f \<Rightarrow> bindM (f cell) (\<lambda>rc. seqM (fail_if_blocks_allocated check_point function_name) (retM rc))
          | None \<Rightarrow> retM 0)))"

definition test_failed :: "int cm" where
  "test_failed =
     seqM (modM (\<lambda>s. s\<lparr>global_running_test := False\<rparr>))
     (bindM (readM global_stop_test) (\<lambda>stop.
        if stop
        then bindM has_leftover_values (\<lambda>left.
          seqM (modM (\<lambda>s. s\<lparr>global_stop_test := False\<rparr>)) (retM (if left then -1 else 0)))
        else retM (-1)))"

definition cmocka_run_one_test_or_fixture ::
  "string \<Rightarrow> CMUnitTestFunction option \<Rightarrow> CMFixtureFunction option \<Rightarrow> CMFixtureFunction option \<Rightarrow>
   nat option \<Rightarrow> addr option option \<Rightarrow> int cm" where
  "cmocka_run_one_test_or_fixture function_name test setup teardown state heap_check_point =
     bindM (case heap_check_point of Some cp \<Rightarrow> retM cp | None \<Rightarrow> check_point_allocated_blocks) (\<lambda>check_point.
     seqM (modM (\<lambda>s. s\<lparr>state_cells := (state_cells s)(local_cell := 0)\<rparr>))
    (seqM install_handlers
    (seqM initialize_testing
    (seqM (modM (\<lambda>s. s\<lparr>global_running_test := True\<rparr>))
    (bindM (setjmpM
        (bindM (run_function function_name test setup teardown
                  (case state of Some c \<Rightarrow> c | None \<Rightarrow> local_cell) check_point) (\<lambda>rc.
         seqM fail_if_leftover_values
        (seqM (modM (\<lambda>s. s\<lparr>global_running_test := False\<rparr>)) (retM rc))))
        test_failed) (\<lambda>rc.
     seqM teardown_testing
    (seqM restore_handlers (retM rc))))))))"

definition cmocka_run_group_fixture ::
  "string \<Rightarrow> CMFixtureFunction option \<Rightarrow> CMFixtureFunction option \<Rightarrow> nat option \<Rightarrow> addr option option \<Rightarrow> int cm" where
  "cmocka_run_group_fixture function_name setup teardown state heap_check_point =
     (if setup \<noteq> None
      then cmocka_run_one_test_or_fixture function_name None setup None state heap_check_point
      else cmocka_run_one_test_or_fixture function_name None None teardown state heap_check_point)"

section \<open>A test with its fixtures\<close>

definition run_setup :: "CMUnitTestState \<Rightarrow> (int \<times> CMUnitTestState) cm" where
  "run_setup ts =
     (if setup_func (ts_test ts) \<noteq> None
      then bindM check_point_allocated_blocks (\<lambda>cp.
        let ts1 = ts\<lparr>ts_check_point := Some cp\<rparr> in
        bindM (cmocka_run_one_test_or_fixture (fmt_s (test_name (ts_test ts))) None (setup_func (ts_test ts)) None
                 (Some (ts_state ts)) (Some cp)) (\<lambda>rc.
          if rc \<noteq> 0
          then seqM (cmocka_print_error ''Test setup failed'') (retM (rc, ts1\<lparr>ts_status := CM_TEST_ERROR\<rparr>))
          else retM (rc, ts1)))
      else retM (0, ts))"

definition run_test_function :: "CMUnitTestState \<Rightarrow> CMUnitTestState cm" where
  "run_test_function ts =
     bindM (cmocka_run_one_test_or_fixture (fmt_s (test_name (ts_test ts))) (test_func (ts_test ts)) None None
              (Some (ts_state ts)) None) (\<lambda>rc.
       if rc = 0 then retM (ts\<lparr>ts_status := CM_TEST_PASSED\<rparr>)
       else bindM (readM global_skip_test) (\<lambda>skip.
         if skip
         then seqM (modM (\<lambda>s. s\<lparr>global_skip_test := False\<rparr>)) (retM (ts\<lparr>ts_status := CM_TEST_SKIPPED\<rparr>))
         else retM (ts\<lparr>ts_status := CM_TEST_FAILED\<rparr>)))"

definition run_teardown :: "CMUnitTestState \<Rightarrow> (int \<times> CMUnitTestState) cm" where
  "run_teardown ts =
     (if teardown_func (ts_test ts) \<noteq> None
      then bindM (cmocka_run_one_test_or_fixture (fmt_s (test_name (ts_test ts))) None None (teardown_func (ts_test ts))
                 (Some (ts_state ts)) (ts_check_point ts)) (\<lambda>rc.
        if rc \<noteq> 0
        then seqM (cmocka_print_error ''Test teardown failed'') (retM (rc, ts\<lparr>ts_status := CM_TEST_ERROR\<rparr>))
        else retM (rc, ts))
      else retM (0, ts))"

definition cmocka_run_one_tests :: "CMUnitTestState \<Rightarrow> (int \<times> CMUnitTestState) cm" where
  "cmocka_run_one_tests test_state =
     bindM (run_setup test_state) (\<lambda>(rc, ts1).
     bindM clock_gettime (\<lambda>start.
     bindM (if rc = 0 then run_test_function ts1 else retM ts1) (\<lambda>ts2.
     bindM clock_gettime (\<lambda>finish.
     bindM (cm_secdiff finish start) (\<lambda>runtime.
     let ts3 = ts2\<lparr>ts_runtime := runtime\<rparr> in
     bindM (if rc = 0 then run_teardown ts3 else retM (rc, ts3)) (\<lambda>(rc, ts4).
     bindM (readM cm_error_message) (\<lambda>msg.
     seqM (modM (\<lambda>s. s\<lparr>cm_error_message := None\<rparr>))
          (retM (rc, ts4\<lparr>ts_error_message := msg\<rparr>)))))))))"

section \<open>A group of tests\<close>

record group_totals =
  total_executed :: nat
  total_passed :: nat
  total_failed :: nat
  total_errors :: nat
  total_skipped :: nat
  total_runtime :: double

definition selects :: "string option \<Rightarrow> string option \<Rightarrow> CMUnitTest \<Rightarrow> bool" where
  "selects test_filter skip_filter test \<longleftrightarrow>
     test_name test \<noteq> None \<and> (test_func test \<noteq> None \<or> setup_func test \<noteq> None \<or> teardown_func test \<noteq> None)
     \<and> (test_filter \<noteq> None \<longrightarrow> c_strmatch (test_name test) test_filter)
     \<and> \<not> (skip_filter \<noteq> None \<and> c_strmatch (test_name test) skip_filter)"

text \<open>The state variables: one of the group, then one for each test.\<close>

definition group_cell :: nat where "group_cell = 1"
definition test_cell :: "nat \<Rightarrow> nat" where "test_cell i = 2 + i"

definition new_test_state :: "nat \<Rightarrow> CMUnitTest \<Rightarrow> CMUnitTestState" where
  "new_test_state i test = \<lparr>ts_check_point = None, ts_test = test, ts_state = test_cell i,
     ts_error_message = None, ts_status = CM_TEST_NOT_STARTED, ts_runtime = 0\<rparr>"

definition prepare_state :: "CMUnitTestState \<Rightarrow> unit cm" where
  "prepare_state cmtest = modM (\<lambda>s. s\<lparr>state_cells := (state_cells s)(ts_state cmtest :=
     if state_cells s group_cell \<noteq> 0 then state_cells s group_cell
     else if initial_state_ptr (ts_test cmtest) \<noteq> 0 then initial_state_ptr (ts_test cmtest)
     else 0)\<rparr>)"

definition could_not_run :: "string option \<Rightarrow> string" where
  "could_not_run msg = take 2047 (''Could not run test: '' @ fmt_s msg)"

definition report_test :: "nat \<Rightarrow> int \<Rightarrow> CMUnitTestState \<Rightarrow> group_totals \<Rightarrow> group_totals cm" where
  "report_test test_number rc cmtest tot =
     (let name = fmt_s (test_name (ts_test cmtest)) in
      if rc = 0
      then (case ts_status cmtest of
          CM_TEST_PASSED \<Rightarrow> seqM (cmprintf PRINTF_TEST_SUCCESS test_number name (ts_error_message cmtest))
            (retM (tot\<lparr>total_passed := total_passed tot + 1\<rparr>))
        | CM_TEST_SKIPPED \<Rightarrow> seqM (cmprintf PRINTF_TEST_SKIPPED test_number name (ts_error_message cmtest))
            (retM (tot\<lparr>total_skipped := total_skipped tot + 1\<rparr>))
        | CM_TEST_FAILED \<Rightarrow> seqM (cmprintf PRINTF_TEST_FAILURE test_number name (ts_error_message cmtest))
            (retM (tot\<lparr>total_failed := total_failed tot + 1\<rparr>))
        | _ \<Rightarrow> seqM (cmprintf PRINTF_TEST_ERROR test_number name (Some ''Internal cmocka error''))
            (retM (tot\<lparr>total_errors := total_errors tot + 1\<rparr>)))
      else seqM (cmprintf PRINTF_TEST_ERROR test_number name (Some (could_not_run (ts_error_message cmtest))))
            (retM (tot\<lparr>total_errors := total_errors tot + 1\<rparr>)))"

fun run_all :: "nat \<Rightarrow> CMUnitTestState list \<Rightarrow> group_totals \<Rightarrow> (group_totals \<times> CMUnitTestState list) cm" where
  "run_all i [] tot = retM (tot, [])"
| "run_all i (cmtest # rest) tot =
     seqM (cmprintf PRINTF_TEST_START (i + 1) (fmt_s (test_name (ts_test cmtest))) None)
    (seqM (prepare_state cmtest)
    (bindM (cmocka_run_one_tests cmtest) (\<lambda>(rc, done).
     bindM (readM dbl_add) (\<lambda>add.
     bindM (report_test (i + 1) rc done
              (tot\<lparr>total_executed := total_executed tot + 1, total_runtime := add (total_runtime tot) (ts_runtime done)\<rparr>)) (\<lambda>tot'.
     bindM (run_all (i + 1) rest tot') (\<lambda>(tot'', dones).
     retM (tot'', done # dones)))))))"

definition fixture_error :: "string \<Rightarrow> string \<Rightarrow> unit cm" where
  "fixture_error group_name what =
     seqM (bindM (readM cm_error_message) (\<lambda>m. case m of
             None \<Rightarrow> retM ()
           | Some msg \<Rightarrow> seqM (print_error (''[  ERROR   ] --- '' @ msg @ nl)) (modM (\<lambda>s. s\<lparr>cm_error_message := None\<rparr>))))
          (cmprintf PRINTF_TEST_ERROR 0 group_name (Some what))"

definition sizeof_CMUnitTestState :: "64 word" where
  "sizeof_CMUnitTestState = 48"

text \<open>
  Whether the array of test states can be allocated is up to the C library; the array itself
  is a list here. The result is converted to \<^verbatim>\<open>int\<close>.
\<close>

definition calloc_tests :: "nat \<Rightarrow> bool cm" where
  "calloc_tests num_tests = (\<lambda>s. (Ret (libc_malloc s (malloc_calls s) (sizeof_CMUnitTestState * word_of_nat num_tests) \<noteq> 0),
     s\<lparr>malloc_calls := Suc (malloc_calls s)\<rparr>))"

definition no_totals :: group_totals where
  "no_totals = \<lparr>total_executed = 0, total_passed = 0, total_failed = 0, total_errors = 0, total_skipped = 0, total_runtime = 0\<rparr>"

definition run_group_setup :: "CMFixtureFunction option \<Rightarrow> addr option \<Rightarrow> int cm" where
  "run_group_setup group_setup cp =
     (if group_setup \<noteq> None
      then cmocka_run_group_fixture ''cmocka_group_setup'' group_setup None (Some group_cell) (Some cp)
      else retM 0)"

definition run_group_teardown :: "string \<Rightarrow> CMFixtureFunction option \<Rightarrow> addr option \<Rightarrow> unit cm" where
  "run_group_teardown group_name group_teardown cp =
     whenM (group_teardown \<noteq> None)
       (bindM (cmocka_run_group_fixture ''cmocka_group_teardown'' None group_teardown (Some group_cell) (Some cp)) (\<lambda>rc.
          whenM (rc \<noteq> 0) (fixture_error group_name ''[  FAILED  ] GROUP TEARDOWN'')))"

definition run_group_body ::
  "string \<Rightarrow> CMUnitTest list \<Rightarrow> CMFixtureFunction option \<Rightarrow> addr option \<Rightarrow> (group_totals \<times> CMUnitTestState list) cm" where
  "run_group_body group_name selected group_setup cp =
     bindM (run_group_setup group_setup cp) (\<lambda>rc.
       let cm_tests = map (\<lambda>(i, t). new_test_state i t) (enumerate 0 selected) in
       if rc = 0 then run_all 0 cm_tests no_totals
       else seqM (fixture_error group_name ''[  FAILED  ] GROUP SETUP'')
              (retM (no_totals\<lparr>total_errors := 1\<rparr>, cm_tests)))"

definition cm_cmocka_run_group_tests ::
  "string \<Rightarrow> CMUnitTest list \<Rightarrow> CMFixtureFunction option \<Rightarrow> CMFixtureFunction option \<Rightarrow> int cm" where
  "cm_cmocka_run_group_tests group_name tests group_setup group_teardown =
     bindM check_point_allocated_blocks (\<lambda>cp.
     seqM (modM (\<lambda>s. s\<lparr>state_cells := (state_cells s)(group_cell := 0)\<rparr>))
    (bindM (calloc_tests (length tests)) (\<lambda>ok.
     if \<not> ok then retM (-1)
     else bindM (readM (\<lambda>s. filter (selects (global_test_filter_pattern s) (global_skip_filter_pattern s)) tests)) (\<lambda>selected.
       seqM (cmprintf_group_start group_name (length selected))
      (bindM (run_group_body group_name selected group_setup cp) (\<lambda>(tot, cm_tests).
       seqM (run_group_teardown group_name group_teardown cp)
      (seqM (cmprintf_group_finish group_name (total_executed tot) (total_passed tot) (total_failed tot)
               (total_errors tot) (total_skipped tot) (total_runtime tot) cm_tests)
      (seqM (fail_if_blocks_allocated cp ''cmocka_group_tests'')
            (retM (sint (word_of_nat (total_failed tot + total_errors tot) :: 32 word)))))))))))"

section \<open>What a test that was run counts for\<close>

text \<open>\<open>yieldsM Q m\<close>: every value that \<open>m\<close> returns satisfies \<open>Q\<close>, whatever the state.\<close>

definition yieldsM :: "('a \<Rightarrow> bool) \<Rightarrow> ('s, 'a) prog \<Rightarrow> bool" where
  "yieldsM Q m \<longleftrightarrow> (\<forall>s x t. m s = (Ret x, t) \<longrightarrow> Q x)"

lemma yieldsMD: "yieldsM Q m \<Longrightarrow> m s = (Ret x, t) \<Longrightarrow> Q x"
  by (auto simp: yieldsM_def)

lemma yieldsM_any: "yieldsM (\<lambda>_. True) m"
  by (simp add: yieldsM_def)

lemma yieldsM_retM: "Q x \<Longrightarrow> yieldsM Q (retM x)"
  by (simp add: yieldsM_def)

lemma yieldsM_bindM: "yieldsM P m \<Longrightarrow> (\<And>x. P x \<Longrightarrow> yieldsM Q (f x)) \<Longrightarrow> yieldsM Q (bindM m f)"
  unfolding yieldsM_def bindM_Ret_iff by blast

lemma yieldsM_skip: "(\<And>x. yieldsM Q (f x)) \<Longrightarrow> yieldsM Q (bindM m f)"
  by (rule yieldsM_bindM [OF yieldsM_any])

lemma yieldsM_seqM: "yieldsM Q n \<Longrightarrow> yieldsM Q (seqM m n)"
  unfolding seqM_def by (rule yieldsM_skip)

definition counted_as :: "CMUnitTest \<Rightarrow> int \<times> CMUnitTestState \<Rightarrow> bool" where
  "counted_as test = (\<lambda>(rc, ts). ts_test ts = test
    \<and> (if rc = 0 then ts_status ts \<in> {CM_TEST_PASSED, CM_TEST_SKIPPED, CM_TEST_FAILED}
       else ts_status ts = CM_TEST_ERROR))"

lemma counted_as_message:
  "counted_as test (rc, ts\<lparr>ts_error_message := m\<rparr>) = counted_as test (rc, ts)"
  "counted_as test (rc, ts\<lparr>ts_runtime := r\<rparr>) = counted_as test (rc, ts)"
  by (simp_all add: counted_as_def)

lemma setup_yields:
  "yieldsM (\<lambda>(rc, ts'). ts_test ts' = ts_test ts \<and> (rc \<noteq> 0 \<longrightarrow> ts_status ts' = CM_TEST_ERROR)) (run_setup ts)"
  unfolding run_setup_def Let_def
  by (auto intro!: yieldsM_skip yieldsM_seqM yieldsM_retM)

lemma test_function_yields:
  "yieldsM (\<lambda>ts'. ts_test ts' = ts_test ts \<and> ts_status ts' \<in> {CM_TEST_PASSED, CM_TEST_SKIPPED, CM_TEST_FAILED})
     (run_test_function ts)"
  unfolding run_test_function_def by (auto intro!: yieldsM_skip yieldsM_seqM yieldsM_retM)

lemma teardown_yields:
  "ts_status ts \<in> {CM_TEST_PASSED, CM_TEST_SKIPPED, CM_TEST_FAILED} \<Longrightarrow> yieldsM (counted_as (ts_test ts)) (run_teardown ts)"
  unfolding run_teardown_def counted_as_def by (auto intro!: yieldsM_skip yieldsM_seqM yieldsM_retM)

lemma one_tests_yields: "yieldsM (counted_as (ts_test ts)) (cmocka_run_one_tests ts)"
  unfolding cmocka_run_one_tests_def
proof (rule yieldsM_bindM [OF setup_yields], clarify)
  fix rc :: int and ts1 :: CMUnitTestState assume ts1: "ts_test ts1 = ts_test ts" "rc \<noteq> 0 \<longrightarrow> ts_status ts1 = CM_TEST_ERROR"
  let ?mid = "\<lambda>ts2. counted_as (ts_test ts) (rc, ts2)"
  have f: "yieldsM ?mid (if rc = 0 then run_test_function ts1 else retM ts1)"
  proof (cases "rc = 0")
    case True
    then show ?thesis using ts1 test_function_yields [of ts1] by (simp add: yieldsM_def counted_as_def)
  next
    case False
    then have "counted_as (ts_test ts) (rc, ts1)" using ts1 by (simp add: counted_as_def)
    then show ?thesis unfolding if_not_P [OF False] by (rule yieldsM_retM)
  qed
  have td: "yieldsM (counted_as (ts_test ts)) (if rc = 0 then run_teardown ts3 else retM (rc, ts3))" if "?mid ts3" for ts3
  proof (cases "rc = 0")
    case True
    then show ?thesis using that teardown_yields [of ts3] by (simp add: counted_as_def)
  next
    case False
    from that show ?thesis unfolding if_not_P [OF False] by (rule yieldsM_retM)
  qed
  have fin: "yieldsM (counted_as (ts_test ts)) (bindM (readM cm_error_message) (\<lambda>msg.
     seqM (modM (\<lambda>s. s\<lparr>cm_error_message := None\<rparr>)) (retM (rc', ts4\<lparr>ts_error_message := msg\<rparr>))))"
    if "counted_as (ts_test ts) (rc', ts4)" for rc' ts4
    using that by (intro yieldsM_skip yieldsM_seqM yieldsM_retM) (simp only: counted_as_message)
  show "yieldsM (counted_as (ts_test ts)) (bindM clock_gettime (\<lambda>start.
     bindM (if rc = 0 then run_test_function ts1 else retM ts1) (\<lambda>ts2.
     bindM clock_gettime (\<lambda>finish.
     bindM (cm_secdiff finish start) (\<lambda>runtime.
     let ts3 = ts2\<lparr>ts_runtime := runtime\<rparr> in
     bindM (if rc = 0 then run_teardown ts3 else retM (rc, ts3)) (\<lambda>(rc, ts4).
     bindM (readM cm_error_message) (\<lambda>msg.
     seqM (modM (\<lambda>s. s\<lparr>cm_error_message := None\<rparr>))
          (retM (rc, ts4\<lparr>ts_error_message := msg\<rparr>)))))))))"
  proof (rule yieldsM_skip, rule yieldsM_bindM [OF f], rule yieldsM_skip, rule yieldsM_skip, unfold Let_def)
    fix ts2 r assume "?mid ts2"
    then have "?mid (ts2\<lparr>ts_runtime := r\<rparr>)" by (simp only: counted_as_message)
    note td [OF this]
    then show "yieldsM (counted_as (ts_test ts)) (bindM (if rc = 0 then run_teardown (ts2\<lparr>ts_runtime := r\<rparr>) else retM (rc, ts2\<lparr>ts_runtime := r\<rparr>)) (\<lambda>(rc, ts4).
     bindM (readM cm_error_message) (\<lambda>msg.
     seqM (modM (\<lambda>s. s\<lparr>cm_error_message := None\<rparr>))
          (retM (rc, ts4\<lparr>ts_error_message := msg\<rparr>)))))"
      by (rule yieldsM_bindM) (clarify, rule fin)
  qed
qed

definition status_count :: "CMUnitTestStatus \<Rightarrow> CMUnitTestState list \<Rightarrow> nat" where
  "status_count st ts = length (filter (\<lambda>t. ts_status t = st) ts)"

definition totals_ok :: "group_totals \<Rightarrow> CMUnitTestState list \<Rightarrow> group_totals \<Rightarrow> bool" where
  "totals_ok tot0 ts tot \<longleftrightarrow> total_executed tot = total_executed tot0 + length ts
     \<and> total_passed tot = total_passed tot0 + status_count CM_TEST_PASSED ts
     \<and> total_failed tot = total_failed tot0 + status_count CM_TEST_FAILED ts
     \<and> total_errors tot = total_errors tot0 + status_count CM_TEST_ERROR ts
     \<and> total_skipped tot = total_skipped tot0 + status_count CM_TEST_SKIPPED ts
     \<and> status_count CM_TEST_NOT_STARTED ts = 0"

lemma report_test_yields:
  assumes "counted_as test (rc, ts)"
  shows "yieldsM (\<lambda>tot'. totals_ok (tot0\<lparr>total_executed := total_executed tot0 - 1\<rparr>) [ts] tot' \<or> total_executed tot0 = 0) (report_test n rc ts tot0)"
  using assms unfolding report_test_def counted_as_def Let_def
  by (cases "ts_status ts") (auto intro!: yieldsM_seqM yieldsM_retM simp: totals_ok_def status_count_def)

lemma totals_ok_Cons: "totals_ok tot0 [t] tot1 \<Longrightarrow> totals_ok tot1 ts tot2 \<Longrightarrow> totals_ok tot0 (t # ts) tot2"
  by (auto simp: totals_ok_def status_count_def split: if_splits)

lemma run_all_yields:
  "yieldsM (\<lambda>(tot', ts'). totals_ok tot ts' tot' \<and> map ts_test ts' = map ts_test ts) (run_all i ts tot)"
proof (induction ts arbitrary: i tot)
  case Nil
  show ?case unfolding run_all.simps by (rule yieldsM_retM) (simp add: totals_ok_def status_count_def)
next
  case (Cons t ts)
  show ?case
    unfolding run_all.simps
  proof (rule yieldsM_seqM, rule yieldsM_seqM, rule yieldsM_bindM [OF one_tests_yields], clarify, rule yieldsM_skip)
    fix rc d add assume d: "counted_as (ts_test t) (rc, d)"
    let ?tot1 = "tot\<lparr>total_executed := total_executed tot + 1, total_runtime := add (total_runtime tot) (ts_runtime d)\<rparr>"
    show "yieldsM (\<lambda>(tot', ts'). totals_ok tot ts' tot' \<and> map ts_test ts' = map ts_test (t # ts))
      (bindM (report_test (i + 1) rc d ?tot1) (\<lambda>tot'. bindM (run_all (i + 1) ts tot') (\<lambda>(tot'', dones). retM (tot'', d # dones))))"
    proof (rule yieldsM_bindM [OF report_test_yields [OF d]], rule yieldsM_bindM [OF Cons.IH], clarify, rule yieldsM_retM)
      fix tot1 tot2 dones
      assume a: "totals_ok (?tot1\<lparr>total_executed := total_executed ?tot1 - 1\<rparr>) [d] tot1 \<or> total_executed ?tot1 = 0"
        "totals_ok tot1 dones tot2" "map ts_test dones = map ts_test ts"
      then have "totals_ok tot [d] tot1" by (simp add: totals_ok_def)
      from totals_ok_Cons [OF this a(2)] d a(3)
      show "case (tot2, d # dones) of (tot', ts') \<Rightarrow> totals_ok tot ts' tot' \<and> map ts_test ts' = map ts_test (t # ts)"
        by (simp add: counted_as_def)
    qed
  qed
qed

lemma map_test_new: "map ts_test (map (\<lambda>(i, t). new_test_state i t) (enumerate k ts)) = ts"
  by (induction ts arbitrary: k) (simp_all add: new_test_state_def)

lemma status_count_sum:
  "status_count CM_TEST_NOT_STARTED ts = 0 \<Longrightarrow>
     status_count CM_TEST_PASSED ts + status_count CM_TEST_FAILED ts + status_count CM_TEST_ERROR ts
     + status_count CM_TEST_SKIPPED ts = length ts"
  unfolding status_count_def
proof (induction ts)
  case (Cons t ts)
  then show ?case by (cases "ts_status t") auto
qed simp

definition group_ran :: "CMUnitTest list \<Rightarrow> group_totals \<Rightarrow> CMUnitTestState list \<Rightarrow> bool" where
  "group_ran selected tot ts \<longleftrightarrow> map ts_test ts = selected \<and> total_executed tot = length selected
     \<and> total_passed tot = status_count CM_TEST_PASSED ts \<and> total_failed tot = status_count CM_TEST_FAILED ts
     \<and> total_errors tot = status_count CM_TEST_ERROR ts \<and> total_skipped tot = status_count CM_TEST_SKIPPED ts
     \<and> status_count CM_TEST_NOT_STARTED ts = 0
     \<and> total_passed tot + total_failed tot + total_errors tot + total_skipped tot = total_executed tot"

lemma run_all_group:
  assumes "run_all 0 (map (\<lambda>(i, t). new_test_state i t) (enumerate 0 selected)) no_totals s = (Ret (tot, ts), t)"
  shows "group_ran selected tot ts"
proof -
  have "totals_ok no_totals ts tot" "map ts_test ts = selected"
    using yieldsMD [OF run_all_yields assms] by (simp_all only: prod.case map_test_new)
  moreover have "length ts = length selected" using calculation(2) by (metis length_map)
  ultimately show ?thesis
    using status_count_sum [of ts] by (simp add: group_ran_def totals_ok_def no_totals_def)
qed

lemma group_body_cases:
  assumes "run_group_body g selected gs cp s = (Ret (tot, ts), t)"
  shows "\<exists>rc s1. run_group_setup gs cp s = (Ret rc, s1) \<and>
    (if rc = 0 then group_ran selected tot ts else tot = no_totals\<lparr>total_errors := 1\<rparr>)"
proof -
  from assms obtain rc s1 where rc: "run_group_setup gs cp s = (Ret rc, s1)"
    and r: "(let cm_tests = map (\<lambda>(i, t). new_test_state i t) (enumerate 0 selected) in
       if rc = 0 then run_all 0 cm_tests no_totals
       else seqM (fixture_error g ''[  FAILED  ] GROUP SETUP'')
              (retM (no_totals\<lparr>total_errors := 1\<rparr>, cm_tests))) s1 = (Ret (tot, ts), t)"
    unfolding run_group_body_def bindM_Ret_iff by blast
  show ?thesis
  proof (cases "rc = 0")
    case True
    then show ?thesis using rc run_all_group [of selected s1 tot ts t] r by (simp add: Let_def)
  next
    case False
    then have "tot = no_totals\<lparr>total_errors := 1\<rparr>" using r by (simp add: Let_def seqM_Ret_iff)
    then show ?thesis using rc False by simp
  qed
qed

lemma sint_small_nat: "n < 2 ^ 31 \<Longrightarrow> sint (word_of_nat n :: 32 word) = int n"
  by (simp add: signed_of_nat signed_take_bit_int_eq_self)

section \<open>Properties of a group\<close>

text \<open>
  C21. The totals of a group are exact, whatever the test functions do, as long as they hand
  control back: when the group setup succeeds, every selected test is executed, in order,
  and counted under exactly one heading, the one of its own status; no test is left as not
  started, so the report \<^verbatim>\<open>Internal cmocka error\<close> is never made. When the group setup
  fails, no test is run and one error is counted.
\<close>

theorem group_totals_exact:
  assumes "run_group_body g selected gs cp s = (Ret (tot, ts), t)"
  shows "\<exists>rc s1. run_group_setup gs cp s = (Ret rc, s1)
    \<and> (rc = 0 \<longrightarrow> map ts_test ts = selected \<and> total_executed tot = length selected
       \<and> total_passed tot = status_count CM_TEST_PASSED ts \<and> total_failed tot = status_count CM_TEST_FAILED ts
       \<and> total_errors tot = status_count CM_TEST_ERROR ts \<and> total_skipped tot = status_count CM_TEST_SKIPPED ts
       \<and> total_passed tot + total_failed tot + total_errors tot + total_skipped tot = total_executed tot
       \<and> (\<forall>x \<in> set ts. ts_status x \<noteq> CM_TEST_NOT_STARTED))
    \<and> (rc \<noteq> 0 \<longrightarrow> tot = no_totals\<lparr>total_errors := 1\<rparr>)"
proof -
  obtain rc s1 where "run_group_setup gs cp s = (Ret rc, s1)"
    and "if rc = 0 then group_ran selected tot ts else tot = no_totals\<lparr>total_errors := 1\<rparr>"
    using group_body_cases [OF assms] by blast
  then show ?thesis
    by (intro exI [of _ rc] exI [of _ s1])
       (auto simp: group_ran_def status_count_def filter_empty_conv)
qed

text \<open>
  C20. The exit status of a group: when \<^verbatim>\<open>_cmocka_run_group_tests\<close> returns and its array
  could be allocated, the selected tests have been run as in the totals above, and the
  result is the number of failed tests and errors. It is 0 exactly when every selected test
  passed or was skipped and the group setup succeeded.
\<close>

theorem group_exit_status:
  assumes "cm_cmocka_run_group_tests g tests gs gt s = (Ret r, t)" and "length tests < 2 ^ 31 - 1"
    and "libc_malloc s (malloc_calls s) (sizeof_CMUnitTestState * word_of_nat (length tests)) \<noteq> 0"
  shows "\<exists>cp s1 s2 tot ts rc s3.
      run_group_body g (filter (selects (global_test_filter_pattern s) (global_skip_filter_pattern s)) tests) gs cp s1
        = (Ret (tot, ts), s2)
    \<and> run_group_setup gs cp s1 = (Ret rc, s3)
    \<and> r = int (total_failed tot + total_errors tot)
    \<and> (r = 0 \<longleftrightarrow> rc = 0 \<and> (\<forall>x \<in> set ts. ts_status x \<in> {CM_TEST_PASSED, CM_TEST_SKIPPED}))"
proof -
  let ?sel = "filter (selects (global_test_filter_pattern s) (global_skip_filter_pattern s)) tests"
  from assms(1,3) obtain cp s1 s2 tot ts where body: "run_group_body g ?sel gs cp s1 = (Ret (tot, ts), s2)"
    and r: "r = sint (word_of_nat (total_failed tot + total_errors tot) :: 32 word)"
    unfolding cm_cmocka_run_group_tests_def bindM_Ret_iff seqM_Ret_iff
    by (auto simp: check_point_allocated_blocks_def calloc_tests_def bindM_Ret_iff seqM_Ret_iff)
  obtain rc s3 where rc: "run_group_setup gs cp s1 = (Ret rc, s3)"
    and ran: "if rc = 0 then group_ran ?sel tot ts else tot = no_totals\<lparr>total_errors := 1\<rparr>"
    using group_body_cases [OF body] by blast
  have "total_failed tot + total_errors tot \<le> length tests \<or> total_failed tot + total_errors tot = 1"
  proof (cases "rc = 0")
    case True
    then have "total_failed tot + total_errors tot \<le> length ?sel" using ran by (simp add: group_ran_def)
    with length_filter_le show ?thesis by (metis le_trans)
  next
    case False
    then show ?thesis using ran by (simp add: no_totals_def)
  qed
  then have le: "total_failed tot + total_errors tot < 2 ^ 31" using assms(2) by auto
  have ri: "r = int (total_failed tot + total_errors tot)"
    unfolding r by (rule sint_small_nat [OF le])
  have "r = 0 \<longleftrightarrow> rc = 0 \<and> (\<forall>x \<in> set ts. ts_status x \<in> {CM_TEST_PASSED, CM_TEST_SKIPPED})"
  proof (cases "rc = 0")
    case True
    then have g: "status_count CM_TEST_NOT_STARTED ts = 0" "r = int (status_count CM_TEST_FAILED ts + status_count CM_TEST_ERROR ts)"
      using ran ri by (simp_all add: group_ran_def)
    then have g: "status_count CM_TEST_NOT_STARTED ts = 0"
      "r = 0 \<longleftrightarrow> status_count CM_TEST_FAILED ts = 0 \<and> status_count CM_TEST_ERROR ts = 0" by (simp, linarith)
    have "ts_status x \<in> {CM_TEST_PASSED, CM_TEST_SKIPPED} \<longleftrightarrow>
        ts_status x \<noteq> CM_TEST_NOT_STARTED \<and> ts_status x \<noteq> CM_TEST_FAILED \<and> ts_status x \<noteq> CM_TEST_ERROR" for x :: CMUnitTestState
      by (cases "ts_status x") auto
    then show ?thesis using True g by (auto simp: status_count_def filter_empty_conv)
  next
    case False
    then show ?thesis using ran ri by (simp add: no_totals_def)
  qed
  then show ?thesis using body rc ri by blast
qed

definition nanoseconds :: "timespec \<Rightarrow> int" where
  "nanoseconds t = tv_sec t * 1000000000 + tv_nsec t"

definition normalised :: "timespec \<Rightarrow> bool" where
  "normalised t \<longleftrightarrow> 0 \<le> tv_nsec t \<and> tv_nsec t < 1000000000"

text \<open>
  C30. The time a test took: on normalised times \<^verbatim>\<open>cm_tspecdiff\<close> is exact to the
  nanosecond and the nanoseconds stay within one second, unless the clock was set back over
  a second boundary in between. In that case the seconds change their sign and the
  nanoseconds do not, and the result is too large by twice the distance of the seconds.
\<close>

theorem elapsed_time_exact:
  assumes "normalised time0" and "normalised time1"
  shows "\<bar>tv_nsec (cm_tspecdiff time1 time0)\<bar> < 1000000000
    \<and> nanoseconds (cm_tspecdiff time1 time0) = nanoseconds time1 - nanoseconds time0
       + (if tv_sec time1 < tv_sec time0 then 2 * (tv_sec time0 - tv_sec time1) * 1000000000 else 0)"
proof -
  have "\<bar>tv_nsec time0 - tv_nsec time1\<bar> div 1000000001 = 0"
    using assms by (intro div_pos_pos_trivial) (auto simp: normalised_def)
  then have "tdiv (tv_nsec time0 - tv_nsec time1) 1000000001 = 0"
    by (simp add: tdiv_def)
  then have "cm_tspecdiff time1 time0 = \<lparr>tv_sec = (tv_sec time1 - tv_sec time0) * (if tv_sec time1 < tv_sec time0 then -1 else 1),
      tv_nsec = tv_nsec time1 - tv_nsec time0\<rparr>"
    using assms by (simp add: cm_tspecdiff_def normalised_def Let_def)
  moreover have "\<bar>tv_nsec time1 - tv_nsec time0\<bar> < 1000000000" using assms unfolding normalised_def by linarith
  ultimately show ?thesis by (simp add: nanoseconds_def)
qed

theorem elapsed_time_exact_witness:
  "nanoseconds (cm_tspecdiff \<lparr>tv_sec = 12, tv_nsec = 100\<rparr> \<lparr>tv_sec = 11, tv_nsec = 999999900\<rparr>) = 200"
  using elapsed_time_exact [of "\<lparr>tv_sec = 11, tv_nsec = 999999900\<rparr>" "\<lparr>tv_sec = 12, tv_nsec = 100\<rparr>"]
  by (simp add: normalised_def nanoseconds_def)

end
