(* ===== verification/Test_Macros.thy ===== *)
theory Test_Macros
  imports Mock_Macros Runner
begin

text \<open>
  The macros of \<^verbatim>\<open>include/cmocka.h\<close> with which a test asserts, allocates and is
  declared: they convert integer arguments to \<^verbatim>\<open>intmax_t\<close> or \<^verbatim>\<open>uintmax_t\<close>, add
  \<^verbatim>\<open>__FILE__\<close> and \<^verbatim>\<open>__LINE__\<close> (arguments here) and fill in the members of a
  \<^verbatim>\<open>struct CMUnitTest\<close>. An integer argument is the value of the C expression.
\<close>

section \<open>Assertions\<close>

definition cast_to_intmax_type :: "int \<Rightarrow> 64 word" where
  "cast_to_intmax_type v = word_of_int v"

text \<open>The text of the condition is an argument.\<close>

definition assert_true :: "int \<Rightarrow> string \<Rightarrow> string \<Rightarrow> int \<Rightarrow> unit cm" where
  "assert_true c c_text fl ln = cm_assert_true (cast_to_uintmax_type c) c_text fl ln"

definition assert_false :: "int \<Rightarrow> string \<Rightarrow> string \<Rightarrow> int \<Rightarrow> unit cm" where
  "assert_false c c_text fl ln = cm_assert_false (cast_to_uintmax_type c) c_text fl ln"

text \<open>
  The arguments are converted to the parameter types \<^verbatim>\<open>intmax_t\<close> and \<^verbatim>\<open>int32_t\<close>; \<^verbatim>\<open>strerror\<close> is a
  parameter.
\<close>

definition assert_return_code :: "(32 word \<Rightarrow> string) \<Rightarrow> int \<Rightarrow> int \<Rightarrow> string \<Rightarrow> string \<Rightarrow> int \<Rightarrow> unit cm" where
  "assert_return_code se rc error rc_text fl ln = cm_assert_return_code se (word_of_int rc) (word_of_int error) rc_text fl ln"

definition assert_ptr_equal_msg :: "addr \<Rightarrow> addr \<Rightarrow> string option \<Rightarrow> string \<Rightarrow> int \<Rightarrow> unit cm" where
  "assert_ptr_equal_msg a b msg fl ln = cm_assert_ptr_equal_msg a b fl ln msg"

definition assert_ptr_equal :: "addr \<Rightarrow> addr \<Rightarrow> string \<Rightarrow> int \<Rightarrow> unit cm" where
  "assert_ptr_equal a b fl ln = assert_ptr_equal_msg a b None fl ln"

definition assert_null_msg :: "addr \<Rightarrow> string option \<Rightarrow> string \<Rightarrow> int \<Rightarrow> unit cm" where
  "assert_null_msg c msg fl ln = assert_ptr_equal_msg c 0 msg fl ln"

definition assert_ptr_not_equal_msg :: "addr \<Rightarrow> addr \<Rightarrow> string option \<Rightarrow> string \<Rightarrow> int \<Rightarrow> unit cm" where
  "assert_ptr_not_equal_msg a b msg fl ln = cm_assert_ptr_not_equal_msg a b fl ln msg"

definition assert_ptr_not_equal :: "addr \<Rightarrow> addr \<Rightarrow> string \<Rightarrow> int \<Rightarrow> unit cm" where
  "assert_ptr_not_equal a b fl ln = assert_ptr_not_equal_msg a b None fl ln"

definition assert_non_null_msg :: "addr \<Rightarrow> string option \<Rightarrow> string \<Rightarrow> int \<Rightarrow> unit cm" where
  "assert_non_null_msg c msg fl ln = assert_ptr_not_equal_msg c 0 msg fl ln"

definition assert_int_equal :: "int \<Rightarrow> int \<Rightarrow> string \<Rightarrow> int \<Rightarrow> unit cm" where
  "assert_int_equal a b fl ln = cm_assert_int_equal (cast_to_intmax_type a) (cast_to_intmax_type b) fl ln"

definition assert_uint_equal :: "int \<Rightarrow> int \<Rightarrow> string \<Rightarrow> int \<Rightarrow> unit cm" where
  "assert_uint_equal a b fl ln = cm_assert_uint_equal (cast_to_uintmax_type a) (cast_to_uintmax_type b) fl ln"

definition assert_int_not_equal :: "int \<Rightarrow> int \<Rightarrow> string \<Rightarrow> int \<Rightarrow> unit cm" where
  "assert_int_not_equal a b fl ln = cm_assert_int_not_equal (cast_to_intmax_type a) (cast_to_intmax_type b) fl ln"

definition assert_uint_not_equal :: "int \<Rightarrow> int \<Rightarrow> string \<Rightarrow> int \<Rightarrow> unit cm" where
  "assert_uint_not_equal a b fl ln = cm_assert_uint_not_equal (cast_to_uintmax_type a) (cast_to_uintmax_type b) fl ln"

definition assert_string_equal :: "addr \<Rightarrow> addr \<Rightarrow> string \<Rightarrow> int \<Rightarrow> unit cm" where
  "assert_string_equal a b fl ln = cm_assert_string_equal a b fl ln"

definition assert_string_not_equal :: "addr \<Rightarrow> addr \<Rightarrow> string \<Rightarrow> int \<Rightarrow> unit cm" where
  "assert_string_not_equal a b fl ln = cm_assert_string_not_equal a b fl ln"

definition assert_memory_equal :: "addr \<Rightarrow> addr \<Rightarrow> 64 word \<Rightarrow> string \<Rightarrow> int \<Rightarrow> unit cm" where
  "assert_memory_equal a b sz fl ln = cm_assert_memory_equal a b sz fl ln"

definition assert_memory_not_equal :: "addr \<Rightarrow> addr \<Rightarrow> 64 word \<Rightarrow> string \<Rightarrow> int \<Rightarrow> unit cm" where
  "assert_memory_not_equal a b sz fl ln = cm_assert_memory_not_equal a b sz fl ln"

definition assert_int_in_range :: "int \<Rightarrow> int \<Rightarrow> int \<Rightarrow> string \<Rightarrow> int \<Rightarrow> unit cm" where
  "assert_int_in_range v minimum maximum fl ln =
     cm_assert_int_in_range (cast_to_intmax_type v) (cast_to_intmax_type minimum) (cast_to_intmax_type maximum) fl ln"

definition assert_uint_in_range :: "int \<Rightarrow> int \<Rightarrow> int \<Rightarrow> string \<Rightarrow> int \<Rightarrow> unit cm" where
  "assert_uint_in_range v minimum maximum fl ln =
     cm_assert_uint_in_range (cast_to_intmax_type v) (cast_to_intmax_type minimum) (cast_to_intmax_type maximum) fl ln"

definition assert_int_not_in_range :: "int \<Rightarrow> int \<Rightarrow> int \<Rightarrow> string \<Rightarrow> int \<Rightarrow> unit cm" where
  "assert_int_not_in_range v minimum maximum fl ln =
     cm_assert_int_not_in_range (cast_to_intmax_type v) (cast_to_intmax_type minimum) (cast_to_intmax_type maximum) fl ln"

definition assert_uint_not_in_range :: "int \<Rightarrow> int \<Rightarrow> int \<Rightarrow> string \<Rightarrow> int \<Rightarrow> unit cm" where
  "assert_uint_not_in_range v minimum maximum fl ln =
     cm_assert_uint_not_in_range (cast_to_uintmax_type v) (cast_to_uintmax_type minimum) (cast_to_uintmax_type maximum) fl ln"

definition assert_in_range :: "int \<Rightarrow> int \<Rightarrow> int \<Rightarrow> string \<Rightarrow> int \<Rightarrow> unit cm" where
  "assert_in_range v minimum maximum fl ln =
     cm_assert_uint_in_range (cast_to_uintmax_type v) (cast_to_uintmax_type minimum) (cast_to_uintmax_type maximum) fl ln"

definition assert_not_in_range :: "int \<Rightarrow> int \<Rightarrow> int \<Rightarrow> string \<Rightarrow> int \<Rightarrow> unit cm" where
  "assert_not_in_range v minimum maximum fl ln =
     cm_assert_uint_not_in_range (cast_to_uintmax_type v) (cast_to_uintmax_type minimum) (cast_to_uintmax_type maximum) fl ln"

definition assert_in_set :: "uintmax \<Rightarrow> uintmax list \<Rightarrow> string \<Rightarrow> int \<Rightarrow> unit cm" where
  "assert_in_set v vals fl ln = cm_assert_uint_in_set v vals fl ln"

definition assert_not_in_set :: "uintmax \<Rightarrow> uintmax list \<Rightarrow> string \<Rightarrow> int \<Rightarrow> unit cm" where
  "assert_not_in_set v vals fl ln = cm_assert_not_in_set v vals fl ln"

section \<open>Leaving a test\<close>

definition fail :: "string \<Rightarrow> int \<Rightarrow> unit cm" where
  "fail fl ln = cm_fail fl ln"

definition skip :: "string \<Rightarrow> int \<Rightarrow> unit cm" where
  "skip fl ln = cm_skip fl ln"

definition stop :: "unit cm" where
  "stop = cm_stop"

section \<open>Allocation\<close>

definition test_malloc :: "64 word \<Rightarrow> string \<Rightarrow> int \<Rightarrow> addr cm" where
  "test_malloc sz fl ln = cm_test_malloc sz fl ln"

definition test_calloc :: "64 word \<Rightarrow> 64 word \<Rightarrow> string \<Rightarrow> int \<Rightarrow> addr cm" where
  "test_calloc num sz fl ln = cm_test_calloc num sz fl ln"

definition test_realloc :: "addr \<Rightarrow> 64 word \<Rightarrow> string \<Rightarrow> int \<Rightarrow> addr cm" where
  "test_realloc ptr sz fl ln = cm_test_realloc ptr sz fl ln"

definition test_free :: "addr \<Rightarrow> string \<Rightarrow> int \<Rightarrow> unit cm" where
  "test_free ptr fl ln = cm_test_free ptr fl ln"

section \<open>Declaring tests\<close>

text \<open>The name of the function, \<^verbatim>\<open>#f\<close>, is an argument; a null pointer is \<open>None\<close> or 0.\<close>

definition cmocka_unit_test_prestate_setup_teardown ::
  "string \<Rightarrow> CMUnitTestFunction option \<Rightarrow> CMFixtureFunction option \<Rightarrow> CMFixtureFunction option \<Rightarrow> addr \<Rightarrow> CMUnitTest" where
  "cmocka_unit_test_prestate_setup_teardown f_text f set_up tear_down state =
     \<lparr>test_name = Some f_text, test_func = f, setup_func = set_up, teardown_func = tear_down, initial_state_ptr = state\<rparr>"

definition cmocka_unit_test :: "string \<Rightarrow> CMUnitTestFunction option \<Rightarrow> CMUnitTest" where
  "cmocka_unit_test f_text f =
     \<lparr>test_name = Some f_text, test_func = f, setup_func = None, teardown_func = None, initial_state_ptr = 0\<rparr>"

definition cmocka_unit_test_setup :: "string \<Rightarrow> CMUnitTestFunction option \<Rightarrow> CMFixtureFunction option \<Rightarrow> CMUnitTest" where
  "cmocka_unit_test_setup f_text f set_up =
     \<lparr>test_name = Some f_text, test_func = f, setup_func = set_up, teardown_func = None, initial_state_ptr = 0\<rparr>"

definition cmocka_unit_test_teardown :: "string \<Rightarrow> CMUnitTestFunction option \<Rightarrow> CMFixtureFunction option \<Rightarrow> CMUnitTest" where
  "cmocka_unit_test_teardown f_text f tear_down =
     \<lparr>test_name = Some f_text, test_func = f, setup_func = None, teardown_func = tear_down, initial_state_ptr = 0\<rparr>"

definition cmocka_unit_test_setup_teardown ::
  "string \<Rightarrow> CMUnitTestFunction option \<Rightarrow> CMFixtureFunction option \<Rightarrow> CMFixtureFunction option \<Rightarrow> CMUnitTest" where
  "cmocka_unit_test_setup_teardown f_text f set_up tear_down =
     \<lparr>test_name = Some f_text, test_func = f, setup_func = set_up, teardown_func = tear_down, initial_state_ptr = 0\<rparr>"

definition cmocka_unit_test_prestate :: "string \<Rightarrow> CMUnitTestFunction option \<Rightarrow> addr \<Rightarrow> CMUnitTest" where
  "cmocka_unit_test_prestate f_text f state =
     \<lparr>test_name = Some f_text, test_func = f, setup_func = None, teardown_func = None, initial_state_ptr = state\<rparr>"

definition cmocka_run_group_tests_name ::
  "string \<Rightarrow> CMUnitTest list \<Rightarrow> CMFixtureFunction option \<Rightarrow> CMFixtureFunction option \<Rightarrow> int cm" where
  "cmocka_run_group_tests_name group_name group_tests group_setup group_teardown =
     cm_cmocka_run_group_tests group_name group_tests group_setup group_teardown"

definition cmocka_run_group_tests ::
  "string \<Rightarrow> CMUnitTest list \<Rightarrow> CMFixtureFunction option \<Rightarrow> CMFixtureFunction option \<Rightarrow> int cm" where
  "cmocka_run_group_tests group_tests_text group_tests group_setup group_teardown =
     cm_cmocka_run_group_tests group_tests_text group_tests group_setup group_teardown"

section \<open>Properties\<close>

text \<open>The value of an integer as a 64-bit signed number.\<close>

definition as_signed :: "int \<Rightarrow> int" where
  "as_signed v = (v + 2 ^ 63) mod 2 ^ 64 - 2 ^ 63"

lemma sint_as_signed: "sint (word_of_int v :: 64 word) = as_signed v"
  by (simp add: sint_sbintrunc' signed_take_bit_eq_take_bit_shift as_signed_def take_bit_eq_mod)

lemma uint_64: "uint (word_of_int v :: 64 word) = v mod 2 ^ 64"
  by (simp add: uint_word_of_int)

lemma word_of_int_eq_mod: "(word_of_int a :: 64 word) = word_of_int b \<longleftrightarrow> a mod 2 ^ 64 = b mod 2 ^ 64"
  using word_of_int_eq_iff [of a b, where 'a = 64] by (simp add: take_bit_eq_mod)

lemma run_exactly: "asserted a s = Some b \<Longrightarrow> asserts_exactly b (run_assertion (\<lambda>_. []) a fl ln) s"
  by (rule assertsM_at [OF run_assertion_asserts])

text \<open>
  C39. What the assertion macros mean for the values of their arguments, of whatever integer type:
  conditions and equality are exact modulo \<open>2\<^sup>6\<^sup>4\<close>, so that no two values of one C type are
  confused; \<^verbatim>\<open>assert_int_in_range\<close> compares the values as signed numbers, and
  \<^verbatim>\<open>assert_in_range\<close>, \<^verbatim>\<open>assert_not_in_range\<close> and the \<^verbatim>\<open>uint\<close> macros as unsigned ones, where a
  negative bound is a huge one. The set macros pass on an empty set, unlike the functions
  they wrap.
\<close>

theorem assertion_macros:
  "asserts_exactly (a mod 2 ^ 64 \<noteq> 0) (assert_true a e fl l) s
    \<and> asserts_exactly (a mod 2 ^ 64 = 0) (assert_false a e fl l) s
    \<and> asserts_exactly (a mod 2 ^ 64 = b mod 2 ^ 64) (assert_int_equal a b fl l) s
    \<and> asserts_exactly (a mod 2 ^ 64 \<noteq> b mod 2 ^ 64) (assert_int_not_equal a b fl l) s
    \<and> asserts_exactly (a mod 2 ^ 64 = b mod 2 ^ 64) (assert_uint_equal a b fl l) s
    \<and> asserts_exactly (a mod 2 ^ 64 \<noteq> b mod 2 ^ 64) (assert_uint_not_equal a b fl l) s
    \<and> asserts_exactly (as_signed b \<le> as_signed a \<and> as_signed a \<le> as_signed c) (assert_int_in_range a b c fl l) s
    \<and> asserts_exactly (as_signed a < as_signed b \<or> as_signed c < as_signed a) (assert_int_not_in_range a b c fl l) s
    \<and> asserts_exactly (b mod 2 ^ 64 \<le> a mod 2 ^ 64 \<and> a mod 2 ^ 64 \<le> c mod 2 ^ 64) (assert_in_range a b c fl l) s
    \<and> asserts_exactly (a mod 2 ^ 64 < b mod 2 ^ 64 \<or> c mod 2 ^ 64 < a mod 2 ^ 64) (assert_not_in_range a b c fl l) s
    \<and> asserts_exactly (b mod 2 ^ 64 \<le> a mod 2 ^ 64 \<and> a mod 2 ^ 64 \<le> c mod 2 ^ 64) (assert_uint_in_range a b c fl l) s
    \<and> asserts_exactly (p = 0) (assert_null p fl l) s \<and> asserts_exactly (p \<noteq> 0) (assert_non_null p fl l) s
    \<and> asserts_exactly (ws = [] \<or> w \<in> set ws) (assert_int_in_set w ws fl l) s
    \<and> asserts_exactly (ws = [] \<or> w \<in> set ws) (assert_uint_in_set w ws fl l) s
    \<and> asserts_exactly (w \<in> set ws) (assert_in_set w ws fl l) s
    \<and> asserts_exactly (w \<in> set ws) (cm_assert_int_in_set w ws fl l) s"
proof -
  note x = asserted.simps(1,2,4-9,14-17,19,21) [THEN run_exactly, unfolded run_assertion.simps]
  have z: "(word_of_int a :: 64 word) = 0 \<longleftrightarrow> a mod 2 ^ 64 = 0" using word_of_int_eq_mod [of a 0] by simp
  have u: "(word_of_int m :: 64 word) \<le> word_of_int n \<longleftrightarrow> m mod 2 ^ 64 \<le> n mod 2 ^ 64" for m n
    unfolding word_le_def uint_64 ..
  have set: "asserts_exactly (ws = [] \<or> b) (whenM (length ws > 0) m) s" if "asserts_exactly b m s" for b m and ws :: "(64 word) list"
    using that by (cases ws) (simp_all add: asserts_exactly_def)
  have "asserts_exactly (a mod 2 ^ 64 \<noteq> 0) (assert_true a e fl l) s" "asserts_exactly (a mod 2 ^ 64 = 0) (assert_false a e fl l) s"
    unfolding assert_true_def assert_false_def cast_to_uintmax_type_def z [symmetric] by (rule x(1,2))+
  moreover have "asserts_exactly (a mod 2 ^ 64 = b mod 2 ^ 64) (assert_int_equal a b fl l) s"
    "asserts_exactly (a mod 2 ^ 64 \<noteq> b mod 2 ^ 64) (assert_int_not_equal a b fl l) s"
    "asserts_exactly (a mod 2 ^ 64 = b mod 2 ^ 64) (assert_uint_equal a b fl l) s"
    "asserts_exactly (a mod 2 ^ 64 \<noteq> b mod 2 ^ 64) (assert_uint_not_equal a b fl l) s"
    unfolding assert_int_equal_def assert_int_not_equal_def assert_uint_equal_def assert_uint_not_equal_def
      cast_to_uintmax_type_def cast_to_intmax_type_def word_of_int_eq_mod [symmetric] by (rule x(3-6))+
  moreover have "asserts_exactly (as_signed b \<le> as_signed a \<and> as_signed a \<le> as_signed c) (assert_int_in_range a b c fl l) s"
    "asserts_exactly (\<not> (as_signed b \<le> as_signed a \<and> as_signed a \<le> as_signed c)) (assert_int_not_in_range a b c fl l) s"
    unfolding assert_int_in_range_def assert_int_not_in_range_def cast_to_intmax_type_def sint_as_signed [symmetric]
    by (rule x(9,10))+
  moreover have "asserts_exactly (b mod 2 ^ 64 \<le> a mod 2 ^ 64 \<and> a mod 2 ^ 64 \<le> c mod 2 ^ 64) (assert_in_range a b c fl l) s"
    "asserts_exactly (\<not> (b mod 2 ^ 64 \<le> a mod 2 ^ 64 \<and> a mod 2 ^ 64 \<le> c mod 2 ^ 64)) (assert_not_in_range a b c fl l) s"
    "asserts_exactly (b mod 2 ^ 64 \<le> a mod 2 ^ 64 \<and> a mod 2 ^ 64 \<le> c mod 2 ^ 64) (assert_uint_in_range a b c fl l) s"
    unfolding assert_in_range_def assert_not_in_range_def assert_uint_in_range_def cast_to_uintmax_type_def
      cast_to_intmax_type_def u [symmetric] by (rule x(11,12))+
  moreover have "asserts_exactly (p = 0) (assert_null p fl l) s" "asserts_exactly (p \<noteq> 0) (assert_non_null p fl l) s"
    unfolding assert_null_def assert_non_null_def by (rule x(7,8))+
  moreover have "asserts_exactly (ws = [] \<or> w \<in> set ws) (assert_int_in_set w ws fl l) s"
    "asserts_exactly (ws = [] \<or> w \<in> set ws) (assert_uint_in_set w ws fl l) s"
    "asserts_exactly (w \<in> set ws) (assert_in_set w ws fl l) s" "asserts_exactly (w \<in> set ws) (cm_assert_int_in_set w ws fl l) s"
    unfolding assert_int_in_set_def assert_uint_in_set_def assert_in_set_def by (rule set x(13,14))+
  ultimately show ?thesis unfolding de_Morgan_conj not_le by blast
qed

end
