(* ===== verification/Runner_Contract.thy ===== *)
theory Runner_Contract
  imports Runner
begin

text \<open>
  What the runner of \<^verbatim>\<open>src/cmocka.c\<close> promises for one test: how the outcome of the test
  function, the leak check and the leftover values decide the result, and what is cleaned up
  afterwards. The leak check changes nothing that the mock objects own, and the leftover
  check changes nothing of the heap; both facts are instances of one interface, a view of the
  state that messages do not change.
\<close>

section \<open>Views of the state\<close>

locale framed_view =
  fixes view :: "cm_state \<Rightarrow> 'v"
  assumes view_frame: "\<And>s t. msg_frame s t \<Longrightarrow> view t = view s"
begin

lemma view_blind: "message_blind (\<lambda>s. view s = v)"
  using view_frame by unfold_locales simp

lemma keeps_frame: "framesM m \<Longrightarrow> keepsM (\<lambda>s. view s = v) m"
  by (rule message_blind.keeps_framed [OF view_blind])

lemma keeps_update: "(\<And>s. view (f s) = view s) \<Longrightarrow> keepsM (\<lambda>s. view s = v) (modM f)"
  by (simp add: keepsM_def)

lemma keeps_loads:
  "(\<And>s. snd (m s) = s) \<Longrightarrow> keepsM (\<lambda>s. view s = v) m"
  by (simp add: keepsM_def)

end

text \<open>What belongs to the runner, to the allocator and to the mock objects.\<close>

definition jobs :: "cm_state \<Rightarrow> (bool \<times> bool \<times> (string \<Rightarrow> string option)) \<times> bool \<times> nat list \<times> (int \<Rightarrow> nat) \<times> (nat \<Rightarrow> addr)" where
  "jobs s = (control s, global_stop_test s, default_signal_functions s, signal_table s, state_cells s)"

definition heap_view :: "cm_state \<Rightarrow> (addr \<rightharpoonup> byte) \<times> (addr \<rightharpoonup> MallocBlockInfoData) \<times> (addr \<rightharpoonup> 64 word) \<times> addr list
    \<times> (MallocBlockInfoData \<Rightarrow> addr \<Rightarrow> byte)" where
  "heap_view s = (memory s, block_infos s, libc_blocks s, global_allocated_blocks s, info_image s)"

definition mock_view ::
  "cm_state \<Rightarrow> sym_node list \<times> sym_node list \<times> (int \<times> nat) list \<times> (nat \<rightharpoonup> heap_obj) \<times> nat" where
  "mock_view s = (global_function_result_map_head s, global_function_parameter_map_head s,
     global_call_ordering_head s, heap_objs s, next_obj s)"

interpretation heap_jobs: framed_view "\<lambda>s. (jobs s, heap_view s)"
  by unfold_locales (simp add: jobs_def heap_view_def control_def msg_frame_fields)

interpretation mock_jobs: framed_view "\<lambda>s. (jobs s, mock_view s)"
  by unfold_locales (simp add: jobs_def mock_view_def control_def msg_frame_fields)

lemma heap_inv_view: "heap_view t = heap_view s \<Longrightarrow> heap_inv t = heap_inv s"
  by (simp add: heap_view_def heap_defs)

lemma mock_inv_view: "mock_view t = mock_view s \<Longrightarrow> mock_inv t = mock_inv s" "mock_view t = mock_view s \<Longrightarrow> leftover t = leftover s"
  by (simp_all add: mock_view_def mock_inv_def owned_def kinds_ok_def counts_ok_def leftover_def)

lemma failure_outcome_jobs: "jobs t = jobs s \<Longrightarrow> failure_outcome t = failure_outcome s"
  by (rule failure_outcome_control) (simp add: jobs_def)

section \<open>The leftover check leaves the heap alone\<close>

lemma heap_jobs_free_object: "keepsM (\<lambda>s. (jobs s, heap_view s) = v) (free_object p)"
  by (auto simp: keepsM_def free_object_def jobs_def heap_view_def control_def)

lemma heap_jobs_leftovers: "keepsM (\<lambda>s. (jobs s, heap_view s) = v) has_leftover_values"
proof -
  note k = keepsM_bindM keepsM_seqM keepsM_forM keepsM_readM keepsM_retM keepsM_throwM
  have u: "keepsM (\<lambda>s. (jobs s, heap_view s) = v) (modM (\<lambda>s. s\<lparr>global_function_result_map_head := m\<rparr>))"
    "keepsM (\<lambda>s. (jobs s, heap_view s) = v) (modM (\<lambda>s. s\<lparr>global_function_parameter_map_head := m\<rparr>))"
    "keepsM (\<lambda>s. (jobs s, heap_view s) = v) (modM (\<lambda>s. s\<lparr>global_call_ordering_head := q\<rparr>))" for m q
    by (rule heap_jobs.keeps_update, simp add: jobs_def heap_view_def control_def)+
  have "keepsM (\<lambda>s. (jobs s, heap_view s) = v) (report_leftover_map g msg n)" for g msg n
    unfolding report_leftover_map_def by (intro k keepsM_if heap_jobs.keeps_frame [OF framesM_print(4)])
  moreover have "keepsM (\<lambda>s. (jobs s, heap_view s) = v) (check_for_leftover_values_list msg)" for msg
    by (rule heap_jobs.keeps_frame) (rule framesM_leftover_calls)
  moreover have "keepsM (\<lambda>s. (jobs s, heap_view s) = v) remove_always_results"
    "keepsM (\<lambda>s. (jobs s, heap_view s) = v) remove_always_parameters"
    "keepsM (\<lambda>s. (jobs s, heap_view s) = v) remove_always_return_values_from_list"
    unfolding remove_always_results_def remove_always_parameters_def remove_always_return_values_from_list_def
    by (intro k u heap_jobs_free_object)+
  ultimately show ?thesis unfolding has_leftover_values_def by (intro k)
qed

section \<open>The leak check leaves the mock objects alone\<close>

lemma mock_jobs_test_free: "keepsM (\<lambda>s. (jobs s, mock_view s) = v) (cm_test_free p fl l)"
proof -
  note k = keepsM_bindM keepsM_seqM keepsM_forM keepsM_readM keepsM_retM keepsM_whenM keepsM_if
  have "keepsM (\<lambda>s. (jobs s, mock_view s) = v) (memset_at a b n)" for a b n
    by (auto simp: keepsM_def memset_at_def jobs_def mock_view_def control_def)
  moreover have "keepsM (\<lambda>s. (jobs s, mock_view s) = v) (free_libc a)" for a
    by (auto simp: keepsM_def free_libc_def jobs_def mock_view_def control_def split: option.split)
  moreover have "keepsM (\<lambda>s. (jobs s, mock_view s) = v) (load_block_info i)" for i
    by (rule mock_jobs.keeps_loads) (simp add: load_block_info_def split: option.split)
  moreover have "keepsM (\<lambda>s. (jobs s, mock_view s) = v) (load_byte a)" for a
    by (rule mock_jobs.keeps_loads) (simp add: load_byte_def split: option.split)
  then have "keepsM (\<lambda>s. (jobs s, mock_view s) = v) (check_guard_byte q d fl l a)" for q d a
    unfolding check_guard_byte_def Let_def 
    by (intro k mock_jobs.keeps_frame [OF framesM_print(4)] mock_jobs.keeps_frame [OF framesM_fail(3)])
  moreover have "framesM (cm_assert_ptr_not_equal_msg p 0 fl l None)"
    unfolding cm_assert_ptr_not_equal_msg_def ptr_values_not_equal_display_error_def display_if_not_def
    by (intro cm_mono)
  then have "keepsM (\<lambda>s. (jobs s, mock_view s) = v) (cm_assert_ptr_not_equal_msg p 0 fl l None)"
    by (rule mock_jobs.keeps_frame)
  moreover have "keepsM (\<lambda>s. (jobs s, mock_view s) = v) (modM (\<lambda>s. s\<lparr>global_allocated_blocks := f s\<rparr>))"
    "keepsM (\<lambda>s. (jobs s, mock_view s) = v) (modM (\<lambda>s. s\<lparr>block_infos := g s\<rparr>))" for f g
    by (rule mock_jobs.keeps_update, simp add: jobs_def mock_view_def control_def)+
  ultimately show ?thesis unfolding cm_test_free_def by (intro k)
qed

lemma mock_jobs_leaks: "keepsM (\<lambda>s. (jobs s, mock_view s) = v) (fail_if_blocks_allocated cp name)"
proof -
  note k = keepsM_bindM keepsM_seqM keepsM_forM keepsM_readM keepsM_retM keepsM_whenM
  have nodes: "keepsM (\<lambda>s. (jobs s, mock_view s) = v) (nodes_after c)" for c
    by (rule mock_jobs.keeps_loads) (simp add: nodes_after_def split: option.split)
  have info: "keepsM (\<lambda>s. (jobs s, mock_view s) = v) (load_block_info i)" for i
    by (rule mock_jobs.keeps_loads) (simp add: load_block_info_def split: option.split)
  have nn: "framesM (assert_non_null i fl l)" for i fl l
    unfolding assert_non_null_def cm_assert_ptr_not_equal_msg_def ptr_values_not_equal_display_error_def display_if_not_def
    by (intro cm_mono)
  have "keepsM (\<lambda>s. (jobs s, mock_view s) = v) (display_blocks n is)" for n "is"
  proof (induction "is" arbitrary: n)
    case (Cons i "is")
    show ?case
      unfolding display_blocks.simps
      by (intro k Cons info mock_jobs.keeps_frame [OF nn] mock_jobs.keeps_frame [OF framesM_print(4)])
  qed (simp add: keepsM_def)
  then have "keepsM (\<lambda>s. (jobs s, mock_view s) = v) (display_allocated_blocks cp)"
    unfolding display_allocated_blocks_def by (intro k nodes)
  moreover have "keepsM (\<lambda>s. (jobs s, mock_view s) = v) (free_allocated_blocks cp)"
    unfolding free_allocated_blocks_def by (intro k nodes mock_jobs_test_free)
  ultimately show ?thesis
    unfolding fail_if_blocks_allocated_def
    by (intro k mock_jobs.keeps_frame [OF framesM_print(4)] mock_jobs.keeps_frame [OF framesM_exit_test])
qed

section \<open>The frame around a test function\<close>

definition newest :: "addr list \<Rightarrow> addr option" where
  "newest bs = (case rev bs of [] \<Rightarrow> None | i # _ \<Rightarrow> Some i)"

text \<open>The state in which a test function starts.\<close>

definition started :: "cm_state \<Rightarrow> cm_state" where
  "started s = s\<lparr>state_cells := (state_cells s)(local_cell := 0),
     default_signal_functions := map (signal_table s) exception_signals,
     signal_table := (\<lambda>sig. if sig \<in> set exception_signals then exception_handler_fn else signal_table s sig),
     global_function_result_map_head := [], global_last_mock_value_location := initialize_source_location,
     global_function_parameter_map_head := [], global_last_parameter_location := initialize_source_location,
     global_call_ordering_head := [], global_running_test := True\<rparr>"

definition guarded ::
  "string \<Rightarrow> CMUnitTestFunction option \<Rightarrow> CMFixtureFunction option \<Rightarrow> CMFixtureFunction option \<Rightarrow>
   nat \<Rightarrow> addr option \<Rightarrow> int cm" where
  "guarded name test setup teardown cell cp = setjmpM
     (bindM (run_function name test setup teardown cell cp) (\<lambda>rc.
        seqM fail_if_leftover_values (seqM (modM (\<lambda>s. s\<lparr>global_running_test := False\<rparr>)) (retM rc))))
     test_failed"

lemma run_one_started:
  "cmocka_run_one_test_or_fixture name test setup teardown (Some cell) hcp s =
     bindM (guarded name test setup teardown cell (case hcp of None \<Rightarrow> newest (global_allocated_blocks s) | Some cp \<Rightarrow> cp))
       (\<lambda>rc. seqM teardown_testing (seqM restore_handlers (retM rc))) (started s)"
proof -
  have cp: "(case hcp of Some cp \<Rightarrow> retM cp | None \<Rightarrow> check_point_allocated_blocks) s
      = (Ret (case hcp of None \<Rightarrow> newest (global_allocated_blocks s) | Some cp \<Rightarrow> cp), s)"
    by (cases hcp) (simp_all add: check_point_allocated_blocks_def newest_def)
  have skip: "seqM (modM f) n u = n (f u)" for f n and u :: cm_state by (simp add: run_simps)
  show ?thesis
    unfolding cmocka_run_one_test_or_fixture_def
      bindM_Ret [where m = "case hcp of Some cp \<Rightarrow> retM cp | None \<Rightarrow> check_point_allocated_blocks", OF cp]
      install_handlers_def initialize_testing_def skip guarded_def [symmetric] option.case
    by (simp add: started_def cong: if_cong)
qed

definition finished :: "cm_state \<Rightarrow> cm_state" where
  "finished s = (torn_down s)\<lparr>signal_table :=
     set_handlers (zip exception_signals (default_signal_functions s)) (signal_table s)\<rparr>"

lemma run_one_finished:
  assumes "guarded name test setup teardown cell (case hcp of None \<Rightarrow> newest (global_allocated_blocks s) | Some cp \<Rightarrow> cp)
     (started s) = (Ret rc, t)" and "mock_inv t"
  shows "cmocka_run_one_test_or_fixture name test setup teardown (Some cell) hcp s = (Ret rc, finished t)"
  unfolding run_one_started bindM_Ret [where m = "guarded _ _ _ _ _ _", OF assms(1)]
    seqM_Ret [where m = teardown_testing, OF teardown_run [OF assms(2)]]
  by (simp add: restore_handlers_def run_simps finished_def torn_down_def)

lemma finished_facts:
  assumes "mock_inv t"
  shows "mock_inv (finished t)" "owned (finished t) = []" "heap_view (finished t) = heap_view t"
    "control (finished t) = control t" "global_stop_test (finished t) = global_stop_test t"
    "default_signal_functions t = map tab exception_signals \<Longrightarrow> sig \<in> set exception_signals \<Longrightarrow>
       signal_table (finished t) sig = tab sig"
    "state_cells (finished t) = state_cells t"
proof -
  have "mock_view (finished t) = mock_view (torn_down t)" by (simp add: finished_def mock_view_def)
  then show "mock_inv (finished t)" using mock_inv_view(1) torn_down_inv(1) [OF assms] by blast
  show "owned (finished t) = []" by (simp add: finished_def torn_down_def owned_def)
  show "heap_view (finished t) = heap_view t" "control (finished t) = control t"
    "global_stop_test (finished t) = global_stop_test t" "state_cells (finished t) = state_cells t"
    by (simp_all add: finished_def torn_down_def heap_view_def control_def)
  assume "default_signal_functions t = map tab exception_signals" "sig \<in> set exception_signals"
  then show "signal_table (finished t) sig = tab sig"
    by (auto simp: finished_def exception_signals_def)
qed

section \<open>After a jump\<close>

lemma has_leftover_full:
  assumes "mock_inv s"
  shows "\<exists>t. has_leftover_values s = (Ret (leftover s), t) \<and> mock_inv t \<and> jobs t = jobs s \<and> heap_view t = heap_view s"
proof -
  obtain t where t: "has_leftover_values s = (Ret (leftover s), t)" "mock_inv t"
    using has_leftover_values_run [of "{}" s] assms by auto
  have "(jobs (snd (has_leftover_values s)), heap_view (snd (has_leftover_values s))) = (jobs s, heap_view s)"
    by (rule keepsMD [OF heap_jobs_leftovers]) (rule refl)
  then show ?thesis using t by simp
qed

text \<open>The state of a test that was left, seen from the runner: \<open>u\<close> after \<open>t\<close>.\<close>

definition closed :: "cm_state \<Rightarrow> cm_state \<Rightarrow> bool" where
  "closed t u \<longleftrightarrow> mock_inv u \<and> heap_view u = heap_view t \<and> \<not> global_running_test u
     \<and> default_signal_functions u = default_signal_functions t \<and> \<not> global_stop_test u
     \<and> global_skip_test u = global_skip_test t \<and> env_vars u = env_vars t \<and> state_cells u = state_cells t"

lemma test_failed_run:
  assumes "mock_inv t"
  shows "\<exists>u. test_failed t = (Ret (if global_stop_test t \<and> \<not> leftover t then 0 else - 1), u) \<and> closed t u"
proof -
  let ?t = "t\<lparr>global_running_test := False\<rparr>"
  have v: "mock_view ?t = mock_view t" "heap_view ?t = heap_view t" by (simp_all add: mock_view_def heap_view_def)
  have inv: "mock_inv ?t" and l: "leftover ?t = leftover t" using assms mock_inv_view [OF v(1)] by simp_all
  show ?thesis
  proof (cases "global_stop_test t")
    case True
    obtain u where u: "has_leftover_values ?t = (Ret (leftover t), u)" "mock_inv u" "jobs u = jobs ?t" "heap_view u = heap_view ?t"
      using has_leftover_full [OF inv] l by auto
    have "test_failed t = (Ret (if leftover t then - 1 else 0), u\<lparr>global_stop_test := False\<rparr>)"
      using True u(1) by (simp add: test_failed_def run_simps)
    moreover have "closed t (u\<lparr>global_stop_test := False\<rparr>)"
      using u mock_inv_view(1) [of "u\<lparr>global_stop_test := False\<rparr>" u] v
      by (simp add: closed_def jobs_def control_def mock_view_def heap_view_def)
    ultimately show ?thesis using True by auto
  next
    case False
    then have "test_failed t = (Ret (- 1), ?t)" by (simp add: test_failed_def run_simps)
    moreover have "closed t ?t" using inv v False by (simp add: closed_def)
    ultimately show ?thesis using False by auto
  qed
qed

lemma guarded_jump:
  assumes "bindM (run_function name test setup teardown cell cp) (\<lambda>rc.
        seqM fail_if_leftover_values (seqM (modM (\<lambda>s. s\<lparr>global_running_test := False\<rparr>)) (retM rc))) s = (Longjmp, t)"
    and "mock_inv t"
  shows "\<exists>u. guarded name test setup teardown cell cp s = (Ret (if global_stop_test t \<and> \<not> leftover t then 0 else - 1), u)
     \<and> closed t u"
  unfolding guarded_def setjmpM_def assms(1) using test_failed_run [OF assms(2)] by simp

section \<open>The result of a test\<close>

lemma exit_test_jumps:
  "global_running_test t \<Longrightarrow> \<not> test_abort t \<Longrightarrow> exit_test True t = (Longjmp, t)"
  "global_running_test t \<Longrightarrow> \<not> test_abort t \<Longrightarrow> failure_outcome t = Longjmp"
  by (simp_all add: exit_test_quit failure_outcome_def)

lemma leftover_check_run:
  assumes "mock_inv t" "global_running_test t" "\<not> test_abort t"
  shows "\<exists>u. fail_if_leftover_values t = (if leftover t then Longjmp else Ret (), u)
     \<and> mock_inv u \<and> jobs u = jobs t \<and> heap_view u = heap_view t"
proof -
  obtain u where u: "has_leftover_values t = (Ret (leftover t), u)" "mock_inv u" "jobs u = jobs t" "heap_view u = heap_view t"
    using has_leftover_full [OF assms(1)] by blast
  then have "global_running_test u" "\<not> test_abort u" using assms by (auto simp: jobs_def control_def test_abort_def)
  from exit_test_jumps(1) [OF this] have "fail_if_leftover_values t = (if leftover t then Longjmp else Ret (), u)"
    using u(1) by (simp add: fail_if_leftover_values_def bindM_apply)
  with u show ?thesis by blast
qed

lemma guarded_returned:
  assumes run: "run_function name test setup teardown cell cp s = (Ret rc, t)"
    and inv: "mock_inv t" "global_running_test t" "\<not> test_abort t" and st: "\<not> global_stop_test t"
  shows "\<exists>u. guarded name test setup teardown cell cp s = (Ret (if leftover t then - 1 else rc), u) \<and> closed t u"
proof -
  let ?body = "bindM (run_function name test setup teardown cell cp) (\<lambda>rc.
        seqM fail_if_leftover_values (seqM (modM (\<lambda>s. s\<lparr>global_running_test := False\<rparr>)) (retM rc)))"
  have body: "?body s = seqM fail_if_leftover_values (seqM (modM (\<lambda>s. s\<lparr>global_running_test := False\<rparr>)) (retM rc)) t"
    using run by (rule bindM_Ret)
  obtain u where u: "fail_if_leftover_values t = (if leftover t then Longjmp else Ret (), u)"
    "mock_inv u" "jobs u = jobs t" "heap_view u = heap_view t"
    using leftover_check_run [OF inv] by blast
  have stu: "\<not> global_stop_test u" using st u(3) by (simp add: jobs_def)
  show ?thesis
  proof (cases "leftover t")
    case True
    then have "?body s = (Longjmp, u)" unfolding body using u(1) by (simp add: run_simps)
    from guarded_jump [OF this u(2)] obtain v where v: "guarded name test setup teardown cell cp s = (Ret (- 1), v)" "closed u v"
      using stu by auto
    then show ?thesis using True u(3,4) by (intro exI [of _ v]) (auto simp: closed_def jobs_def control_def)
  next
    case False
    let ?v = "u\<lparr>global_running_test := False\<rparr>"
    have "?body s = (Ret rc, ?v)" unfolding body using u(1) False by (simp add: run_simps)
    then have "guarded name test setup teardown cell cp s = (Ret rc, ?v)" by (simp add: guarded_def setjmpM_def)
    moreover have "mock_inv ?v" "heap_view ?v = heap_view u"
      using mock_inv_view(1) [of ?v u] u(2) by (simp_all add: heap_view_def mock_view_def)
    ultimately show ?thesis using False stu u(3,4) by (intro exI [of _ ?v]) (simp add: closed_def jobs_def control_def)
  qed
qed

text \<open>What every test leaves to the runner: its own data and the blocks of before the test.\<close>

definition sound_end :: "cm_state \<Rightarrow> addr list \<Rightarrow> cm_state \<Rightarrow> bool" where
  "sound_end s new t \<longleftrightarrow> mock_inv t \<and> heap_inv t \<and> global_running_test t \<and> \<not> test_abort t
     \<and> default_signal_functions t = map (signal_table s) exception_signals
     \<and> global_allocated_blocks t = global_allocated_blocks s @ new \<and> blocks_intact t new"

text \<open>A test or a teardown that returned is checked for leaked blocks, then for leftovers.\<close>

lemma guarded_leak_checked:
  assumes run: "run_function name test setup teardown cell (newest old) s
      = seqM (fail_if_blocks_allocated (newest old) name) (retM rc) t"
    and inv: "mock_inv t" "heap_inv t" "global_running_test t" "\<not> test_abort t"
    and bl: "global_allocated_blocks t = old @ new" "blocks_intact t new" and st: "\<not> global_stop_test t"
  shows "\<exists>u. guarded name test setup teardown cell (newest old) s = (Ret (if new = [] \<and> \<not> leftover t then rc else - 1), u)
     \<and> mock_inv u \<and> heap_inv u \<and> \<not> global_running_test u \<and> \<not> global_stop_test u \<and> global_skip_test u = global_skip_test t
     \<and> env_vars u = env_vars t \<and> default_signal_functions u = default_signal_functions t \<and> global_allocated_blocks u = old
     \<and> state_cells u = state_cells t \<and> (new = [] \<longrightarrow> heap_view u = heap_view t)"
proof -
  let ?leak = "fail_if_blocks_allocated (newest old) name"
  let ?body = "bindM (run_function name test setup teardown cell (newest old)) (\<lambda>rc.
        seqM fail_if_leftover_values (seqM (modM (\<lambda>s. s\<lparr>global_running_test := False\<rparr>)) (retM rc)))"
  note leaks = fail_if_blocks_run [where s = t and cp = "newest old" and name = name, OF inv(2) bl newest_def]
  have kept: "(jobs (snd (?leak t)), mock_view (snd (?leak t))) = (jobs t, mock_view t)"
    by (rule keepsMD [OF mock_jobs_leaks]) (rule refl)
  show ?thesis
  proof (cases "new = []")
    case True
    then have "?leak t = (Ret (), t)" using leaks by simp
    then have "run_function name test setup teardown cell (newest old) s = (Ret rc, t)"
      unfolding run by (simp add: run_simps)
    from guarded_returned [OF this inv(1,3,4) st] obtain u
      where "guarded name test setup teardown cell (newest old) s = (Ret (if leftover t then - 1 else rc), u)" "closed t u" by blast
    then show ?thesis
      using True inv(2) heap_inv_view [of u t] bl(1) by (intro exI [of _ u]) (auto simp: closed_def heap_view_def)
  next
    case False
    obtain u where u: "?leak t = (Longjmp, u)" "heap_inv u" "global_allocated_blocks u = old"
      using leaks False exit_test_jumps(2) [OF inv(3,4), where 'a = unit] by auto
    have k: "jobs u = jobs t" "mock_view u = mock_view t" using kept u(1) by simp_all
    have "run_function name test setup teardown cell (newest old) s = (Longjmp, u)"
      unfolding run using u(1) by (simp add: run_simps)
    then have "?body s = (Longjmp, u)" by (simp add: bindM_apply)
    moreover have "mock_inv u" using mock_inv_view(1) [OF k(2)] inv(1) by simp
    ultimately obtain v where v: "guarded name test setup teardown cell (newest old) s
          = (Ret (if global_stop_test u \<and> \<not> leftover u then 0 else - 1), v)" "closed u v" using guarded_jump by blast
    have "\<not> global_stop_test u" using st k(1) by (simp add: jobs_def)
    then have "guarded name test setup teardown cell (newest old) s = (Ret (- 1), v)" using v(1) by simp
    then show ?thesis
      using v(2) False u heap_inv_view [of v u] k(1) by (intro exI [of _ v]) (auto simp: closed_def heap_view_def jobs_def control_def)
  qed
qed

lemma guarded_after_test:
  assumes f: "f cell (started s) = (Ret (), t)" and e: "sound_end s new t" and st: "\<not> global_stop_test t"
  shows "\<exists>u. guarded name (Some f) None None cell (newest (global_allocated_blocks s)) (started s)
       = (Ret (if new = [] \<and> \<not> leftover t then 0 else - 1), u)
     \<and> mock_inv u \<and> heap_inv u \<and> \<not> global_running_test u \<and> \<not> global_stop_test u \<and> global_skip_test u = global_skip_test t
     \<and> env_vars u = env_vars t \<and> default_signal_functions u = default_signal_functions t \<and> global_allocated_blocks u = global_allocated_blocks s
     \<and> state_cells u = state_cells t \<and> (new = [] \<longrightarrow> heap_view u = heap_view t)"
proof (rule guarded_leak_checked)
  show "run_function name (Some f) None None cell (newest (global_allocated_blocks s)) (started s)
      = seqM (fail_if_blocks_allocated (newest (global_allocated_blocks s)) name) (retM 0) t"
    unfolding run_function_def option.case by (rule seqM_Ret [where m = "f cell", OF f])
qed (use e st in \<open>simp_all add: sound_end_def\<close>)

definition test_rc :: "unit outcome \<Rightarrow> addr list \<Rightarrow> cm_state \<Rightarrow> int" where
  "test_rc r new t = (if r = Ret () then (if new = [] \<and> \<not> leftover t then 0 else - 1)
     else (if global_stop_test t \<and> \<not> leftover t then 0 else - 1))"

text \<open>The ways a test may end that hand control back to the runner.\<close>

definition handed_back :: "unit outcome \<Rightarrow> cm_state \<Rightarrow> bool" where
  "handed_back r t \<longleftrightarrow> r = Ret () \<and> \<not> global_stop_test t \<or> r = Longjmp"

lemma finished_frame:
  assumes "mock_inv u" "heap_inv u" "\<not> global_running_test u" "\<not> global_stop_test u"
    "default_signal_functions u = map (signal_table s) exception_signals"
  shows "mock_inv (finished u) \<and> owned (finished u) = [] \<and> heap_inv (finished u) \<and> \<not> global_running_test (finished u)
     \<and> \<not> global_stop_test (finished u) \<and> global_skip_test (finished u) = global_skip_test u
     \<and> global_allocated_blocks (finished u) = global_allocated_blocks u \<and> env_vars (finished u) = env_vars u
     \<and> (\<forall>sig \<in> set exception_signals. signal_table (finished u) sig = signal_table s sig)"
proof -
  note f = finished_facts [OF assms(1)]
  show ?thesis
    using f(1-5) f(6) [OF assms(5)] heap_inv_view [OF f(3)] assms(2-4) by (simp add: heap_view_def control_def)
qed

lemma test_run:
  assumes f: "f cell (started s) = (r, t)" and e: "sound_end s new t" and r: "handed_back r t"
  shows "\<exists>u. cmocka_run_one_test_or_fixture name (Some f) None None (Some cell) None s = (Ret (test_rc r new t), u)
     \<and> mock_inv u \<and> owned u = [] \<and> heap_inv u \<and> \<not> global_running_test u \<and> \<not> global_stop_test u
     \<and> global_skip_test u = global_skip_test t \<and> env_vars u = env_vars t
     \<and> global_allocated_blocks u = global_allocated_blocks s @ (if r = Ret () then [] else new)
     \<and> (\<forall>sig \<in> set exception_signals. signal_table u sig = signal_table s sig)
     \<and> state_cells u = state_cells t \<and> (r \<noteq> Ret () \<or> new = [] \<longrightarrow> heap_view u = heap_view t)"
proof -
  let ?cp = "newest (global_allocated_blocks s)"
  note e' = e [unfolded sound_end_def]
  have "\<exists>u. guarded name (Some f) None None cell ?cp (started s) = (Ret (test_rc r new t), u)
     \<and> mock_inv u \<and> heap_inv u \<and> \<not> global_running_test u \<and> \<not> global_stop_test u \<and> global_skip_test u = global_skip_test t
     \<and> env_vars u = env_vars t \<and> default_signal_functions u = default_signal_functions t
     \<and> global_allocated_blocks u = global_allocated_blocks s @ (if r = Ret () then [] else new)
     \<and> state_cells u = state_cells t \<and> (r \<noteq> Ret () \<or> new = [] \<longrightarrow> heap_view u = heap_view t)"
  proof (cases "r = Ret ()")
    case True
    then have "\<not> global_stop_test t" using r by (simp add: handed_back_def)
    from guarded_after_test [where f = f and cell = cell and name = name, OF f [unfolded True] e this] show ?thesis using True by (simp add: test_rc_def)
  next
    case False
    then have jump: "f cell (started s) = (Longjmp, t)" using r f by (simp add: handed_back_def)
    have "bindM (run_function name (Some f) None None cell ?cp) (\<lambda>rc.
        seqM fail_if_leftover_values (seqM (modM (\<lambda>s. s\<lparr>global_running_test := False\<rparr>)) (retM rc))) (started s) = (Longjmp, t)"
      using jump by (simp add: run_function_def run_simps)
    from guarded_jump [OF this] e' obtain u where u: "guarded name (Some f) None None cell ?cp (started s)
        = (Ret (if global_stop_test t \<and> \<not> leftover t then 0 else - 1), u)" "closed t u" by blast
    then show ?thesis
      using False e' heap_inv_view [of u t] by (intro exI [of _ u]) (auto simp: closed_def heap_view_def test_rc_def)
  qed
  then obtain u where u: "guarded name (Some f) None None cell ?cp (started s) = (Ret (test_rc r new t), u)"
     "mock_inv u" "heap_inv u" "\<not> global_running_test u" "\<not> global_stop_test u" "global_skip_test u = global_skip_test t" "env_vars u = env_vars t"
     "default_signal_functions u = default_signal_functions t"
     "global_allocated_blocks u = global_allocated_blocks s @ (if r = Ret () then [] else new)"
     "state_cells u = state_cells t" "r \<noteq> Ret () \<or> new = [] \<longrightarrow> heap_view u = heap_view t" by (elim exE conjE)
  have d: "default_signal_functions u = map (signal_table s) exception_signals" using u(8) e' by simp
  have "cmocka_run_one_test_or_fixture name (Some f) None None (Some cell) None s = (Ret (test_rc r new t), finished u)"
    using u(1) by (intro run_one_finished [OF _ u(2)]) simp
  then show ?thesis
    using finished_frame [OF u(2-5) d] u(6,7,9-11) finished_facts(3,7) [OF u(2)] by (intro exI [of _ "finished u"]) simp
qed

section \<open>Properties\<close>

text \<open>
  C7. The result of a test. Let the test function end in a state \<open>t\<close> with the data of
  the framework intact, the blocks of before the test still allocated and the blocks \<open>new\<close>
  behind them. If it returned, the result is 0 exactly when it neither leaks a block nor
  leaves a value, check or expected call over. If it jumped back (a failed assertion, a
  signal, \<^verbatim>\<open>skip\<close>, \<^verbatim>\<open>stop\<close>), the result is 0 exactly for a \<^verbatim>\<open>stop\<close> without
  leftovers. In every case nothing of the mock objects is left, the leaked blocks of a test
  that returned are released, no test is running any more and the signal handlers are the
  ones of before.
\<close>

theorem test_result:
  assumes "f cell (started s) = (r, t)" and "sound_end s new t" and "handed_back r t"
  shows "\<exists>rc u. cmocka_run_one_test_or_fixture name (Some f) None None (Some cell) None s = (Ret rc, u)
     \<and> (rc = 0 \<longleftrightarrow> (if r = Ret () then new = [] \<and> \<not> leftover t else global_stop_test t \<and> \<not> leftover t))
     \<and> mock_inv u \<and> owned u = [] \<and> heap_inv u \<and> \<not> global_running_test u \<and> \<not> global_stop_test u
     \<and> global_allocated_blocks u = global_allocated_blocks s @ (if r = Ret () then [] else new)
     \<and> (\<forall>sig \<in> set exception_signals. signal_table u sig = signal_table s sig)"
proof -
  obtain u where u: "cmocka_run_one_test_or_fixture name (Some f) None None (Some cell) None s = (Ret (test_rc r new t), u)"
     "mock_inv u" "owned u = []" "heap_inv u" "\<not> global_running_test u" "\<not> global_stop_test u"
     "global_allocated_blocks u = global_allocated_blocks s @ (if r = Ret () then [] else new)"
     "\<forall>sig \<in> set exception_signals. signal_table u sig = signal_table s sig"
    using test_run [where f = f and cell = cell and name = name, OF assms] by (elim exE conjE)
  have "test_rc r new t = 0 \<longleftrightarrow> (if r = Ret () then new = [] \<and> \<not> leftover t else global_stop_test t \<and> \<not> leftover t)"
    by (simp add: test_rc_def)
  then show ?thesis using u by blast
qed

end
