(* ===== verification/Group_Run.thy ===== *)
theory Group_Run
  imports Runner_Contract
begin

text \<open>
  Whole groups: the loop over the tests of \<^verbatim>\<open>_cmocka_run_group_tests\<close> comes to its end
  whatever way each test ends, and the result of a group of tests of known outcome. What holds between two
  tests is the parameter of an interface: a predicate that does not depend on messages,
  output, clock and the like, and the test functions that keep it. It is
  interpreted twice, for arbitrary sound tests and for tests of known outcome.
\<close>

section \<open>Programs that return\<close>

abbreviation completes :: "(cm_state \<Rightarrow> bool) \<Rightarrow> 'a cm \<Rightarrow> bool" where
  "completes P m \<equiv> tripleM P m (\<lambda>_. P) (\<lambda>_. False)"

lemma tripleM_Ret:
  assumes "tripleM P m Q (\<lambda>_. False)" "P s"
  shows "\<exists>x t. m s = (Ret x, t) \<and> Q x t"
proof -
  have e: "ends Q (\<lambda>_. False) (m s)" using assms by (rule tripleMD)
  obtain r t where m: "m s = (r, t)" by (cases "m s")
  show ?thesis using e unfolding m by (cases r) simp_all
qed

lemma tripleM_I: "(\<And>s. P s \<Longrightarrow> \<exists>x t. m s = (Ret x, t) \<and> Q x t) \<Longrightarrow> tripleM P m Q (\<lambda>_. False)"
  by (rule tripleMI) force

lemma tripleM_retM: "(\<And>s. P s \<Longrightarrow> Q x s) \<Longrightarrow> tripleM P (retM x) Q (\<lambda>_. False)"
  by (simp add: tripleM_def)

lemma tripleM_pull: "(A \<Longrightarrow> tripleM P m Q E) \<Longrightarrow> tripleM (\<lambda>s. P s \<and> A) m Q E"
  by (auto simp: tripleM_def)

section \<open>Between two tests\<close>

definition quiet_view :: "cm_state \<Rightarrow> _" where
  "quiet_view s = (mock_view s, heap_view s, global_running_test s, global_stop_test s, global_skip_test s, env_vars s)"

lemma quiet_updates [simp]:
  "quiet_view (s\<lparr>cm_error_message := m\<rparr>) = quiet_view s"
  "quiet_view (s\<lparr>clock_calls := k\<rparr>) = quiet_view s" "quiet_view (s\<lparr>state_cells := c\<rparr>) = quiet_view s"
  "quiet_view (s\<lparr>malloc_calls := k\<rparr>) = quiet_view s"
  by (simp_all add: quiet_view_def mock_view_def heap_view_def)

lemma quiet_report: "report_frame s t \<Longrightarrow> quiet_view t = quiet_view s"
proof -
  assume f: "report_frame s t"
  show ?thesis by (subst f [unfolded report_frame_def]) (simp add: quiet_view_def mock_view_def heap_view_def)
qed

text \<open>
  \<open>P\<close> holds between two tests, \<open>V\<close> says which statuses a test may get. A test is tame
  when running it with its fixtures comes to an end with such a status, and when \<open>P\<close> holds again
  after that. A test without fixtures is tame when its test function is.
\<close>

locale between_tests =
  fixes P :: "cm_state \<Rightarrow> bool" and V :: "CMUnitTest \<Rightarrow> CMUnitTestStatus set"
  assumes P_view: "\<And>s t. quiet_view t = quiet_view s \<Longrightarrow> P s \<Longrightarrow> P t"
begin

lemma completes_prints: "prints m \<Longrightarrow> completes P m"
  using printsD quiet_report P_view by (intro tripleM_I) metis

lemma completes_basic: "completes P (retM x)" "completes P (readM g)"
  by (simp_all add: tripleM_def)

lemma completes_modM: "(\<And>s. quiet_view (h s) = quiet_view s) \<Longrightarrow> completes P (modM h)"
  using P_view by (simp add: tripleM_def)

lemma completes_clock: "completes P clock_gettime" "completes P (cm_secdiff a b)"
  using P_view by (auto simp: tripleM_def clock_gettime_def cm_secdiff_def intro: P_view [rotated])

lemmas completes_rules = tripleM_bind tripleM_seq completes_basic completes_prints completes_modM completes_clock

definition result_ok :: "CMUnitTest \<Rightarrow> CMUnitTestState \<Rightarrow> bool" where
  "result_ok test ts \<longleftrightarrow> ts_test ts = test \<and> ts_status ts \<in> V test"

definition tame :: "CMUnitTest \<Rightarrow> bool" where
  "tame test \<longleftrightarrow> (\<forall>ts. ts_test ts = test \<and> ts_state ts \<noteq> local_cell \<longrightarrow>
     tripleM P (cmocka_run_one_tests ts) (\<lambda>(rc, ts') s. P s \<and> result_ok test ts') (\<lambda>_. False))"

definition tame_function :: "CMUnitTest \<Rightarrow> bool" where
  "tame_function test \<longleftrightarrow> setup_func test = None \<and> teardown_func test = None
     \<and> (\<forall>name cell. tripleM P (cmocka_run_one_test_or_fixture name (test_func test) None None (Some cell) None)
          (\<lambda>rc s. if rc = 0 then P s \<and> CM_TEST_PASSED \<in> V test
             else P (s\<lparr>global_skip_test := False\<rparr>) \<and> (if global_skip_test s then CM_TEST_SKIPPED else CM_TEST_FAILED) \<in> V test)
          (\<lambda>_. False))"

lemma test_function_completes:
  assumes "tame_function (ts_test ts)"
  shows "tripleM P (run_test_function ts) (\<lambda>ts' s. P s \<and> result_ok (ts_test ts) ts') (\<lambda>_. False)"
proof (rule tripleM_I)
  fix s assume "P s"
  let ?run = "cmocka_run_one_test_or_fixture (fmt_s (test_name (ts_test ts))) (test_func (ts_test ts)) None None (Some (ts_state ts)) None"
  obtain rc t where t: "?run s = (Ret rc, t)" and p: "if rc = 0 then P t \<and> CM_TEST_PASSED \<in> V (ts_test ts)
      else P (t\<lparr>global_skip_test := False\<rparr>) \<and> (if global_skip_test t then CM_TEST_SKIPPED else CM_TEST_FAILED) \<in> V (ts_test ts)"
    using tripleM_Ret [where m = ?run and P = P and s = s, OF _ \<open>P s\<close>] assms unfolding tame_function_def by blast
  have e: "t\<lparr>global_skip_test := False\<rparr> = t" if "\<not> global_skip_test t" using that by (cases t) simp
  have "P t" if "rc \<noteq> 0" "\<not> global_skip_test t" using p that(1) unfolding e [OF that(2)] by simp
  with p show "\<exists>x t. run_test_function ts s = (Ret x, t) \<and> P t \<and> result_ok (ts_test ts) x"
    unfolding run_test_function_def bindM_Ret [where m = ?run, OF t]
    by (auto simp: run_simps result_ok_def split: if_splits)
qed

lemma result_ok_updates:
  "result_ok test (ts\<lparr>ts_runtime := r\<rparr>) = result_ok test ts" "result_ok test (ts\<lparr>ts_error_message := m\<rparr>) = result_ok test ts"
  by (simp_all add: result_ok_def)

text \<open>The end of \<^verbatim>\<open>cmocka_run_one_tests\<close>: the messages of the test become part of its state.\<close>

abbreviation take_messages :: "int \<Rightarrow> CMUnitTestState \<Rightarrow> (int \<times> CMUnitTestState) cm" where
  "take_messages rc ts \<equiv> bindM (readM cm_error_message) (\<lambda>msg. seqM (modM (\<lambda>s. s\<lparr>cm_error_message := None\<rparr>))
            (retM (rc, ts\<lparr>ts_error_message := msg\<rparr>)))"

lemma take_messages_completes:
  "result_ok test ts \<Longrightarrow> tripleM P (take_messages rc ts) (\<lambda>(rc, ts') s. P s \<and> result_ok test ts') (\<lambda>_. False)"
  by (rule tripleM_bind [OF completes_basic(2)], rule tripleM_seq [OF completes_modM], simp, rule tripleM_retM)
     (simp add: result_ok_updates)

lemma one_tests_completes:
  assumes "tame_function (ts_test ts)"
  shows "tripleM P (cmocka_run_one_tests ts) (\<lambda>(rc, ts') s. P s \<and> result_ok (ts_test ts) ts') (\<lambda>_. False)"
proof -
  have su: "run_setup ts = retM (0, ts)" using assms by (simp add: tame_function_def run_setup_def)
  have td: "run_teardown ts3 = retM (0, ts3)" if "result_ok (ts_test ts) ts3" for ts3
    using that assms by (simp add: tame_function_def run_teardown_def result_ok_def)
  show ?thesis
    unfolding cmocka_run_one_tests_def su bindM_retM prod.case if_P [OF refl] Let_def
  proof (rule tripleM_bind [OF completes_clock(1)], rule tripleM_bind [OF test_function_completes [OF assms]], rule tripleM_pull,
      rule tripleM_bind [OF completes_clock(1)], rule tripleM_bind [OF completes_clock(2)])
    fix start finish ts2 runtime assume "result_ok (ts_test ts) ts2"
    then have ok: "result_ok (ts_test ts) (ts2\<lparr>ts_runtime := runtime\<rparr>)" by (simp only: result_ok_updates)
    from take_messages_completes [OF this]
    show "tripleM P (bindM (run_teardown (ts2\<lparr>ts_runtime := runtime\<rparr>)) (\<lambda>(rc, ts4). take_messages rc ts4))
        (\<lambda>(rc, ts') s. P s \<and> result_ok (ts_test ts) ts') (\<lambda>_. False)"
      unfolding td [OF ok] bindM_retM prod.case .
  qed
qed

lemma tame_function_tame: "tame_function test \<Longrightarrow> tame test"
  using one_tests_completes unfolding tame_def by blast

lemma report_test_completes: "completes P (report_test n rc ts tot)"
  unfolding report_test_def Let_def
  by (cases "ts_status ts") (auto intro!: tripleM_seq [where Q = P] completes_basic completes_prints prints_cmprintf)

lemma run_all_completes:
  "\<forall>x \<in> set ts. tame (ts_test x) \<and> ts_state x \<noteq> local_cell \<Longrightarrow>
     tripleM P (run_all i ts tot) (\<lambda>(tot', ts') s. P s \<and> (\<forall>x \<in> set ts'. result_ok (ts_test x) x)) (\<lambda>_. False)"
proof (induction ts arbitrary: i tot)
  case Nil
  show ?case unfolding run_all.simps by (rule tripleM_retM) simp
next
  case (Cons x ts)
  have prep: "completes P (prepare_state x)" unfolding prepare_state_def by (rule completes_modM) simp
  have one: "tripleM P (cmocka_run_one_tests x) (\<lambda>(rc, ts') s. P s \<and> result_ok (ts_test x) ts') (\<lambda>_. False)"
    using Cons.prems by (simp add: tame_def)
  have rest: "tripleM P (run_all (i + 1) ts tot') (\<lambda>(tot', ts') s. P s \<and> (\<forall>x \<in> set ts'. result_ok (ts_test x) x)) (\<lambda>_. False)"
    for tot' using Cons by simp
  show ?case
    unfolding run_all.simps
  proof (rule tripleM_seq [OF completes_prints [OF prints_cmprintf]], rule tripleM_seq [OF prep],
      rule tripleM_bind [OF one], unfold split_paired_all prod.case)
    fix rc d
    show "tripleM (\<lambda>s. P s \<and> result_ok (ts_test x) d)
       (bindM (readM dbl_add) (\<lambda>add. bindM (report_test (i + 1) rc d
            (tot\<lparr>total_executed := total_executed tot + 1, total_runtime := add (total_runtime tot) (ts_runtime d)\<rparr>)) (\<lambda>tot'.
          bindM (run_all (i + 1) ts tot') (\<lambda>(tot'', dones). retM (tot'', d # dones)))))
       (\<lambda>(tot', ts') s. P s \<and> (\<forall>x \<in> set ts'. result_ok (ts_test x) x)) (\<lambda>_. False)"
    proof (rule tripleM_pull, rule tripleM_bind [OF completes_basic(2)], rule tripleM_bind [OF report_test_completes],
        rule tripleM_bind [OF rest], unfold split_paired_all prod.case, rule tripleM_retM, unfold prod.case)
      fix s tot2 dones
      assume "result_ok (ts_test x) d" "P s \<and> (\<forall>x \<in> set dones. result_ok (ts_test x) x)"
      then show "P s \<and> (\<forall>x \<in> set (d # dones). result_ok (ts_test x) x)"
        by (auto simp: result_ok_def)
    qed
  qed
qed
end

section \<open>Sound tests\<close>

definition ready :: "cm_state \<Rightarrow> bool" where
  "ready s \<longleftrightarrow> mock_inv s \<and> heap_inv s \<and> \<not> global_running_test s \<and> \<not> global_stop_test s \<and> \<not> test_abort s"

definition verdict :: "unit outcome \<Rightarrow> addr list \<Rightarrow> cm_state \<Rightarrow> CMUnitTestStatus" where
  "verdict r new t = (if test_rc r new t = 0 then CM_TEST_PASSED
     else if global_skip_test t then CM_TEST_SKIPPED else CM_TEST_FAILED)"

definition sound_test :: "CMUnitTestFunction \<Rightarrow> bool" where
  "sound_test f \<longleftrightarrow> (\<forall>cell s. ready s \<longrightarrow>
     (\<exists>r t new. f cell (started s) = (r, t) \<and> sound_end s new t \<and> handed_back r t))"

text \<open>A test of which the status is known: what it leaks, it leaks by returning.\<close>

definition ends_as :: "CMUnitTestStatus \<Rightarrow> CMUnitTestFunction \<Rightarrow> bool" where
  "ends_as st f \<longleftrightarrow> (\<forall>cell s. ready s \<and> \<not> global_skip_test s \<longrightarrow>
     (\<exists>r t new. f cell (started s) = (r, t) \<and> sound_end s new t \<and> handed_back r t
        \<and> (r = Ret () \<or> new = []) \<and> verdict r new t = st \<and> (st = CM_TEST_PASSED \<longrightarrow> \<not> global_skip_test t)))"

definition plain_test :: "(CMUnitTestFunction \<Rightarrow> bool) \<Rightarrow> CMUnitTest \<Rightarrow> bool" where
  "plain_test Q test \<longleftrightarrow> setup_func test = None \<and> teardown_func test = None
     \<and> (case test_func test of None \<Rightarrow> False | Some f \<Rightarrow> Q f)"

lemma ready_view: "quiet_view t = quiet_view s \<Longrightarrow> ready t = ready s"
  using heap_inv_view [of t s] mock_inv_view(1) [of t s] by (simp add: quiet_view_def ready_def test_abort_def)

interpretation any: between_tests ready "\<lambda>_. UNIV"
  by unfold_locales (rule ready_view [THEN iffD2])

interpretation known: between_tests "\<lambda>s. ready s \<and> \<not> global_skip_test s \<and> global_allocated_blocks s = bs" "\<lambda>x. {v x}" for bs v
proof (unfold_locales, elim conjE, intro conjI)
  fix s t assume v: "quiet_view t = quiet_view s" and "ready s" "\<not> global_skip_test s" "global_allocated_blocks s = bs"
  then show "ready t" "\<not> global_skip_test t" "global_allocated_blocks t = bs"
    using ready_view [OF v] by (simp_all add: quiet_view_def heap_view_def)
qed

lemma ready_skip: "ready (s\<lparr>global_skip_test := b\<rparr>) = ready s"
  using heap_inv_view [of "s\<lparr>global_skip_test := b\<rparr>" s] mock_inv_view(1) [of "s\<lparr>global_skip_test := b\<rparr>" s]
  by (simp add: ready_def test_abort_def heap_view_def mock_view_def)

lemma run_ready:
  assumes f: "f cell (started s) = (r, t)" and e: "sound_end s new t" and r: "handed_back r t"
  shows "\<exists>u. cmocka_run_one_test_or_fixture name (Some f) None None (Some cell) None s = (Ret (test_rc r new t), u)
     \<and> ready u \<and> global_skip_test u = global_skip_test t
     \<and> global_allocated_blocks u = global_allocated_blocks s @ (if r = Ret () then [] else new)
     \<and> state_cells u = state_cells t \<and> (r \<noteq> Ret () \<or> new = [] \<longrightarrow> heap_view u = heap_view t)"
proof -
  obtain u where u: "cmocka_run_one_test_or_fixture name (Some f) None None (Some cell) None s = (Ret (test_rc r new t), u)"
    "mock_inv u" "heap_inv u" "\<not> global_running_test u" "\<not> global_stop_test u" "global_skip_test u = global_skip_test t"
    "env_vars u = env_vars t" "global_allocated_blocks u = global_allocated_blocks s @ (if r = Ret () then [] else new)"
    "state_cells u = state_cells t" "r \<noteq> Ret () \<or> new = [] \<longrightarrow> heap_view u = heap_view t"
    using test_run [where f = f and cell = cell and name = name, OF assms] by (elim exE conjE)
  have "\<not> test_abort u" using e u(7) by (simp add: sound_end_def test_abort_def)
  then show ?thesis using u by (intro exI [of _ u]) (simp add: ready_def)
qed

lemma any_tame_function: "plain_test sound_test test \<Longrightarrow> any.tame_function test"
  unfolding any.tame_function_def plain_test_def
proof (elim conjE, intro conjI allI tripleM_I, assumption, assumption)
  fix name cell s assume "ready s" and f: "case test_func test of None \<Rightarrow> False | Some f \<Rightarrow> sound_test f"
  from f obtain f where tf: "test_func test = Some f" "sound_test f" by (cases "test_func test") simp_all
  then obtain r t new where t: "f cell (started s) = (r, t)" "sound_end s new t" "handed_back r t"
    using \<open>ready s\<close> unfolding sound_test_def by blast
  obtain u where "cmocka_run_one_test_or_fixture name (Some f) None None (Some cell) None s = (Ret (test_rc r new t), u)" "ready u"
    using run_ready [where f = f and cell = cell and name = name, OF t] by blast
  then show "\<exists>x u. cmocka_run_one_test_or_fixture name (test_func test) None None (Some cell) None s = (Ret x, u) \<and>
      (if x = 0 then ready u \<and> CM_TEST_PASSED \<in> UNIV
       else ready (u\<lparr>global_skip_test := False\<rparr>) \<and> (if global_skip_test u then CM_TEST_SKIPPED else CM_TEST_FAILED) \<in> UNIV)"
    unfolding tf(1) by (simp add: ready_skip)
qed

lemma known_tame_function: "plain_test (ends_as (v test)) test \<Longrightarrow> known.tame_function bs v test"
  unfolding known.tame_function_def plain_test_def
proof (elim conjE, intro conjI allI tripleM_I, assumption, assumption)
  fix name cell s assume s: "ready s \<and> \<not> global_skip_test s \<and> global_allocated_blocks s = bs"
    and f: "case test_func test of None \<Rightarrow> False | Some f \<Rightarrow> ends_as (v test) f"
  from f obtain f where tf: "test_func test = Some f" "ends_as (v test) f" by (cases "test_func test") simp_all
  then obtain r t new where t: "f cell (started s) = (r, t)" "sound_end s new t" "handed_back r t"
    and w: "r = Ret () \<or> new = []" "verdict r new t = v test" "v test = CM_TEST_PASSED \<longrightarrow> \<not> global_skip_test t"
    using s unfolding ends_as_def by blast
  obtain u where u: "cmocka_run_one_test_or_fixture name (Some f) None None (Some cell) None s = (Ret (test_rc r new t), u)" "ready u"
    "global_skip_test u = global_skip_test t" "global_allocated_blocks u = global_allocated_blocks s @ (if r = Ret () then [] else new)"
    using run_ready [where f = f and cell = cell and name = name, OF t] by blast
  have b: "global_allocated_blocks u = bs" using u(4) w(1) s by auto
  show "\<exists>x u. cmocka_run_one_test_or_fixture name (test_func test) None None (Some cell) None s = (Ret x, u) \<and>
      (if x = 0 then (ready u \<and> \<not> global_skip_test u \<and> global_allocated_blocks u = bs) \<and> CM_TEST_PASSED \<in> {v test}
       else (ready (u\<lparr>global_skip_test := False\<rparr>) \<and> \<not> global_skip_test (u\<lparr>global_skip_test := False\<rparr>)
               \<and> global_allocated_blocks (u\<lparr>global_skip_test := False\<rparr>) = bs)
         \<and> (if global_skip_test u then CM_TEST_SKIPPED else CM_TEST_FAILED) \<in> {v test})"
    unfolding tf(1) using u(1-3) b w(2,3) by (cases "test_rc r new t = 0") (auto simp: ready_skip verdict_def)
qed

lemma plain_tame:
  "plain_test sound_test test \<Longrightarrow> any.tame test" "plain_test (ends_as (v test)) test \<Longrightarrow> known.tame bs v test"
  using any.tame_function_tame [OF any_tame_function] known.tame_function_tame [OF known_tame_function] by blast+

section \<open>Whole groups\<close>

lemma selected_states:
  assumes "x \<in> set (map (\<lambda>(i, t). new_test_state i t) (enumerate k selected))"
  shows "ts_test x \<in> set selected" "ts_state x \<noteq> local_cell"
proof -
  show "ts_test x \<in> set selected" using assms map_test_new [of k selected] by (metis image_eqI list.set_map)
  show "ts_state x \<noteq> local_cell" using assms by (auto simp: new_test_state_def test_cell_def local_cell_def)
qed

lemma group_body_any:
  assumes "ready s" "\<forall>x \<in> set selected. any.tame x"
  shows "\<exists>tot ts t. run_group_body g selected None cp s = (Ret (tot, ts), t) \<and> ready t \<and> group_ran selected tot ts"
proof -
  let ?ts = "map (\<lambda>(i, t). new_test_state i t) (enumerate 0 selected)"
  have "\<forall>x \<in> set ?ts. any.tame (ts_test x) \<and> ts_state x \<noteq> local_cell" using assms(2) selected_states by blast
  from tripleM_Ret [OF any.run_all_completes [OF this, of 0 no_totals] assms(1)]
  obtain tot ts t where t: "run_all 0 ?ts no_totals s = (Ret (tot, ts), t)" "ready t" by auto
  then have "run_group_body g selected None cp s = (Ret (tot, ts), t)"
    by (simp add: run_group_body_def run_group_setup_def Let_def)
  with t(2) run_all_group [OF t(1)] show ?thesis by blast
qed

lemma group_body_known:
  assumes "ready s \<and> \<not> global_skip_test s \<and> global_allocated_blocks s = bs"
    and "\<forall>x \<in> set selected. known.tame bs v x"
  shows "\<exists>tot ts t. run_group_body g selected None cp s = (Ret (tot, ts), t)
     \<and> (ready t \<and> \<not> global_skip_test t \<and> global_allocated_blocks t = bs) \<and> group_ran selected tot ts \<and> map ts_status ts = map v selected"
proof -
  let ?ts = "map (\<lambda>(i, t). new_test_state i t) (enumerate 0 selected)"
  have "\<forall>x \<in> set ?ts. known.tame bs v (ts_test x) \<and> ts_state x \<noteq> local_cell" using assms(2) selected_states by blast
  from tripleM_Ret [OF known.run_all_completes [OF this, of 0 no_totals] assms(1)]
  obtain tot ts t where t: "run_all 0 ?ts no_totals s = (Ret (tot, ts), t)"
    "ready t \<and> \<not> global_skip_test t \<and> global_allocated_blocks t = bs" "\<forall>x \<in> set ts. ts_status x = v (ts_test x)"
    by (auto simp: known.result_ok_def)
  then have "run_group_body g selected None cp s = (Ret (tot, ts), t)"
    by (simp add: run_group_body_def run_group_setup_def Let_def)
  moreover have "map ts_status ts = map v (map ts_test ts)" using t(3) by simp
  ultimately show ?thesis using t(2) run_all_group [OF t(1)] by (auto simp: group_ran_def)
qed

lemma failed_and_errors:
  "status_count CM_TEST_FAILED ts + status_count CM_TEST_ERROR ts
     = length (filter (\<lambda>st. st = CM_TEST_FAILED \<or> st = CM_TEST_ERROR) (map ts_status ts))"
  unfolding status_count_def by (induction ts) auto

lemma group_run_known:
  assumes s: "ready s" "\<not> global_skip_test s"
    and c: "libc_malloc s (malloc_calls s) (sizeof_CMUnitTestState * word_of_nat (length tests)) \<noteq> 0"
    and sel: "selected = filter (selects (global_test_filter_pattern s) (global_skip_filter_pattern s)) tests"
    and t: "\<forall>x \<in> set selected. known.tame (global_allocated_blocks s) v x" and l: "length tests < 2 ^ 31"
  shows "\<exists>t. cm_cmocka_run_group_tests g tests None None s = (Ret (int (length (filter (\<lambda>x. v x = CM_TEST_FAILED \<or> v x = CM_TEST_ERROR) selected))), t)
     \<and> ready t \<and> \<not> global_skip_test t \<and> global_allocated_blocks t = global_allocated_blocks s"
proof -
  let ?bs = "global_allocated_blocks s"
  let ?P = "\<lambda>t. ready t \<and> \<not> global_skip_test t \<and> global_allocated_blocks t = ?bs"
  let ?cp = "newest ?bs"
  define s1 where "s1 = s\<lparr>state_cells := (state_cells s)(group_cell := 0), malloc_calls := Suc (malloc_calls s)\<rparr>"
  have "quiet_view s1 = quiet_view s" unfolding s1_def by simp
  moreover have "?P s" using s by simp
  ultimately have s1: "?P s1" by (rule known.P_view)
  obtain s2 where s2: "cmprintf_group_start g (length selected) s1 = (Ret (), s2)" "?P s2"
    using tripleM_Ret [where P = ?P and s = s1, OF known.completes_prints [OF prints_group_start] s1] by auto
  obtain tot ts s3 where s3: "run_group_body g selected None ?cp s2 = (Ret (tot, ts), s3)" "?P s3"
    "group_ran selected tot ts" "map ts_status ts = map v selected"
    using group_body_known [OF s2(2) t, where g = g and cp = ?cp] by (elim exE conjE) blast
  let ?fin = "cmprintf_group_finish g (total_executed tot) (total_passed tot) (total_failed tot)
      (total_errors tot) (total_skipped tot) (total_runtime tot) ts"
  obtain s4 where s4: "?fin s3 = (Ret (), s4)" "?P s4"
    using tripleM_Ret [where P = ?P and s = s3 and m = ?fin, OF known.completes_prints [OF prints_group_finish] s3(2)] by auto
  have leaks: "fail_if_blocks_allocated ?cp ''cmocka_group_tests'' s4 = (Ret (), s4)"
    using fail_if_blocks_run [where s = s4 and old = ?bs and new = "[]", OF _ _ _ newest_def] s4(2)
    by (simp add: ready_def blocks_intact_def)
  let ?bad = "filter (\<lambda>x. v x = CM_TEST_FAILED \<or> v x = CM_TEST_ERROR) selected"
  have bad: "total_failed tot + total_errors tot = length ?bad"
    using s3(3) failed_and_errors [of ts] unfolding s3(4) by (simp add: group_ran_def filter_map o_def)
  have "length ?bad \<le> length tests" unfolding sel using length_filter_le le_trans by blast
  then have r: "sint (word_of_nat (length ?bad) :: 32 word) = int (length ?bad)" using l by (intro sint_small_nat) simp
  have chk: "check_point_allocated_blocks s = (Ret ?cp, s)" by (simp add: check_point_allocated_blocks_def newest_def)
  have alloc: "calloc_tests (length tests) (s\<lparr>state_cells := (state_cells s)(group_cell := 0)\<rparr>) = (Ret True, s1)"
    using c by (simp add: calloc_tests_def s1_def)
  have md: "modM (\<lambda>s. s\<lparr>state_cells := (state_cells s)(group_cell := 0)\<rparr>) s = (Ret (), s\<lparr>state_cells := (state_cells s)(group_cell := 0)\<rparr>)"
    by simp
  have rd: "readM (\<lambda>s. filter (selects (global_test_filter_pattern s) (global_skip_filter_pattern s)) tests) s1 = (Ret selected, s1)"
    unfolding sel s1_def by simp
  have td: "run_group_teardown g None ?cp s3 = (Ret (), s3)" by (simp add: run_group_teardown_def)
  have "cm_cmocka_run_group_tests g tests None None s = (Ret (int (length ?bad)), s4)"
    unfolding cm_cmocka_run_group_tests_def bindM_Ret [where m = check_point_allocated_blocks, OF chk]
      seqM_Ret [where m = "modM _", OF md] bindM_Ret [where m = "calloc_tests _", OF alloc] not_True_eq_False if_False
      bindM_Ret [where m = "readM _", OF rd] seqM_Ret [where m = "cmprintf_group_start _ _", OF s2(1)]
      bindM_Ret [where m = "run_group_body _ _ _ _", OF s3(1)] prod.case seqM_Ret [where m = "run_group_teardown _ _ _", OF td]
      seqM_Ret [where m = ?fin, OF s4(1)] seqM_Ret [where m = "fail_if_blocks_allocated _ _", OF leaks] bad r
    by simp
  with s4(2) show ?thesis by blast
qed

section \<open>Basic tests\<close>

lemma started_sound:
  assumes "ready s"
  shows "sound_end s [] (started s)" "\<not> leftover (started s)" "\<not> global_stop_test (started s)"
    "global_skip_test (started s) = global_skip_test s" "test_abort (started s) = test_abort s" "global_running_test (started s)"
proof -
  have "mock_inv (started s)"
    using assms by (simp add: ready_def started_def mock_inv_def owned_def kinds_ok_def counts_ok_def wf_map.simps queue_at.simps numeral_2_eq_2)
  moreover have "heap_inv (started s)" using assms heap_inv_view [of "started s" s] by (simp add: ready_def started_def heap_view_def)
  ultimately show "sound_end s [] (started s)"
    using assms by (simp add: sound_end_def ready_def started_def blocks_intact_def test_abort_def)
  show "\<not> leftover (started s)" by (simp add: leftover_def started_def queue_at.simps)
  show "\<not> global_stop_test (started s)" "global_skip_test (started s) = global_skip_test s"
    "test_abort (started s) = test_abort s" "global_running_test (started s)"
    using assms by (simp_all add: started_def ready_def test_abort_def)
qed

lemma sound_end_frame: "msg_frame t u \<Longrightarrow> sound_end s new t \<Longrightarrow> sound_end s new u"
  using heap.blind [of t u] msg_frame_held [of t u "{}"] blocks_intact_frame [of t u new]
  by (simp add: sound_end_def msg_frame_fields test_abort_def)

lemma leftover_frame: "msg_frame t u \<Longrightarrow> leftover u = leftover t"
  by (simp add: leftover_def msg_frame_fields)

lemma framed_test:
  assumes "framesM m" "ready s" "m (started s) = (r, t)"
  shows "sound_end s [] t" "\<not> leftover t" "\<not> global_stop_test t" "global_skip_test t = global_skip_test s"
proof -
  have m: "msg_frame (started s) t" using assms(1,3) by (rule framesMD)
  note st = started_sound [OF assms(2)] and fr = msg_frame_fields [OF m]
  show "sound_end s [] t" using sound_end_frame [OF m st(1)] .
  show "\<not> leftover t" "\<not> global_stop_test t" "global_skip_test t = global_skip_test s"
    using st(2-4) leftover_frame [OF m] fr by simp_all
qed

lemma returning_test:
  assumes r: "\<And>cell. returnsM (f cell)"
  shows "sound_test f" "ends_as CM_TEST_PASSED f"
proof -
  have "\<exists>t. f cell (started s) = (Ret (), t)" for cell s using returnsM_unit [OF r] by blast
  moreover have "sound_end s [] t \<and> handed_back (Ret ()) t \<and> verdict (Ret ()) [] t = CM_TEST_PASSED
      \<and> global_skip_test t = global_skip_test s" if "ready s" "f cell (started s) = (Ret (), t)" for cell s t
    using framed_test [OF returnsM_framesM [OF r] that] by (simp add: handed_back_def verdict_def test_rc_def)
  ultimately show "sound_test f" "ends_as CM_TEST_PASSED f"
    unfolding sound_test_def ends_as_def by metis+
qed

lemma failing_jumps:
  assumes "failsM m" "ready s"
  shows "\<exists>t. m (started s) = (Longjmp, t)"
proof -
  have "fst (m (started s)) = Longjmp"
    using failsM_outcome [OF assms(1), of "started s"] assms(2) started_sound(5,6) [OF assms(2)]
    by (simp add: failure_outcome_def ready_def)
  then show ?thesis by (metis prod.collapse)
qed

lemma failing_test:
  assumes r: "\<And>cell. failsM (f cell)"
  shows "sound_test f" "ends_as CM_TEST_FAILED f"
proof -
  have "\<exists>t. f cell (started s) = (Longjmp, t)" if "ready s" for cell s using failing_jumps [OF r that] .
  moreover have "sound_end s [] t \<and> handed_back Longjmp t \<and> (\<not> global_skip_test s \<longrightarrow> verdict Longjmp [] t = CM_TEST_FAILED)"
    if "ready s" "f cell (started s) = (Longjmp, t)" for cell s t
    using framed_test [OF failsM_framesM [OF r] that] by (simp add: handed_back_def verdict_def test_rc_def)
  ultimately show "sound_test f" "ends_as CM_TEST_FAILED f"
    unfolding sound_test_def ends_as_def by (metis CMUnitTestStatus.distinct)+
qed

lemma sound_end_skip: "sound_end s new (t\<lparr>global_skip_test := b\<rparr>) = sound_end s new t"
  using mock_inv_view(1) [of "t\<lparr>global_skip_test := b\<rparr>" t] heap_inv_view [of "t\<lparr>global_skip_test := b\<rparr>" t]
  by (simp add: sound_end_def mock_view_def heap_view_def test_abort_def blocks_intact_def guards_intact_def)

lemma skip_run:
  assumes "ready s"
  shows "\<exists>t. cm_skip fl ln (started s) = (Longjmp, t) \<and> sound_end s [] t \<and> global_skip_test t \<and> \<not> global_stop_test t"
proof -
  obtain t where t: "cmocka_print_error (fmt_loc (Some fl) ln @ '': Skipped!'' @ nl) (started s) = (Ret (), t)" "msg_frame (started s) t"
    using returnsM_unit [OF returnsM_print] by blast
  note st = started_sound [OF assms] and fr = msg_frame_fields [OF t(2)]
  have run: "global_running_test t" using fr st(6) by simp
  have "cm_skip fl ln (started s) = (Longjmp, t\<lparr>global_skip_test := True\<rparr>)"
    unfolding cm_skip_def seqM_Ret [where m = "cmocka_print_error _", OF t(1)]
    using run by (simp add: run_simps exit_test_quit)
  moreover have "sound_end s [] (t\<lparr>global_skip_test := True\<rparr>)" using sound_end_frame [OF t(2) st(1)] by (simp only: sound_end_skip)
  moreover have "\<not> global_stop_test (t\<lparr>global_skip_test := True\<rparr>)" using st(3) fr by simp
  ultimately show ?thesis by (intro exI [of _ "t\<lparr>global_skip_test := True\<rparr>"]) simp
qed

lemma skipping_test_is_skipped: "ends_as CM_TEST_SKIPPED (\<lambda>_. cm_skip fl ln)"
  unfolding ends_as_def
proof (intro allI impI, elim conjE)
  fix cell :: nat and s assume "ready s"
  then obtain t where t: "cm_skip fl ln (started s) = (Longjmp, t)" "sound_end s [] t" "global_skip_test t" "\<not> global_stop_test t"
    using skip_run by blast
  then have "handed_back Longjmp t" "verdict Longjmp [] t = CM_TEST_SKIPPED"
    by (simp_all add: handed_back_def verdict_def test_rc_def)
  with t show "\<exists>r t new. cm_skip fl ln (started s) = (r, t) \<and> sound_end s new t \<and> handed_back r t
        \<and> (r = Ret () \<or> new = []) \<and> verdict r new t = CM_TEST_SKIPPED \<and> (CM_TEST_SKIPPED = CM_TEST_PASSED \<longrightarrow> \<not> global_skip_test t)"
    by blast
qed

section \<open>Witnesses\<close>

definition sample_test :: "string \<Rightarrow> CMUnitTestFunction \<Rightarrow> CMUnitTest" where
  "sample_test name f = \<lparr>test_name = Some name, test_func = Some f, setup_func = None, teardown_func = None, initial_state_ptr = 0\<rparr>"

abbreviation passing :: CMUnitTest where "passing \<equiv> sample_test ''passing'' (\<lambda>_. retM ())"
abbreviation failing :: CMUnitTest where "failing \<equiv> sample_test ''failing'' (\<lambda>_. cm_fail ''t.c'' 5)"
abbreviation skipped :: CMUnitTest where "skipped \<equiv> sample_test ''skipped'' (\<lambda>_. cm_skip ''t.c'' 9)"

definition sample_verdict :: "CMUnitTest \<Rightarrow> CMUnitTestStatus" where
  "sample_verdict x = (if test_name x = Some ''passing'' then CM_TEST_PASSED
     else if test_name x = Some ''failing'' then CM_TEST_FAILED else CM_TEST_SKIPPED)"

lemma sample_plain:
  "plain_test sound_test passing" "plain_test sound_test failing"
  "plain_test (ends_as (sample_verdict passing)) passing" "plain_test (ends_as (sample_verdict failing)) failing"
  "plain_test (ends_as (sample_verdict skipped)) skipped"
  by (simp_all add: plain_test_def sample_test_def sample_verdict_def skipping_test_is_skipped
      returning_test [OF returnsM_basic(1)] failing_test [OF failsM_fail])

lemma page_malloc_nonzero: "page_malloc 0 n \<noteq> 0"
  by (simp add: page_malloc_def)

lemma empty_heap_ready:
  "ready empty_heap" "\<not> global_skip_test empty_heap"
  "global_test_filter_pattern empty_heap = None" "global_skip_filter_pattern empty_heap = None"
  "libc_malloc empty_heap (malloc_calls empty_heap) n \<noteq> 0"
  "global_allocated_blocks empty_heap = []"
proof -
  have "mock_inv empty_heap"
    by (simp add: empty_heap_def initial_state_def mock_inv_def owned_def kinds_ok_def counts_ok_def wf_map.simps queue_at.simps numeral_2_eq_2)
  then show "ready empty_heap"
    using empty_heap_facts(1) by (simp add: ready_def empty_heap_def initial_state_def test_abort_def)
  show "\<not> global_skip_test empty_heap"
    "global_test_filter_pattern empty_heap = None" "global_skip_filter_pattern empty_heap = None"
    "libc_malloc empty_heap (malloc_calls empty_heap) n \<noteq> 0" "global_allocated_blocks empty_heap = []"
    by (simp_all add: empty_heap_def initial_state_def page_malloc_nonzero)
qed

lemma empty_heap_selects:
  "filter (selects (global_test_filter_pattern empty_heap) (global_skip_filter_pattern empty_heap)) [passing, failing, skipped]
     = [passing, failing, skipped]"
  by (simp add: empty_heap_ready selects_def sample_test_def)

theorem group_totals_exact_witness:
  "\<exists>tot ts t. run_group_body ''g'' [failing, passing] None None empty_heap = (Ret (tot, ts), t)
     \<and> map ts_test ts = [failing, passing] \<and> total_failed tot = status_count CM_TEST_FAILED ts"
proof -
  obtain tot ts t where t: "run_group_body ''g'' [failing, passing] None None empty_heap = (Ret (tot, ts), t)"
    using group_body_any [OF empty_heap_ready(1), of "[failing, passing]" "''g''" None] sample_plain plain_tame(1) by auto
  from group_totals_exact [OF t] t show ?thesis by (auto simp: run_group_setup_def)
qed

theorem group_exit_status_witness:
  "\<exists>t (ts :: CMUnitTestState list). cm_cmocka_run_group_tests ''g'' [passing, failing, skipped] None None empty_heap = (Ret 1, t)
     \<and> \<not> (\<forall>x \<in> set ts. ts_status x \<in> {CM_TEST_PASSED, CM_TEST_SKIPPED})"
proof -
  have tame: "\<forall>x \<in> set [passing, failing, skipped]. known.tame (global_allocated_blocks empty_heap) sample_verdict x"
    using sample_plain(3-5) plain_tame(2) [where v = sample_verdict] by simp
  obtain t where t: "cm_cmocka_run_group_tests ''g'' [passing, failing, skipped] None None empty_heap = (Ret 1, t)"
    using group_run_known [OF empty_heap_ready(1,2,5) empty_heap_selects [symmetric] tame, of "''g''"]
    by (auto simp: sample_verdict_def sample_test_def)
  have l: "length [passing, failing, skipped] < 2 ^ 31 - 1" by simp
  obtain cp s1 rc s3 and ts :: "CMUnitTestState list" where "run_group_setup None cp s1 = (Ret rc, s3)"
    "(1 :: int) = 0 \<longleftrightarrow> rc = 0 \<and> (\<forall>x \<in> set ts. ts_status x \<in> {CM_TEST_PASSED, CM_TEST_SKIPPED})"
    using group_exit_status [OF t l empty_heap_ready(5)] by blast
  then have "\<not> (\<forall>x \<in> set ts. ts_status x \<in> {CM_TEST_PASSED, CM_TEST_SKIPPED})" by (simp add: run_group_setup_def)
  with t show ?thesis by blast
qed

theorem test_result_witness:
  "\<exists>rc u. cmocka_run_one_test_or_fixture ''a'' (Some (\<lambda>_. cm_fail ''t.c'' 5)) None None (Some 1) None empty_heap = (Ret rc, u)
     \<and> rc \<noteq> 0 \<and> owned u = [] \<and> global_allocated_blocks u = []"
proof -
  let ?f = "\<lambda>_. cm_fail ''t.c'' 5"
  obtain t where t: "?f (1 :: nat) (started empty_heap) = (Longjmp, t)"
    using failing_jumps [OF failsM_fail empty_heap_ready(1)] by blast
  note e = framed_test [OF failsM_framesM [OF failsM_fail] empty_heap_ready(1) t]
  from test_result [where f = ?f and cell = 1 and name = "''a''", OF t e(1)] e(3)
  show ?thesis by (auto simp: handed_back_def empty_heap_ready(6))
qed

end
