(* ===== verification/Fixtures.thy ===== *)
theory Fixtures
  imports Group_Run
begin

text \<open>
  Setup and teardown functions of a test: their results, which blocks survive them, and
  a \<^verbatim>\<open>skip\<close> in a setup.
\<close>

section \<open>Setup\<close>

definition setup_rc :: "int outcome \<Rightarrow> cm_state \<Rightarrow> int" where
  "setup_rc r t = (case r of Ret rc \<Rightarrow> if leftover t then - 1 else rc | _ \<Rightarrow> if global_stop_test t \<and> \<not> leftover t then 0 else - 1)"

definition setup_ends :: "int outcome \<Rightarrow> cm_state \<Rightarrow> bool" where
  "setup_ends r t \<longleftrightarrow> r = Longjmp \<or> (\<exists>rc. r = Ret rc) \<and> \<not> global_stop_test t"

lemma setup_run:
  assumes f: "f cell (started s) = (r, t)" and e: "sound_end s new t" and r: "setup_ends r t"
  shows "\<exists>u. cmocka_run_one_test_or_fixture name None (Some f) None (Some cell) hcp s = (Ret (setup_rc r t), u)
     \<and> ready u \<and> owned u = [] \<and> global_skip_test u = global_skip_test t \<and> global_allocated_blocks u = global_allocated_blocks s @ new
     \<and> memory u = memory t \<and> (\<forall>sig \<in> set exception_signals. signal_table u sig = signal_table s sig)
     \<and> state_cells u = state_cells t \<and> heap_view u = heap_view t"
proof -
  let ?cp = "case hcp of None \<Rightarrow> newest (global_allocated_blocks s) | Some cp \<Rightarrow> cp"
  note e' = e [unfolded sound_end_def]
  have inv: "mock_inv t" "global_running_test t" "\<not> test_abort t" using e' by blast+
  have run: "run_function name None (Some f) None cell ?cp (started s) = (r, t)" using f by (simp add: run_function_def)
  have "\<exists>u. guarded name None (Some f) None cell ?cp (started s) = (Ret (setup_rc r t), u) \<and> closed t u"
  proof (cases "r = Longjmp")
    case True
    then have "bindM (run_function name None (Some f) None cell ?cp) (\<lambda>rc.
        seqM fail_if_leftover_values (seqM (modM (\<lambda>s. s\<lparr>global_running_test := False\<rparr>)) (retM rc))) (started s) = (Longjmp, t)"
      using run by (simp add: bindM_apply)
    from guarded_jump [OF this inv(1)] show ?thesis using True by (simp add: setup_rc_def)
  next
    case False
    then obtain rc where rc: "r = Ret rc" "\<not> global_stop_test t" using r by (auto simp: setup_ends_def)
    from guarded_returned [OF run [unfolded rc(1)] inv rc(2)] show ?thesis using rc(1) by (simp add: setup_rc_def)
  qed
  then obtain u where u: "guarded name None (Some f) None cell ?cp (started s) = (Ret (setup_rc r t), u)" and c: "closed t u" by blast
  note c' = c [unfolded closed_def]
  have h: "heap_inv u" "memory u = memory t" "global_allocated_blocks u = global_allocated_blocks s @ new"
    using c' e' heap_inv_view [of u t] by (simp_all add: heap_view_def)
  have d: "default_signal_functions u = map (signal_table s) exception_signals" using c' e' by simp
  have mu: "mock_inv u" using c' by blast
  have fin: "cmocka_run_one_test_or_fixture name None (Some f) None (Some cell) hcp s = (Ret (setup_rc r t), finished u)"
    using u by (intro run_one_finished [OF _ mu]) simp
  have ff: "mock_inv (finished u) \<and> owned (finished u) = [] \<and> heap_inv (finished u) \<and> \<not> global_running_test (finished u)
     \<and> \<not> global_stop_test (finished u) \<and> global_skip_test (finished u) = global_skip_test u
     \<and> global_allocated_blocks (finished u) = global_allocated_blocks u \<and> env_vars (finished u) = env_vars u
     \<and> (\<forall>sig \<in> set exception_signals. signal_table (finished u) sig = signal_table s sig)"
    using c' h(1) by (intro finished_frame [OF mu h(1) _ _ d]) simp_all
  have "memory (finished u) = memory u" by (simp add: finished_def torn_down_def)
  then show ?thesis
    using fin ff h(2,3) c' inv(3) finished_facts(3,7) [OF mu] by (intro exI [of _ "finished u"]) (simp add: ready_def test_abort_def)
qed

section \<open>Teardown\<close>

text \<open>
  A teardown runs with the check point of the setup: \<open>old\<close> are the blocks of before the
  setup, \<open>new\<close> those that are still allocated behind them when the teardown ends.
\<close>

definition teardown_ends :: "addr list \<Rightarrow> cm_state \<Rightarrow> addr list \<Rightarrow> cm_state \<Rightarrow> bool" where
  "teardown_ends old s new t \<longleftrightarrow> mock_inv t \<and> heap_inv t \<and> global_running_test t \<and> \<not> test_abort t \<and> \<not> global_stop_test t
     \<and> default_signal_functions t = map (signal_table s) exception_signals
     \<and> global_allocated_blocks t = old @ new \<and> blocks_intact t new"

lemma teardown_function_run:
  assumes f: "f cell (started s) = (Ret rc, t)" and e: "teardown_ends old s new t"
  shows "\<exists>u. cmocka_run_one_test_or_fixture name None None (Some f) (Some cell) (Some (newest old)) s
       = (Ret (if new = [] \<and> \<not> leftover t then rc else - 1), u)
     \<and> ready u \<and> owned u = [] \<and> global_skip_test u = global_skip_test t \<and> global_allocated_blocks u = old
     \<and> (\<forall>sig \<in> set exception_signals. signal_table u sig = signal_table s sig)"
proof -
  note e' = e [unfolded teardown_ends_def]
  let ?g = "guarded name None None (Some f) cell (newest old)"
  have run: "run_function name None None (Some f) cell (newest old) (started s)
      = seqM (fail_if_blocks_allocated (newest old) name) (retM rc) t"
    unfolding run_function_def option.case by (rule bindM_Ret [where m = "f cell", OF f])
  obtain u where u: "?g (started s) = (Ret (if new = [] \<and> \<not> leftover t then rc else - 1), u)"
     "mock_inv u" "heap_inv u" "\<not> global_running_test u" "\<not> global_stop_test u" "global_skip_test u = global_skip_test t"
     "env_vars u = env_vars t" "default_signal_functions u = default_signal_functions t" "global_allocated_blocks u = old"
    using guarded_leak_checked [OF run] e' by blast
  have d: "default_signal_functions u = map (signal_table s) exception_signals" using u(8) e' by simp
  have "cmocka_run_one_test_or_fixture name None None (Some f) (Some cell) (Some (newest old)) s
      = (Ret (if new = [] \<and> \<not> leftover t then rc else - 1), finished u)"
    using u(1) by (intro run_one_finished [OF _ u(2)]) simp
  moreover have "\<not> test_abort u" using u(7) e' by (simp add: test_abort_def)
  ultimately show ?thesis
    using finished_frame [OF u(2-5) d] u(6,7,9) by (intro exI [of _ "finished u"]) (simp add: ready_def test_abort_def)
qed

section \<open>A skip in a setup\<close>

lemma ready_frame: "msg_frame s t \<Longrightarrow> ready s \<Longrightarrow> ready t"
  using heap.blind [of s t] msg_frame_held [of s t "{}"] by (simp add: ready_def msg_frame_fields test_abort_def)

text \<open>A test that fails while \<^verbatim>\<open>global_skip_test\<close> is set.\<close>

lemma failing_skipped:
  assumes "ready s" "global_skip_test s" and f: "test_func (ts_test ts) = Some f" "\<And>cell. failsM (f cell)"
  shows "\<exists>u. run_test_function ts s = (Ret (ts\<lparr>ts_status := CM_TEST_SKIPPED\<rparr>), u)"
proof -
  let ?name = "fmt_s (test_name (ts_test ts))"
  obtain t where t: "f (ts_state ts) (started s) = (Longjmp, t)" using failing_jumps [OF f(2) assms(1)] by blast
  note e = framed_test [OF failsM_framesM [OF f(2)] assms(1) t]
  have "handed_back Longjmp t" "test_rc Longjmp [] t = - 1" using e(3) by (simp_all add: handed_back_def test_rc_def)
  with run_ready [where f = f and cell = "ts_state ts" and name = ?name, OF t e(1)]
  obtain u where u: "cmocka_run_one_test_or_fixture ?name (Some f) None None (Some (ts_state ts)) None s = (Ret (- 1), u)"
    "global_skip_test u" using e(4) assms(2) by auto
  then show ?thesis by (simp add: run_test_function_def f(1) bindM_apply seqM_apply)
qed

section \<open>Properties\<close>

text \<open>
  C22. The result of a setup function. It is its return value, or -1 when it leaves values,
  checks or expected calls over; after a jump it is -1, or 0 for a \<^verbatim>\<open>stop\<close> without leftovers.
  Blocks that the setup allocates are kept for the test, with their contents; everything
  else is cleaned up as after a test.
\<close>

theorem setup_result:
  assumes "f cell (started s) = (r, t)" and "sound_end s new t" and "setup_ends r t"
  shows "\<exists>rc u. cmocka_run_one_test_or_fixture name None (Some f) None (Some cell) hcp s = (Ret rc, u)
     \<and> rc = (case r of Ret x \<Rightarrow> if leftover t then - 1 else x | _ \<Rightarrow> if global_stop_test t \<and> \<not> leftover t then 0 else - 1)
     \<and> ready u \<and> owned u = [] \<and> global_allocated_blocks u = global_allocated_blocks s @ new \<and> memory u = memory t
     \<and> (\<forall>sig \<in> set exception_signals. signal_table u sig = signal_table s sig)"
  using setup_run [where f = f and cell = cell and name = name and hcp = hcp, OF assms] unfolding setup_rc_def by blast

text \<open>
  C23. The result of a teardown function that returns, run with the check point of the
  setup: its return value when every block that the setup and the test allocated has been
  released and nothing is left over, and -1 otherwise. In both cases the blocks of before the
  setup are the allocated blocks afterwards, and the framework is ready for the next test.
\<close>

theorem teardown_result:
  assumes "f cell (started s) = (Ret rc, t)" and "teardown_ends old s new t"
  shows "\<exists>u. cmocka_run_one_test_or_fixture name None None (Some f) (Some cell) (Some (newest old)) s
       = (Ret (if new = [] \<and> \<not> leftover t then rc else - 1), u)
     \<and> ready u \<and> owned u = [] \<and> global_allocated_blocks u = old
     \<and> (\<forall>sig \<in> set exception_signals. signal_table u sig = signal_table s sig)"
  using teardown_function_run [where f = f and cell = cell and name = name, OF assms] by blast

text \<open>
  C32. A setup function that calls \<^verbatim>\<open>skip\<close> hides the next failure: its own test is counted as
  an error, not as skipped, and \<^verbatim>\<open>global_skip_test\<close> stays set; a test
  that fails in the state it leaves is reported as skipped.
\<close>

theorem skip_in_setup_hides_failure:
  assumes "ready s" and "setup_func (ts_test ts) = Some (\<lambda>_. seqM (cm_skip fl l) (retM 0))"
    and "test_func (ts_test ts') = Some f" and "\<And>cell. failsM (f cell)"
  shows "\<exists>ts1 t. run_setup ts s = (Ret (- 1, ts1), t) \<and> ts_status ts1 = CM_TEST_ERROR \<and> global_skip_test t
    \<and> (\<exists>u. run_test_function ts' t = (Ret (ts'\<lparr>ts_status := CM_TEST_SKIPPED\<rparr>), u))"
proof -
  let ?f = "\<lambda>_ :: nat. seqM (cm_skip fl l) (retM (0 :: int))"
  let ?name = "fmt_s (test_name (ts_test ts))" and ?cp = "newest (global_allocated_blocks s)"
  obtain t where t: "cm_skip fl l (started s) = (Longjmp, t)" "sound_end s [] t" "global_skip_test t" "\<not> global_stop_test t"
    using skip_run [OF assms(1)] by blast
  have jump: "?f (ts_state ts) (started s) = (Longjmp, t)" using t(1) by (simp add: run_simps)
  have "setup_ends Longjmp t" "setup_rc Longjmp t = - 1" using t(4) by (simp_all add: setup_ends_def setup_rc_def)
  from setup_run [where f = ?f and cell = "ts_state ts" and name = ?name and hcp = "Some ?cp", OF jump t(2) this(1)] this(2)
  obtain u where u: "cmocka_run_one_test_or_fixture ?name None (Some ?f) None (Some (ts_state ts)) (Some ?cp) s = (Ret (- 1), u)"
    "ready u" "global_skip_test u" using t(3) by auto
  obtain v where v: "cmocka_print_error ''Test setup failed'' u = (Ret (), v)" "msg_frame u v"
    using returnsM_unit [OF returnsM_print] by blast
  have skip: "ready v" "global_skip_test v" using ready_frame [OF v(2) u(2)] u(3) msg_frame_fields [OF v(2)] by simp_all
  have "run_setup ts s = (Ret (- 1, ts\<lparr>ts_check_point := Some ?cp, ts_status := CM_TEST_ERROR\<rparr>), v)"
    using u(1) v(1) assms(2) by (simp add: run_setup_def check_point_allocated_blocks_def newest_def [symmetric] bindM_apply seqM_apply Let_def)
  moreover obtain w where "run_test_function ts' v = (Ret (ts'\<lparr>ts_status := CM_TEST_SKIPPED\<rparr>), w)"
    using failing_skipped [OF skip assms(3,4)] by blast
  ultimately show ?thesis using skip(2) by (intro exI conjI) (assumption | simp)+
qed

theorem setup_result_witness:
  "\<exists>u. cmocka_run_one_test_or_fixture ''a'' None (Some (\<lambda>_. retM 7)) None (Some 1) None empty_heap = (Ret 7, u) \<and> ready u"
proof -
  let ?f = "\<lambda>_ :: nat. retM (7 :: int)"
  note st = started_sound [OF empty_heap_ready(1)]
  have "?f 1 (started empty_heap) = (Ret 7, started empty_heap)" "setup_ends (Ret 7) (started empty_heap)"
    using st(3) by (simp_all add: setup_ends_def)
  from setup_result [where f = ?f and cell = 1 and name = "''a''" and hcp = None, OF this(1) st(1) this(2)]
  show ?thesis using st(2) by auto
qed

theorem skip_in_setup_hides_failure_witness:
  "\<exists>ts1 t. run_setup (new_test_state 0 (passing\<lparr>setup_func := Some (\<lambda>_. seqM (cm_skip ''t.c'' 3) (retM 0))\<rparr>)) empty_heap = (Ret (- 1, ts1), t)
     \<and> (\<exists>u. run_test_function (new_test_state 1 failing) t = (Ret (new_test_state 1 failing\<lparr>ts_status := CM_TEST_SKIPPED\<rparr>), u))"
proof -
  let ?a = "new_test_state 0 (passing\<lparr>setup_func := Some (\<lambda>_. seqM (cm_skip ''t.c'' 3) (retM 0))\<rparr>)" and ?b = "new_test_state 1 failing"
  have "setup_func (ts_test ?a) = Some (\<lambda>_. seqM (cm_skip ''t.c'' 3) (retM 0))" "test_func (ts_test ?b) = Some (\<lambda>_. cm_fail ''t.c'' 5)"
    by (simp_all add: new_test_state_def sample_test_def)
  from skip_in_setup_hides_failure [OF empty_heap_ready(1) this failsM_fail] show ?thesis by blast
qed

theorem teardown_result_witness:
  "\<exists>u. cmocka_run_one_test_or_fixture ''a'' None None (Some (\<lambda>_. retM 0)) (Some 1) (Some (newest [])) empty_heap = (Ret 0, u) \<and> ready u"
proof -
  let ?f = "\<lambda>_ :: nat. retM (0 :: int)"
  note st = started_sound [OF empty_heap_ready(1)]
  have "?f 1 (started empty_heap) = (Ret 0, started empty_heap)" "teardown_ends [] empty_heap [] (started empty_heap)"
    using st(1,3) by (simp_all add: teardown_ends_def sound_end_def empty_heap_ready(6))
  from teardown_result [where f = ?f and cell = 1 and name = "''a''", OF this] show ?thesis using st(2) by auto
qed

end
