(* ===== verification/Fixture_Run.thy ===== *)
theory Fixture_Run
  imports Fixtures
begin

text \<open>
  Tests with fixtures in a group. A setup prepares something for the test function and the
  teardown, in blocks of the test allocator and in the variable \<^verbatim>\<open>*state\<close>; what it prepares is the
  parameter \<open>Q\<close> of the lemmas here. The contracts of the setup, the test function and the
  teardown are put together along \<^verbatim>\<open>cmocka_run_one_tests\<close>, and whole groups of such
  tests follow.
\<close>

section \<open>What a fixture prepares\<close>

definition fixture_view :: "cm_state \<Rightarrow> _" where
  "fixture_view s = (quiet_view s, state_cells s)"

lemma fixture_updates [simp]:
  "fixture_view (s\<lparr>cm_error_message := m\<rparr>) = fixture_view s" "fixture_view (s\<lparr>clock_calls := k\<rparr>) = fixture_view s"
  by (simp_all add: fixture_view_def)

lemma quiet_frame: "msg_frame s t \<Longrightarrow> quiet_view t = quiet_view s"
  by (simp add: quiet_view_def mock_view_def heap_view_def msg_frame_fields)

lemma fixture_frame: "msg_frame s t \<Longrightarrow> fixture_view t = fixture_view s"
  by (simp add: fixture_view_def quiet_frame msg_frame_fields)

lemma clock_keeps:
  assumes "\<And>s t. fixture_view t = fixture_view s \<Longrightarrow> X s \<Longrightarrow> X t"
  shows "completes X clock_gettime" "completes X (cm_secdiff a b)"
  by (auto simp: tripleM_def clock_gettime_def cm_secdiff_def intro: assms [rotated])

context between_tests
begin

text \<open>The contracts of the three functions of a test, as the runner calls them.\<close>

definition good_setup :: "(nat \<Rightarrow> addr list \<Rightarrow> cm_state \<Rightarrow> bool) \<Rightarrow> CMUnitTest \<Rightarrow> bool" where
  "good_setup Q test \<longleftrightarrow> (\<exists>f. setup_func test = Some f \<and> (\<forall>name cell s. P s \<and> cell \<noteq> local_cell \<longrightarrow>
     (\<exists>rc t. cmocka_run_one_test_or_fixture name None (Some f) None (Some cell) (Some (newest (global_allocated_blocks s))) s = (Ret rc, t)
        \<and> (if rc = 0 then Q cell (global_allocated_blocks s) t else P t \<and> CM_TEST_ERROR \<in> V test))))"

definition good_test :: "(nat \<Rightarrow> addr list \<Rightarrow> cm_state \<Rightarrow> bool) \<Rightarrow> CMUnitTest \<Rightarrow> bool" where
  "good_test Q test \<longleftrightarrow> (\<forall>name cell old s. Q cell old s \<and> cell \<noteq> local_cell \<longrightarrow>
     (\<exists>rc t. cmocka_run_one_test_or_fixture name (test_func test) None None (Some cell) None s = (Ret rc, t)
        \<and> (if rc = 0 then Q cell old t \<and> CM_TEST_PASSED \<in> V test
           else Q cell old (t\<lparr>global_skip_test := False\<rparr>) \<and> (if global_skip_test t then CM_TEST_SKIPPED else CM_TEST_FAILED) \<in> V test)))"

definition good_teardown :: "(nat \<Rightarrow> addr list \<Rightarrow> cm_state \<Rightarrow> bool) \<Rightarrow> CMUnitTest \<Rightarrow> bool" where
  "good_teardown Q test \<longleftrightarrow> (\<forall>name cell old s. Q cell old s \<and> cell \<noteq> local_cell \<longrightarrow>
     (case teardown_func test of None \<Rightarrow> P s
      | Some h \<Rightarrow> (\<exists>rc t. cmocka_run_one_test_or_fixture name None None (Some h) (Some cell) (Some (newest old)) s = (Ret rc, t)
          \<and> P t \<and> (rc = 0 \<or> CM_TEST_ERROR \<in> V test))))"

lemma P_frame: "msg_frame s t \<Longrightarrow> P s \<Longrightarrow> P t"
  using quiet_frame P_view by blast

lemma setup_completes:
  assumes "good_setup Q (ts_test ts)" "ts_state ts \<noteq> local_cell"
  shows "tripleM P (run_setup ts) (\<lambda>(rc, ts1) s. ts_test ts1 = ts_test ts \<and> ts_state ts1 = ts_state ts
     \<and> (if rc = 0 then \<exists>old. ts_check_point ts1 = Some (newest old) \<and> Q (ts_state ts) old s else P s \<and> ts_status ts1 \<in> V (ts_test ts))) (\<lambda>_. False)"
proof (rule tripleM_I, unfold split_paired_Ex prod.case)
  fix s assume "P s"
  let ?cp = "newest (global_allocated_blocks s)"
  obtain f where f: "setup_func (ts_test ts) = Some f" "\<And>name cell s. P s \<Longrightarrow> cell \<noteq> local_cell \<Longrightarrow>
     (\<exists>rc t. cmocka_run_one_test_or_fixture name None (Some f) None (Some cell) (Some (newest (global_allocated_blocks s))) s = (Ret rc, t)
        \<and> (if rc = 0 then Q cell (global_allocated_blocks s) t else P t \<and> CM_TEST_ERROR \<in> V (ts_test ts)))"
    using assms(1) unfolding good_setup_def by blast
  let ?run = "cmocka_run_one_test_or_fixture (fmt_s (test_name (ts_test ts))) None (Some f) None (Some (ts_state ts)) (Some ?cp)"
  obtain rc t where t: "?run s = (Ret rc, t)"
    "if rc = 0 then Q (ts_state ts) (global_allocated_blocks s) t else P t \<and> CM_TEST_ERROR \<in> V (ts_test ts)"
    using f(2) [OF \<open>P s\<close> assms(2)] by blast
  obtain v where v: "cmocka_print_error ''Test setup failed'' t = (Ret (), v)" "msg_frame t v"
    using returnsM_unit [OF returnsM_print] by blast
  have chk: "check_point_allocated_blocks s = (Ret ?cp, s)" by (simp add: check_point_allocated_blocks_def newest_def)
  have "run_setup ts s = (if rc \<noteq> 0 then (Ret (rc, ts\<lparr>ts_check_point := Some ?cp, ts_status := CM_TEST_ERROR\<rparr>), v)
      else (Ret (rc, ts\<lparr>ts_check_point := Some ?cp\<rparr>), t))"
    using t(1) v(1) f(1) chk by (simp add: run_setup_def bindM_apply seqM_apply Let_def)
  then show "\<exists>rc ts1 u. run_setup ts s = (Ret (rc, ts1), u) \<and> ts_test ts1 = ts_test ts \<and> ts_state ts1 = ts_state ts
     \<and> (if rc = 0 then \<exists>old. ts_check_point ts1 = Some (newest old) \<and> Q (ts_state ts) old u else P u \<and> ts_status ts1 \<in> V (ts_test ts))"
    using t(2) P_frame [OF v(2)] by (cases "rc = 0") auto
qed

lemma fixture_test_completes:
  assumes "good_test Q (ts_test ts)" "ts_state ts \<noteq> local_cell"
  shows "tripleM (Q (ts_state ts) old) (run_test_function ts) (\<lambda>ts2 s. Q (ts_state ts) old s \<and> ts_state ts2 = ts_state ts
     \<and> ts_check_point ts2 = ts_check_point ts \<and> result_ok (ts_test ts) ts2) (\<lambda>_. False)"
proof (rule tripleM_I)
  fix s assume "Q (ts_state ts) old s"
  let ?run = "cmocka_run_one_test_or_fixture (fmt_s (test_name (ts_test ts))) (test_func (ts_test ts)) None None (Some (ts_state ts)) None"
  obtain rc t where t: "?run s = (Ret rc, t)" and p: "if rc = 0 then Q (ts_state ts) old t \<and> CM_TEST_PASSED \<in> V (ts_test ts)
      else Q (ts_state ts) old (t\<lparr>global_skip_test := False\<rparr>) \<and> (if global_skip_test t then CM_TEST_SKIPPED else CM_TEST_FAILED) \<in> V (ts_test ts)"
    using assms \<open>Q (ts_state ts) old s\<close> unfolding good_test_def by blast
  have e: "t\<lparr>global_skip_test := False\<rparr> = t" if "\<not> global_skip_test t" using that by (cases t) simp
  have "Q (ts_state ts) old t" if "rc \<noteq> 0" "\<not> global_skip_test t" using p that(1) unfolding e [OF that(2)] by simp
  with p show "\<exists>x t. run_test_function ts s = (Ret x, t) \<and> Q (ts_state ts) old t \<and> ts_state x = ts_state ts
     \<and> ts_check_point x = ts_check_point ts \<and> result_ok (ts_test ts) x"
    unfolding run_test_function_def bindM_Ret [where m = ?run, OF t]
    by (auto simp: run_simps result_ok_def split: if_splits)
qed

lemma teardown_completes:
  assumes "good_teardown Q test" "ts_state ts \<noteq> local_cell" "ts_check_point ts = Some (newest old)" "result_ok test ts"
  shows "tripleM (Q (ts_state ts) old) (run_teardown ts) (\<lambda>(rc, ts4) s. P s \<and> result_ok test ts4) (\<lambda>_. False)"
proof (rule tripleM_I, unfold split_paired_Ex prod.case)
  fix s assume q: "Q (ts_state ts) old s"
  have test: "ts_test ts = test" using assms(4) by (simp add: result_ok_def)
  show "\<exists>rc ts4 u. run_teardown ts s = (Ret (rc, ts4), u) \<and> P u \<and> result_ok test ts4"
  proof (cases "teardown_func test")
    case None
    then have "P s" using assms(1,2) q unfolding good_teardown_def by fastforce
    with None assms(4) show ?thesis by (simp add: run_teardown_def test)
  next
    case (Some h)
    obtain rc t where t: "cmocka_run_one_test_or_fixture (fmt_s (test_name test)) None None (Some h) (Some (ts_state ts)) (Some (newest old)) s = (Ret rc, t)"
      "P t" "rc = 0 \<or> CM_TEST_ERROR \<in> V test"
      using assms(1,2) q Some unfolding good_teardown_def by fastforce
    obtain v where v: "cmocka_print_error ''Test teardown failed'' t = (Ret (), v)" "msg_frame t v"
      using returnsM_unit [OF returnsM_print] by blast
    have "run_teardown ts s = (if rc \<noteq> 0 then (Ret (rc, ts\<lparr>ts_status := CM_TEST_ERROR\<rparr>), v) else (Ret (rc, ts), t))"
      using t(1) v(1) Some assms(3) by (simp add: run_teardown_def test bindM_apply seqM_apply)
    then show ?thesis
      using t(2,3) P_frame [OF v(2)] assms(4) by (cases "rc = 0") (auto simp: result_ok_def)
  qed
qed

text \<open>What follows the setup.\<close>

abbreviation after_setup :: "int \<Rightarrow> CMUnitTestState \<Rightarrow> (int \<times> CMUnitTestState) cm" where
  "after_setup rc ts1 \<equiv> bindM clock_gettime (\<lambda>start. bindM (if rc = 0 then run_test_function ts1 else retM ts1) (\<lambda>ts2.
      bindM clock_gettime (\<lambda>finish. bindM (cm_secdiff finish start) (\<lambda>runtime.
      bindM (if rc = 0 then run_teardown (ts2\<lparr>ts_runtime := runtime\<rparr>) else retM (rc, ts2\<lparr>ts_runtime := runtime\<rparr>)) (\<lambda>(rc, ts4).
      take_messages rc ts4)))))"

lemma after_good_setup:
  assumes view: "\<And>s t. fixture_view t = fixture_view s \<Longrightarrow> Q (ts_state ts) old s \<Longrightarrow> Q (ts_state ts) old t"
    and good: "good_test Q (ts_test ts)" "good_teardown Q (ts_test ts)"
    and ts: "ts_state ts \<noteq> local_cell" "ts_check_point ts = Some (newest old)"
  shows "tripleM (Q (ts_state ts) old) (after_setup 0 ts) (\<lambda>(rc, ts') s. P s \<and> result_ok (ts_test ts) ts') (\<lambda>_. False)"
  unfolding if_P [OF refl]
proof (rule tripleM_bind [OF clock_keeps(1) [OF view]], assumption, assumption,
    rule tripleM_bind [OF fixture_test_completes [OF good(1) ts(1)]], rule tripleM_pull,
    rule tripleM_bind [OF clock_keeps(1) [OF view]], assumption, assumption,
    rule tripleM_bind [OF clock_keeps(2) [OF view]], assumption, assumption)
  fix start finish ts2 runtime
  assume ts2: "ts_state ts2 = ts_state ts \<and> ts_check_point ts2 = ts_check_point ts \<and> result_ok (ts_test ts) ts2"
  let ?ts = "ts2\<lparr>ts_runtime := runtime\<rparr>"
  have "ts_state ?ts \<noteq> local_cell" "ts_check_point ?ts = Some (newest old)" "result_ok (ts_test ts) ?ts"
    using ts ts2 by (simp_all add: result_ok_def)
  note td = teardown_completes [OF good(2) this]
  have st: "ts_state ?ts = ts_state ts" using ts2 by simp
  show "tripleM (Q (ts_state ts) old) (bindM (run_teardown ?ts) (\<lambda>(rc, ts4). take_messages rc ts4))
      (\<lambda>(rc, ts') s. P s \<and> result_ok (ts_test ts) ts') (\<lambda>_. False)"
    by (rule tripleM_bind [OF td [unfolded st]], unfold split_paired_all prod.case, rule tripleM_pull, rule take_messages_completes)
qed

lemma after_bad_setup:
  assumes "rc \<noteq> 0" "result_ok test ts"
  shows "tripleM P (after_setup rc ts) (\<lambda>(rc, ts') s. P s \<and> result_ok test ts') (\<lambda>_. False)"
  unfolding if_not_P [OF assms(1)] bindM_retM prod.case
  by (rule tripleM_bind [OF completes_clock(1)], rule tripleM_bind [OF completes_clock(1)], rule tripleM_bind [OF completes_clock(2)],
      rule take_messages_completes) (use assms(2) in \<open>simp only: result_ok_updates\<close>)

lemma fixtures_tame:
  assumes view: "\<And>cell old s t. fixture_view t = fixture_view s \<Longrightarrow> Q cell old s \<Longrightarrow> Q cell old t"
    and good: "good_setup Q test" "good_test Q test" "good_teardown Q test"
  shows "tame test"
  unfolding tame_def
proof (intro allI impI, elim conjE)
  fix ts :: CMUnitTestState assume ts: "ts_test ts = test" "ts_state ts \<noteq> local_cell"
  show "tripleM P (cmocka_run_one_tests ts) (\<lambda>(rc, ts') s. P s \<and> result_ok test ts') (\<lambda>_. False)"
    unfolding cmocka_run_one_tests_def Let_def
  proof (rule tripleM_bind [OF setup_completes [OF good(1) [folded ts(1)] ts(2)]], unfold split_paired_all prod.case, rule tripleMI)
    fix rc :: int and ts1 :: CMUnitTestState and s
    assume s: "ts_test ts1 = ts_test ts \<and> ts_state ts1 = ts_state ts
     \<and> (if rc = 0 then \<exists>old. ts_check_point ts1 = Some (newest old) \<and> Q (ts_state ts) old s else P s \<and> ts_status ts1 \<in> V (ts_test ts))"
    show "ends (\<lambda>(rc, ts') s. P s \<and> result_ok test ts') (\<lambda>_. False) (after_setup rc ts1 s)"
    proof (cases "rc = 0")
      case True
      then obtain old where o: "ts_check_point ts1 = Some (newest old)" "Q (ts_state ts1) old s" using s by auto
      have st: "ts_state ts1 \<noteq> local_cell" and tt: "ts_test ts1 = test" using s ts by simp_all
      from tripleMD [OF after_good_setup [OF view good(2,3) [folded tt] st o(1)] o(2)]
      show ?thesis unfolding True tt by simp
    next
      case False
      then have "P s" "result_ok test ts1" using s ts by (auto simp: result_ok_def)
      then show ?thesis using tripleMD [OF after_bad_setup [OF False]] by blast
    qed
  qed
qed

end

section \<open>Sound fixtures\<close>

text \<open>
  \<open>R cell old s\<close>: what the setup has prepared is there, behind the blocks \<open>old\<close> of
  before the setup. It depends on the heap and on the variables of the tests only.
\<close>

type_synonym prepared = "nat \<Rightarrow> addr list \<Rightarrow> cm_state \<Rightarrow> bool"

definition heap_only :: "prepared \<Rightarrow> bool" where
  "heap_only R \<longleftrightarrow> (\<forall>cell old s t. heap_view t = heap_view s \<and> state_cells t = state_cells s \<and> R cell old s \<longrightarrow> R cell old t)"

definition sound_setup :: "prepared \<Rightarrow> CMFixtureFunction \<Rightarrow> bool" where
  "sound_setup R f \<longleftrightarrow> (\<forall>cell s. ready s \<and> cell \<noteq> local_cell \<longrightarrow>
     (\<exists>r t new. f cell (started s) = (r, t) \<and> sound_end s new t \<and> setup_ends r t
        \<and> (setup_rc r t = 0 \<longrightarrow> R cell (global_allocated_blocks s) t)))"

definition sound_between :: "prepared \<Rightarrow> CMUnitTestFunction \<Rightarrow> bool" where
  "sound_between R g \<longleftrightarrow> (\<forall>cell old s. ready s \<and> R cell old s \<and> cell \<noteq> local_cell \<longrightarrow>
     (\<exists>r t new. g cell (started s) = (r, t) \<and> sound_end s new t \<and> handed_back r t \<and> (r = Ret () \<longrightarrow> new = []) \<and> R cell old t))"

definition sound_teardown :: "prepared \<Rightarrow> CMFixtureFunction \<Rightarrow> bool" where
  "sound_teardown R h \<longleftrightarrow> (\<forall>cell old s. ready s \<and> R cell old s \<and> cell \<noteq> local_cell \<longrightarrow>
     (\<exists>rc t new. h cell (started s) = (Ret rc, t) \<and> teardown_ends old s new t))"

definition fixture_test :: "CMUnitTest \<Rightarrow> bool" where
  "fixture_test test \<longleftrightarrow> (\<exists>R f g. heap_only R \<and> setup_func test = Some f \<and> sound_setup R f
     \<and> test_func test = Some g \<and> sound_between R g
     \<and> (case teardown_func test of None \<Rightarrow> True | Some h \<Rightarrow> sound_teardown R h))"

lemma fixture_view_parts:
  "fixture_view t = fixture_view s \<Longrightarrow> heap_view t = heap_view s \<and> state_cells t = state_cells s
     \<and> ready t = ready s \<and> global_skip_test t = global_skip_test s"
  using ready_view [of t s] by (simp add: fixture_view_def quiet_view_def)

lemma heap_onlyD: "heap_only R \<Longrightarrow> heap_view t = heap_view s \<Longrightarrow> state_cells t = state_cells s \<Longrightarrow> R cell old s \<Longrightarrow> R cell old t"
  unfolding heap_only_def by blast

lemma heap_only_skip: "heap_only R \<Longrightarrow> R cell old s \<Longrightarrow> R cell old (s\<lparr>global_skip_test := b\<rparr>)"
  by (erule heap_onlyD) (simp_all add: heap_view_def)

text \<open>The runner leaves what was prepared alone.\<close>

lemma prepared_setup:
  assumes "heap_only R" "f cell (started s) = (r, t)" "sound_end s new t" "setup_ends r t"
  shows "\<exists>u. cmocka_run_one_test_or_fixture name None (Some f) None (Some cell) (Some cp) s = (Ret (setup_rc r t), u)
     \<and> ready u \<and> global_skip_test u = global_skip_test t \<and> (\<forall>old. R cell old t \<longrightarrow> R cell old u)"
proof -
  obtain u where u: "cmocka_run_one_test_or_fixture name None (Some f) None (Some cell) (Some cp) s = (Ret (setup_rc r t), u)"
    "ready u" "global_skip_test u = global_skip_test t" "state_cells u = state_cells t" "heap_view u = heap_view t"
    using setup_run [where f = f and cell = cell and name = name and hcp = "Some cp", OF assms(2-4)] by (elim exE conjE)
  with heap_onlyD [OF assms(1) u(5,4)] show ?thesis by blast
qed

lemma prepared_test:
  assumes "heap_only R" "f cell (started s) = (r, t)" "sound_end s new t" "handed_back r t" "r = Ret () \<longrightarrow> new = []" "R cell old t"
  shows "\<exists>u. cmocka_run_one_test_or_fixture name (Some f) None None (Some cell) None s = (Ret (test_rc r new t), u)
     \<and> ready u \<and> global_skip_test u = global_skip_test t \<and> R cell old u \<and> R cell old (u\<lparr>global_skip_test := False\<rparr>)"
proof -
  obtain u where u: "cmocka_run_one_test_or_fixture name (Some f) None None (Some cell) None s = (Ret (test_rc r new t), u)" "ready u"
    "global_skip_test u = global_skip_test t" "state_cells u = state_cells t" "r \<noteq> Ret () \<or> new = [] \<longrightarrow> heap_view u = heap_view t"
    using run_ready [where f = f and cell = cell and name = name, OF assms(2-4)] by (elim exE conjE)
  have "R cell old u" using heap_onlyD [OF assms(1) _ u(4) assms(6)] u(5) assms(5) by blast
  with u(1-3) heap_only_skip [OF assms(1) this] show ?thesis by blast
qed

text \<open>Sound tests with fixtures are tame.\<close>

lemma any_good_setup:
  assumes "heap_only R" "setup_func test = Some f" "sound_setup R f"
  shows "any.good_setup (\<lambda>cell old s. ready s \<and> R cell old s) test"
  unfolding any.good_setup_def
proof (intro exI [of _ f] conjI assms(2) allI impI, elim conjE)
  fix name cell s assume "ready s" "cell \<noteq> local_cell"
  then obtain r t new where t: "f cell (started s) = (r, t)" "sound_end s new t" "setup_ends r t"
    "setup_rc r t = 0 \<longrightarrow> R cell (global_allocated_blocks s) t" using assms(3) unfolding sound_setup_def by blast
  let ?cp = "newest (global_allocated_blocks s)"
  obtain u where "cmocka_run_one_test_or_fixture name None (Some f) None (Some cell) (Some ?cp) s = (Ret (setup_rc r t), u)" "ready u"
    "\<forall>old. R cell old t \<longrightarrow> R cell old u"
    using prepared_setup [where R = R and f = f and name = name and cp = ?cp, OF assms(1) t(1-3)] by (elim exE conjE)
  with t(4) show "\<exists>rc t. cmocka_run_one_test_or_fixture name None (Some f) None (Some cell) (Some ?cp) s = (Ret rc, t)
      \<and> (if rc = 0 then ready t \<and> R cell (global_allocated_blocks s) t else ready t \<and> CM_TEST_ERROR \<in> UNIV)"
    by (intro exI [of _ "setup_rc r t"] exI [of _ u]) simp
qed

lemma any_good_test:
  assumes "heap_only R" "test_func test = Some g" "sound_between R g"
  shows "any.good_test (\<lambda>cell old s. ready s \<and> R cell old s) test"
  unfolding any.good_test_def assms(2)
proof (intro allI impI, elim conjE)
  fix name cell old s assume "ready s" "R cell old s" "cell \<noteq> local_cell"
  then obtain r t new where t: "g cell (started s) = (r, t)" "sound_end s new t" "handed_back r t" "r = Ret () \<longrightarrow> new = []" "R cell old t"
    using assms(3) unfolding sound_between_def by blast
  obtain u where "cmocka_run_one_test_or_fixture name (Some g) None None (Some cell) None s = (Ret (test_rc r new t), u)" "ready u"
    "R cell old u" "R cell old (u\<lparr>global_skip_test := False\<rparr>)"
    using prepared_test [where R = R and f = g and name = name, OF assms(1) t] by (elim exE conjE)
  then show "\<exists>rc t. cmocka_run_one_test_or_fixture name (Some g) None None (Some cell) None s = (Ret rc, t) \<and>
      (if rc = 0 then (ready t \<and> R cell old t) \<and> CM_TEST_PASSED \<in> UNIV
       else (ready (t\<lparr>global_skip_test := False\<rparr>) \<and> R cell old (t\<lparr>global_skip_test := False\<rparr>))
         \<and> (if global_skip_test t then CM_TEST_SKIPPED else CM_TEST_FAILED) \<in> UNIV)"
    by (intro exI [of _ "test_rc r new t"] exI [of _ u]) (simp add: ready_skip)
qed

lemma any_good_teardown:
  assumes "case teardown_func test of None \<Rightarrow> True | Some h \<Rightarrow> sound_teardown R h"
  shows "any.good_teardown (\<lambda>cell old s. ready s \<and> R cell old s) test"
  unfolding any.good_teardown_def
proof (intro allI impI, elim conjE)
  fix name cell old s assume s: "ready s" "R cell old s" "cell \<noteq> local_cell"
  show "case teardown_func test of None \<Rightarrow> ready s
     | Some h \<Rightarrow> \<exists>rc t. cmocka_run_one_test_or_fixture name None None (Some h) (Some cell) (Some (newest old)) s = (Ret rc, t)
         \<and> ready t \<and> (rc = 0 \<or> CM_TEST_ERROR \<in> UNIV)"
  proof (cases "teardown_func test")
    case (Some h)
    then have "sound_teardown R h" using assms by simp
    then obtain rc t new where t: "h cell (started s) = (Ret rc, t)" "teardown_ends old s new t"
      using s unfolding sound_teardown_def by blast
    then show ?thesis using teardown_function_run [where f = h and cell = cell and name = name, OF t] Some by auto
  qed (use s in simp)
qed

lemma fixture_test_tame: "fixture_test test \<Longrightarrow> any.tame test"
proof -
  assume "fixture_test test"
  then obtain R f g where R: "heap_only R" and t: "setup_func test = Some f" "sound_setup R f" "test_func test = Some g" "sound_between R g"
    "case teardown_func test of None \<Rightarrow> True | Some h \<Rightarrow> sound_teardown R h"
    unfolding fixture_test_def by blast
  have "ready u \<and> R cell old u" if "fixture_view u = fixture_view s" "ready s \<and> R cell old s" for cell old s u
    using fixture_view_parts [OF that(1)] heap_onlyD [OF R] that(2) by blast
  then show ?thesis
    by (rule any.fixtures_tame [OF _ any_good_setup [OF R t(1,2)] any_good_test [OF R t(3,4)] any_good_teardown [OF t(5)]])
qed

section \<open>Fixtures that succeed\<close>

definition clean_setup :: "prepared \<Rightarrow> CMFixtureFunction \<Rightarrow> bool" where
  "clean_setup R f \<longleftrightarrow> (\<forall>cell s. ready s \<and> \<not> global_skip_test s \<and> cell \<noteq> local_cell \<longrightarrow>
     (\<exists>t new. f cell (started s) = (Ret 0, t) \<and> sound_end s new t \<and> \<not> global_stop_test t \<and> \<not> leftover t
        \<and> \<not> global_skip_test t \<and> R cell (global_allocated_blocks s) t))"

definition clean_between :: "prepared \<Rightarrow> CMUnitTestStatus \<Rightarrow> CMUnitTestFunction \<Rightarrow> bool" where
  "clean_between R st g \<longleftrightarrow> (\<forall>cell old s. ready s \<and> \<not> global_skip_test s \<and> R cell old s \<and> cell \<noteq> local_cell \<longrightarrow>
     (\<exists>r t new. g cell (started s) = (r, t) \<and> sound_end s new t \<and> handed_back r t \<and> (r = Ret () \<longrightarrow> new = []) \<and> R cell old t
        \<and> verdict r new t = st \<and> (st = CM_TEST_PASSED \<longrightarrow> \<not> global_skip_test t)))"

definition clean_teardown :: "prepared \<Rightarrow> CMFixtureFunction \<Rightarrow> bool" where
  "clean_teardown R h \<longleftrightarrow> (\<forall>cell old s. ready s \<and> \<not> global_skip_test s \<and> R cell old s \<and> cell \<noteq> local_cell \<longrightarrow>
     (\<exists>t. h cell (started s) = (Ret 0, t) \<and> teardown_ends old s [] t \<and> \<not> leftover t \<and> \<not> global_skip_test t))"

definition clean_fixture_test :: "CMUnitTestStatus \<Rightarrow> CMUnitTest \<Rightarrow> bool" where
  "clean_fixture_test st test \<longleftrightarrow> (\<exists>R f g h. heap_only R \<and> setup_func test = Some f \<and> clean_setup R f
     \<and> test_func test = Some g \<and> clean_between R st g \<and> teardown_func test = Some h \<and> clean_teardown R h)"

text \<open>What holds between the functions of such a test, when \<open>bs\<close> are the blocks of before it.\<close>

abbreviation waiting :: "prepared \<Rightarrow> addr list \<Rightarrow> prepared" where
  "waiting R bs \<equiv> \<lambda>cell old s. ready s \<and> \<not> global_skip_test s \<and> R cell old s \<and> old = bs"

lemma known_good_setup:
  assumes "heap_only R" "setup_func test = Some f" "clean_setup R f"
  shows "known.good_setup bs v (waiting R bs) test"
  unfolding known.good_setup_def
proof (intro exI [of _ f] conjI assms(2) allI impI, elim conjE)
  fix name cell s assume s: "ready s" "\<not> global_skip_test s" "cell \<noteq> local_cell" "global_allocated_blocks s = bs"
  then obtain t new where t: "f cell (started s) = (Ret 0, t)" "sound_end s new t" "\<not> global_stop_test t" "\<not> leftover t"
    "\<not> global_skip_test t" "R cell bs t" using assms(3) unfolding clean_setup_def by blast
  let ?cp = "newest (global_allocated_blocks s)"
  have e: "setup_ends (Ret 0) t" "setup_rc (Ret 0) t = 0" using t(3,4) by (simp_all add: setup_ends_def setup_rc_def)
  obtain u where "cmocka_run_one_test_or_fixture name None (Some f) None (Some cell) (Some ?cp) s = (Ret (setup_rc (Ret 0) t), u)" "ready u"
    "global_skip_test u = global_skip_test t" "\<forall>old. R cell old t \<longrightarrow> R cell old u"
    using prepared_setup [where R = R and f = f and name = name and cp = ?cp, OF assms(1) t(1,2) e(1)] by (elim exE conjE)
  with t(5,6) s(4) e(2)
  show "\<exists>rc t. cmocka_run_one_test_or_fixture name None (Some f) None (Some cell) (Some ?cp) s = (Ret rc, t)
      \<and> (if rc = 0 then waiting R bs cell (global_allocated_blocks s) t
         else (ready t \<and> \<not> global_skip_test t \<and> global_allocated_blocks t = bs) \<and> CM_TEST_ERROR \<in> {v test})"
    by (intro exI [of _ "0 :: int"] exI [of _ u]) simp
qed

lemma known_good_test:
  assumes "heap_only R" "test_func test = Some g" "clean_between R (v test) g"
  shows "known.good_test v (waiting R bs) test"
  unfolding known.good_test_def assms(2)
proof (intro allI impI, elim conjE)
  fix name cell old s assume s: "ready s" "\<not> global_skip_test s" "R cell old s" "old = bs" "cell \<noteq> local_cell"
  then obtain r t new where t: "g cell (started s) = (r, t)" "sound_end s new t" "handed_back r t" "r = Ret () \<longrightarrow> new = []" "R cell old t"
    "verdict r new t = v test" "v test = CM_TEST_PASSED \<longrightarrow> \<not> global_skip_test t"
    using assms(3) unfolding clean_between_def by blast
  obtain u where u: "cmocka_run_one_test_or_fixture name (Some g) None None (Some cell) None s = (Ret (test_rc r new t), u)" "ready u"
    "global_skip_test u = global_skip_test t" "R cell old u" "R cell old (u\<lparr>global_skip_test := False\<rparr>)"
    using prepared_test [where R = R and f = g and name = name, OF assms(1) t(1-5)] by (elim exE conjE)
  show "\<exists>rc t. cmocka_run_one_test_or_fixture name (Some g) None None (Some cell) None s = (Ret rc, t) \<and>
      (if rc = 0 then waiting R bs cell old t \<and> CM_TEST_PASSED \<in> {v test}
       else waiting R bs cell old (t\<lparr>global_skip_test := False\<rparr>)
         \<and> (if global_skip_test t then CM_TEST_SKIPPED else CM_TEST_FAILED) \<in> {v test})"
    using u s(4) t(6,7)
    by (intro exI [of _ "test_rc r new t"] exI [of _ u]) (cases "test_rc r new t = 0", simp_all add: ready_skip verdict_def)
qed

lemma known_good_teardown:
  assumes "teardown_func test = Some h" "clean_teardown R h"
  shows "known.good_teardown bs v (waiting R bs) test"
  unfolding known.good_teardown_def assms(1) option.case
proof (intro allI impI, elim conjE)
  fix name cell old s assume s: "ready s" "\<not> global_skip_test s" "R cell old s" "old = bs" "cell \<noteq> local_cell"
  then obtain t where t: "h cell (started s) = (Ret 0, t)" "teardown_ends old s [] t" "\<not> leftover t" "\<not> global_skip_test t"
    using assms(2) unfolding clean_teardown_def by blast
  obtain u where "cmocka_run_one_test_or_fixture name None None (Some h) (Some cell) (Some (newest old)) s
       = (Ret (if ([] :: addr list) = [] \<and> \<not> leftover t then 0 else - 1), u)" "ready u" "global_skip_test u = global_skip_test t" "global_allocated_blocks u = old"
    using teardown_function_run [where f = h and cell = cell and name = name, OF t(1,2)] by (elim exE conjE)
  then show "\<exists>rc t. cmocka_run_one_test_or_fixture name None None (Some h) (Some cell) (Some (newest old)) s = (Ret rc, t)
      \<and> (ready t \<and> \<not> global_skip_test t \<and> global_allocated_blocks t = bs) \<and> (rc = 0 \<or> CM_TEST_ERROR \<in> {v test})"
    using t(3,4) s(4) by (intro exI [of _ "0 :: int"] exI [of _ u]) simp
qed

lemma clean_fixture_tame: "clean_fixture_test (v test) test \<Longrightarrow> known.tame bs v test"
proof -
  assume "clean_fixture_test (v test) test"
  then obtain R f g h where R: "heap_only R" and t: "setup_func test = Some f" "clean_setup R f" "test_func test = Some g" "clean_between R (v test) g"
    "teardown_func test = Some h" "clean_teardown R h" unfolding clean_fixture_test_def by blast
  have "waiting R bs cell old u" if "fixture_view u = fixture_view s" "waiting R bs cell old s" for cell old s u
    using fixture_view_parts [OF that(1)] heap_onlyD [OF R] that(2) by blast
  then show ?thesis
    by (rule known.fixtures_tame [OF _ known_good_setup [OF R t(1,2)] known_good_test [where v = v, OF R t(3,4)] known_good_teardown [OF t(5,6)]])
qed

section \<open>Properties\<close>

text \<open>Tests without fixtures, and tests with them.\<close>

definition sound_unit :: "CMUnitTest \<Rightarrow> bool" where
  "sound_unit test \<longleftrightarrow> plain_test sound_test test \<or> fixture_test test"

definition known_unit :: "CMUnitTestStatus \<Rightarrow> CMUnitTest \<Rightarrow> bool" where
  "known_unit st test \<longleftrightarrow> st \<noteq> CM_TEST_ERROR \<and> (plain_test (ends_as st) test \<or> clean_fixture_test st test)"

lemma unit_tame: "sound_unit test \<Longrightarrow> any.tame test" "known_unit (v test) test \<Longrightarrow> known.tame bs v test"
  using plain_tame fixture_test_tame clean_fixture_tame unfolding sound_unit_def known_unit_def by blast+

text \<open>
  C9. No test keeps the others from running. When every selected test is sound (in whatever
  way it ends, it hands control back with the data of the framework intact), with a sound setup and
  teardown if it has them, the loop over the tests comes to its end: every selected test has been
  executed and counted once, and the framework is ready for more. A setup may fail in any
  way; a test between fixtures leaves in place what the setup has prepared.
\<close>

theorem group_runs_to_its_end:
  assumes "ready s" and "\<forall>x \<in> set selected. sound_unit x"
  shows "\<exists>tot ts t. run_group_body g selected None cp s = (Ret (tot, ts), t) \<and> ready t
    \<and> map ts_test ts = selected \<and> total_executed tot = length selected
    \<and> total_passed tot + total_failed tot + total_errors tot + total_skipped tot = length selected"
  using group_body_any [OF assms(1)] assms(2) unit_tame(1) unfolding group_ran_def by metis

text \<open>
  C8. The number of failures is what a group returns, from beginning to end: when each
  selected test is known to end as passed, failed or skipped, and its fixtures, if it has any, to succeed,
  \<^verbatim>\<open>_cmocka_run_group_tests\<close> returns (it neither exits nor aborts the process), its result is
  the number of selected tests that fail, and the framework is as ready as before, with the
  same blocks allocated.
\<close>

theorem group_returns_failures:
  assumes "ready s" and "\<not> global_skip_test s" and "length tests < 2 ^ 31"
    and "libc_malloc s (malloc_calls s) (sizeof_CMUnitTestState * word_of_nat (length tests)) \<noteq> 0"
    and "selected = filter (selects (global_test_filter_pattern s) (global_skip_filter_pattern s)) tests"
    and "\<forall>x \<in> set selected. known_unit (v x) x"
  shows "\<exists>t. cm_cmocka_run_group_tests g tests None None s
      = (Ret (int (length (filter (\<lambda>x. v x = CM_TEST_FAILED) selected))), t)
    \<and> ready t \<and> global_allocated_blocks t = global_allocated_blocks s"
proof -
  have "filter (\<lambda>x. v x = CM_TEST_FAILED \<or> v x = CM_TEST_ERROR) selected = filter (\<lambda>x. v x = CM_TEST_FAILED) selected"
    using assms(6) by (intro filter_cong) (auto simp: known_unit_def)
  moreover have "\<forall>x \<in> set selected. known.tame (global_allocated_blocks s) v x" using assms(6) unit_tame(2) [where v = v] by blast
  ultimately show ?thesis
    using group_run_known [OF assms(1,2,4,5) _ assms(3), of v g] by auto
qed

section \<open>Witnesses\<close>

text \<open>A test whose setup leaves a value in \<^verbatim>\<open>*state\<close>, which the test checks and the teardown clears.\<close>

definition set_cell :: "addr \<Rightarrow> CMFixtureFunction" where
  "set_cell x cell = seqM (modM (\<lambda>s. s\<lparr>state_cells := (state_cells s)(cell := x)\<rparr>)) (retM 0)"

definition check_cell :: "addr \<Rightarrow> CMUnitTestFunction" where
  "check_cell x cell = bindM (readM (\<lambda>s. state_cells s cell)) (\<lambda>y. cm_assert_uint_equal y x ''t.c'' 5)"

definition with_cell :: "string \<Rightarrow> addr \<Rightarrow> CMUnitTest" where
  "with_cell name x = \<lparr>test_name = Some name, test_func = Some (check_cell x), setup_func = Some (set_cell 42),
     teardown_func = Some (set_cell 0), initial_state_ptr = 0\<rparr>"

definition holds_42 :: prepared where
  "holds_42 cell old s \<longleftrightarrow> state_cells s cell = 42 \<and> global_allocated_blocks s = old"

lemma holds_42_heap_only: "heap_only holds_42"
  by (auto simp: heap_only_def holds_42_def heap_view_def)

lemma set_cell_run:
  assumes "ready s"
  shows "\<exists>t. set_cell x cell (started s) = (Ret 0, t) \<and> sound_end s [] t \<and> \<not> global_stop_test t \<and> \<not> leftover t
    \<and> global_skip_test t = global_skip_test s \<and> state_cells t cell = x"
proof -
  let ?t = "(started s)\<lparr>state_cells := (state_cells (started s))(cell := x)\<rparr>"
  note st = started_sound [OF assms]
  have v: "mock_view ?t = mock_view (started s)" "heap_view ?t = heap_view (started s)" by (simp_all add: mock_view_def heap_view_def)
  have "sound_end s [] ?t"
    using st(1) mock_inv_view(1) [OF v(1)] heap_inv_view [OF v(2)] by (simp add: sound_end_def test_abort_def blocks_intact_def)
  moreover have "\<not> leftover ?t" using mock_inv_view(2) [OF v(1)] st(2) by simp
  ultimately show ?thesis using st(3,4) by (intro exI [of _ ?t]) (simp add: set_cell_def run_simps)
qed

lemma check_cell_run:
  assumes "ready s" "holds_42 cell old s" "cell \<noteq> local_cell"
  shows "\<exists>r t. check_cell x cell (started s) = (r, t) \<and> sound_end s [] t \<and> handed_back r t \<and> holds_42 cell old t
    \<and> global_skip_test t = global_skip_test s \<and> (\<not> global_skip_test s \<longrightarrow> verdict r [] t = (if x = 42 then CM_TEST_PASSED else CM_TEST_FAILED))"
proof -
  let ?s = "started s" and ?a = "cm_assert_uint_equal 42 x ''t.c'' 5"
  have c: "check_cell x cell ?s = ?a ?s" using assms(2,3) by (simp add: check_cell_def holds_42_def started_def)
  have e: "asserts_exactly (42 = x) ?a ?s"
    using assertsM_at [OF run_assertion_asserts, of "A_uint_equal 42 x" ?s "42 = x" "\<lambda>_. []" "''t.c''" 5] by simp
  note st = started_sound [OF assms(1)]
  obtain r t where rt: "?a ?s = (r, t)" by (cases "?a ?s")
  have fr: "msg_frame ?s t" using e rt by (cases "42 = x") (simp_all add: asserts_exactly_def)
  have out: "r = (if x = 42 then Ret () else Longjmp)"
    using e rt st(5,6) assms(1) by (auto simp: asserts_exactly_def failure_outcome_def ready_def split: if_splits)
  have t: "sound_end s [] t" "\<not> leftover t" "\<not> global_stop_test t" "global_skip_test t = global_skip_test s"
    using sound_end_frame [OF fr st(1)] leftover_frame [OF fr] st(2-4) msg_frame_fields [OF fr] by simp_all
  have h: "holds_42 cell old t" using assms(2,3) msg_frame_fields [OF fr] by (simp add: holds_42_def started_def)
  show ?thesis
    by (intro exI [of _ r] exI [of _ t]) (use c rt out t h in \<open>simp add: handed_back_def verdict_def test_rc_def\<close>)
qed

lemma set_cell_setup: "sound_setup holds_42 (set_cell 42)" "clean_setup holds_42 (set_cell 42)"
proof -
  have run: "\<exists>t. set_cell 42 cell (started s) = (Ret 0, t) \<and> sound_end s [] t \<and> \<not> global_stop_test t \<and> \<not> leftover t
      \<and> global_skip_test t = global_skip_test s \<and> holds_42 cell (global_allocated_blocks s) t" if "ready s" for cell s
    using set_cell_run [OF that, of 42 cell] by (auto simp: holds_42_def sound_end_def)
  moreover have "setup_ends (Ret 0) t" if "\<not> global_stop_test t" for t using that by (simp add: setup_ends_def)
  ultimately show "sound_setup holds_42 (set_cell 42)" "clean_setup holds_42 (set_cell 42)"
    unfolding sound_setup_def clean_setup_def by metis+
qed

lemma set_cell_teardown: "clean_teardown holds_42 (set_cell 0)" "sound_teardown holds_42 (set_cell 0)"
proof -
  have run: "\<exists>t. set_cell 0 cell (started s) = (Ret 0, t) \<and> teardown_ends old s [] t \<and> \<not> leftover t \<and> global_skip_test t = global_skip_test s"
    if "ready s" "holds_42 cell old s" for cell old s
    using set_cell_run [OF that(1), of 0 cell] that(2) by (auto simp: teardown_ends_def sound_end_def holds_42_def)
  show "clean_teardown holds_42 (set_cell 0)" "sound_teardown holds_42 (set_cell 0)"
    unfolding clean_teardown_def sound_teardown_def using run by metis+
qed

lemma check_cell_between:
  "sound_between holds_42 (check_cell x)" "clean_between holds_42 (if x = 42 then CM_TEST_PASSED else CM_TEST_FAILED) (check_cell x)"
  unfolding sound_between_def clean_between_def using check_cell_run by metis+

lemma with_cell_units:
  "sound_unit (with_cell name x)" "known_unit (if x = 42 then CM_TEST_PASSED else CM_TEST_FAILED) (with_cell name x)"
proof -
  have "fixture_test (with_cell name x)"
    unfolding fixture_test_def with_cell_def
    by (intro exI [of _ holds_42] exI [of _ "set_cell 42"] exI [of _ "check_cell x"])
      (simp add: holds_42_heap_only set_cell_setup set_cell_teardown check_cell_between)
  then show "sound_unit (with_cell name x)" by (simp add: sound_unit_def)
  have "clean_fixture_test (if x = 42 then CM_TEST_PASSED else CM_TEST_FAILED) (with_cell name x)"
    unfolding clean_fixture_test_def with_cell_def
    by (intro exI [of _ holds_42] exI [of _ "set_cell 42"] exI [of _ "check_cell x"] exI [of _ "set_cell 0"])
      (simp add: holds_42_heap_only set_cell_setup set_cell_teardown check_cell_between(2) del: if_split)
  then show "known_unit (if x = 42 then CM_TEST_PASSED else CM_TEST_FAILED) (with_cell name x)" by (simp add: known_unit_def)
qed

theorem group_runs_to_its_end_witness:
  "\<exists>tot ts t. run_group_body ''g'' [failing, with_cell ''passing'' 42, with_cell ''failing'' 7] None None empty_heap = (Ret (tot, ts), t)
     \<and> total_executed tot = 3 \<and> total_passed tot + total_failed tot + total_errors tot + total_skipped tot = 3"
proof -
  have "\<forall>x \<in> set [failing, with_cell ''passing'' 42, with_cell ''failing'' 7]. sound_unit x"
    using with_cell_units(1) sample_plain(2) by (simp add: sound_unit_def)
  from group_runs_to_its_end [OF empty_heap_ready(1) this, of "''g''" None] show ?thesis by auto
qed

theorem group_returns_failures_witness:
  "\<exists>t. cm_cmocka_run_group_tests ''g'' [with_cell ''passing'' 42, with_cell ''failing'' 7, skipped] None None empty_heap = (Ret 1, t) \<and> ready t"
proof -
  let ?ts = "[with_cell ''passing'' 42, with_cell ''failing'' 7, skipped]"
  have sel: "?ts = filter (selects (global_test_filter_pattern empty_heap) (global_skip_filter_pattern empty_heap)) ?ts"
    by (simp add: empty_heap_ready selects_def sample_test_def with_cell_def)
  have v: "sample_verdict (with_cell ''passing'' 42) = CM_TEST_PASSED" "sample_verdict (with_cell ''failing'' 7) = CM_TEST_FAILED"
    "sample_verdict skipped = CM_TEST_SKIPPED" by (simp_all add: sample_verdict_def with_cell_def sample_test_def)
  have "known_unit CM_TEST_PASSED (with_cell ''passing'' 42)" "known_unit CM_TEST_FAILED (with_cell ''failing'' 7)"
    using with_cell_units(2) [of 42] with_cell_units(2) [of 7] by simp_all
  moreover have "known_unit CM_TEST_SKIPPED skipped" using sample_plain(5) unfolding v(3) by (simp add: known_unit_def)
  ultimately have "\<forall>x \<in> set ?ts. known_unit (sample_verdict x) x" using v by simp
  from group_returns_failures [OF empty_heap_ready(1,2) _ empty_heap_ready(5) sel this, of "''g''"] v
  show ?thesis by auto
qed

end
