(* ===== verification/Spec2Isabelle.thy ===== *)
theory Spec2Isabelle
  imports List_Node C_String Coverity_Models Test_Macros Fixture_Run
begin

text \<open>
  Verification library for cmocka, a unit-test framework for C. The program is
  \<^verbatim>\<open>src/src/cmocka.c\<close> with its public header \<^verbatim>\<open>src/include/cmocka.h\<close>.

  \<^bold>\<open>The program.\<close> A test program hands an array of test functions with optional setup and
  teardown functions to \<^verbatim>\<open>_cmocka_run_group_tests\<close>. For each selected test the
  runner installs signal handlers, marks a position in the list of allocated blocks, calls
  the function under \<^verbatim>\<open>sigsetjmp\<close>, and afterwards checks for leaked blocks and for mock
  values, parameter checks and expected calls that were not used up. A failed assertion,
  \<^verbatim>\<open>skip\<close>, \<^verbatim>\<open>stop\<close> and a signal jump back to the runner through \<^verbatim>\<open>exit_test\<close>. Mock
  functions take their return values and parameter checks from two symbol maps, which are trees of
  linked lists with reference counts; an ordered list holds expected calls. All
  messages of a test are collected in \<^verbatim>\<open>cm_error_message\<close> and printed by the report
  functions in one of four formats.

  \<^bold>\<open>How it is modelled.\<close> A C function is a program in the state monad of \<open>Cm_Prelude\<close>: it
  maps the globals to an outcome and new globals. Outcomes are a normal return, the jump to
  the runner (\<open>Longjmp\<close>), the jump of \<^verbatim>\<open>mock_assert\<close> (\<open>Assert_longjmp\<close>), the end of the process
  (\<open>Exit\<close>, \<open>Abort\<close>) and undefined behaviour (\<open>Undefined\<close>: a released object is read or
  released, a null or unmapped address is read, a block header is read that was stored into). The globals are the record \<open>cm_state\<close> of
  \<open>Cm_State\<close>. Names keep the ones of the source; a leading underscore of C is \<open>cm_\<close>
  here. Machine words are \<open>64 word\<close> and \<open>32 word\<close> where wrap-around matters; memory, with the blocks of the test
  allocator and the headers and guards in them, is a map from addresses to bytes. A variadic print call is the text it formats. Test functions
  and fixtures are arbitrary programs of the monad.

  What belongs to the platform is a field of the state that no function changes, hence a
  parameter of every theorem: the results of \<^verbatim>\<open>malloc\<close>, the contents of fresh memory, the
  bytes that represent a block header, the clock, the environment, whether a file can be opened, the text of a pointer, and the
  arithmetic of the run times.

  \<^bold>\<open>The theories\<close>, in the order of the imports, with the part of the source each models.

  \<^item> \<open>Cm_Prelude\<close>: the monad and its rules (invariants \<open>keepsM\<close>, triples \<open>tripleM\<close>,
    programs that never return), source locations, printf conversions.
  \<^item> \<open>List_Node\<close>: \<^verbatim>\<open>list_*\<close> on a heap of nodes. A list represents a sequence;
    every sequence of legal calls runs to its end and implements the calls on sequences.
  \<^item> \<open>C_String\<close>: \<^verbatim>\<open>c_strmatch\<close>, \<^verbatim>\<open>c_strreplace\<close>, \<^verbatim>\<open>cmprepare_xml_attribute_string\<close>.
    Matching is compared with a specification of patterns, replacement with one on strings;
    escaping is undone by unescaping where the escaped name fits.
  \<^item> \<open>Symbol_Map\<close>: \<^verbatim>\<open>add_symbol_value\<close>, \<^verbatim>\<open>get_symbol_value\<close>, \<^verbatim>\<open>remove_always_return_values\<close>,
    \<^verbatim>\<open>check_for_leftover_values\<close>, \<^verbatim>\<open>free_symbol_map_value\<close>. The maps are a store of queues
    (locale \<open>queue_store\<close>, interpreted for both maps).
  \<^item> \<open>Cm_State\<close>: the globals, messages, \<^verbatim>\<open>exit_test\<close>, \<^verbatim>\<open>_fail\<close>, \<^verbatim>\<open>_skip\<close>, \<^verbatim>\<open>_stop\<close>,
    \<^verbatim>\<open>exception_handler\<close>; programs that change nothing but messages (\<open>framesM\<close>) and
    the invariants they keep (locale \<open>message_blind\<close>).
  \<^item> \<open>Display_Error\<close>, \<open>Assertions\<close>: the comparisons with their reports, the assertions, and the
    contract that every assertion returns exactly when its condition holds.
  \<^item> \<open>Float_Compare\<close>: \<^verbatim>\<open>float_compare\<close>, \<^verbatim>\<open>double_compare\<close> and their assertions on IEEE 754
    numbers; bounds of the tolerance (locale \<open>rounding_format\<close>, interpreted for both
    types).
  \<^item> \<open>Coverity_Models\<close>: \<^verbatim>\<open>coverity/coverity_assert_model.c\<close>, which tells a static analyser where the
    assertions do not return, compared with the assertions themselves.
  \<^item> \<open>Mock_Objects\<close>, \<open>Mock_Lifecycle\<close>: \<^verbatim>\<open>_will_return\<close>, \<^verbatim>\<open>_mock\<close>, \<^verbatim>\<open>_expect_*\<close>, \<^verbatim>\<open>_check_expected\<close>,
    \<^verbatim>\<open>_function_called\<close>, leftovers and teardown. Ownership of the queued objects is an
    invariant of every sequence of calls but those of \<^verbatim>\<open>_mock\<close> that ask for a value of another
    type that stays queued, which are shown to break it; return values come back in order; expected calls
    refine a specification.
  \<^item> \<open>Mock_Macros\<close>: the macros through which tests and mock functions call these, with
    their counts, type names and conversions. A queued value keeps its type; each \<^verbatim>\<open>expect_*\<close>
    accepts exactly the values of its relation; a second unused \<^verbatim>\<open>will_return_maybe\<close> value fails a test.
  \<^item> \<open>Test_Alloc\<close>, \<open>Leak_Check\<close>: \<^verbatim>\<open>_test_malloc\<close>, \<^verbatim>\<open>_test_calloc\<close>, \<^verbatim>\<open>_test_realloc\<close>,
    \<^verbatim>\<open>_test_free\<close>, check points and the leak check. A header lies in memory in front of its
    block. The heap invariant holds in every state that is reached without a store into the header of a live block; guards, alignment, overflow and contents are exact.
  \<^item> \<open>Report\<close>: \<^verbatim>\<open>cmprintf\<close> and the group reports in the formats standard, TAP, subunit and XML. They
    change output only.
  \<^item> \<open>Runner\<close>: time, signals, \<^verbatim>\<open>cmocka_run_one_test_or_fixture\<close>, \<^verbatim>\<open>cmocka_run_one_tests\<close>,
    \<^verbatim>\<open>_cmocka_run_group_tests\<close>; exact totals and exit status for arbitrary test functions.
  \<^item> \<open>Test_Macros\<close>: the macros that assert, leave a test, allocate and declare tests, and which
    values the assertion macros accept.
  \<^item> \<open>Runner_Contract\<close>, \<open>Group_Run\<close>, \<open>Fixtures\<close>, \<open>Fixture_Run\<close>: the composition. How the outcome of a test
    function, the leak check and the leftover check decide its result (through views of the
    state, locale \<open>framed_view\<close>); that a group comes to its end and returns the number of
    failures (locale \<open>between_tests\<close>, interpreted for arbitrary sound tests and for tests
    of known outcome); the results of setup and teardown functions, and groups of tests with
    fixtures, whose contracts hand on what the setup prepares (a predicate on the heap and the
    variables of the tests). These contracts are stated for every state between two tests.

  \<^bold>\<open>Loops.\<close> Loops over lists are structural recursion. The loops that may not end in C are
  partial functions into an option: \<^verbatim>\<open>list_free\<close> and the search of \<^verbatim>\<open>list_find\<close> (shown to end
  on every well-formed list), \<^verbatim>\<open>c_strreplace\<close> (shown to end for a nonempty
  pattern, and not to end when pattern and replacement are empty; an access outside the buffer is a
  result of its own, \<open>Out_of_bounds\<close>), and reading a string up to its NUL
  (undefined in unmapped memory). No fuel is used.

  \<^bold>\<open>Simplifications.\<close> In \<open>Symbol_Map\<close> and later theories lists of nodes are HOL lists, which \<open>List_Node\<close>
  justifies; the objects in them keep their addresses, so that a double release is visible.
  The list of allocated blocks is a list of header addresses; the bytes of a header stand for all its members, and a
  store of anything else into them makes it unreadable, while the stores of the list operations into the links of the nodes are
  not followed byte by byte. Allocations that the framework
  makes for itself (map nodes, messages, copies of strings) are taken to succeed, except for the array of test
  states. Floating-point operations round to nearest even in the type of their operands.
  The signal handlers of the C library are a table of numbers.

  \<^bold>\<open>Not modelled.\<close> The Windows branches (\<^verbatim>\<open>exception_filter\<close>, structured exceptions, the
  Windows clock), which POSIX builds do not contain; of \<^verbatim>\<open>cmocka.h\<close> the floating-point assertion
  macros, whose expansion depends on the text of their arguments, and the obsolete
  \<^verbatim>\<open>unit_test\<close> macros; \<^verbatim>\<open>cmocka_private.h\<close> (portability macros); \<^verbatim>\<open>cmocka_pbc.h\<close>, which
  expands to \<^verbatim>\<open>assert\<close>; examples, tests, build files.
\<close>

end
